(* ===== verification/Prelude.thy ===== *)
theory Prelude
  imports Main "HOL-Library.Word" "HOL-Library.Char_ord"
begin

text \<open>
  What every component shares: the string and number operations of JavaScript that the sources
  use (over \<open>string\<close>, one \<open>char\<close> per code unit, so text outside Latin-1 is not represented), JSON
  values, and generic list lemmas. The components' simp rules go into the collections declared
  here.
\<close>

named_theorems js_simps \<open>evaluation of the JavaScript string and number operations\<close>
named_theorems key_simps \<open>reading a Redis key after a command\<close>
named_theorems frame_simps \<open>what an operation leaves unchanged\<close>

section \<open>Numbers\<close>

text \<open>\<open>x | 0\<close> and the operands of \<open>^\<close> and \<open><<\<close>: ToInt32 of a number.\<close>

definition toInt32 :: "int \<Rightarrow> int" where
  "toInt32 n = (let m = n mod 4294967296 in if m \<ge> 2147483648 then m - 4294967296 else m)"

lemma toInt32_bounds: "- 2147483648 \<le> toInt32 n \<and> toInt32 n < 2147483648"
proof -
  have "0 \<le> n mod 4294967296" "n mod 4294967296 < 4294967296"
    by (simp_all add: pos_mod_sign pos_mod_bound)
  then show ?thesis by (auto simp: toInt32_def Let_def)
qed

lemma toInt32_id [simp]:
  "\<lbrakk> - 2147483648 \<le> n; n < 2147483648 \<rbrakk> \<Longrightarrow> toInt32 n = n"
proof -
  assume a: "- 2147483648 \<le> n" "n < 2147483648"
  show "toInt32 n = n"
  proof (cases "0 \<le> n")
    case True
    with a show ?thesis by (simp add: toInt32_def Let_def)
  next
    case False
    with a have "n mod 4294967296 = n + 4294967296"
      by (intro int_mod_pos_eq [where q = "-1"]) simp_all
    with a False show ?thesis by (simp add: toInt32_def Let_def)
  qed
qed

text \<open>\<open>Math.max(lo, Math.min(hi, x))\<close>.\<close>

definition clamp :: "int \<Rightarrow> int \<Rightarrow> int \<Rightarrow> int" where
  "clamp lo hi x = max lo (min hi x)"

lemma clamp_bounds: "lo \<le> hi \<Longrightarrow> lo \<le> clamp lo hi x \<and> clamp lo hi x \<le> hi"
  by (simp add: clamp_def)

text \<open>Decimal digits of a natural number, for the keys and messages that contain one.\<close>

fun show_nat :: "nat \<Rightarrow> string" where
  "show_nat n =
     (if n < 10 then [char_of (48 + n)] else show_nat (n div 10) @ [char_of (48 + n mod 10)])"

declare show_nat.simps [simp del]

definition show_int :: "int \<Rightarrow> string" where
  "show_int n = (if n < 0 then CHR ''-'' # show_nat (nat (- n)) else show_nat (nat n))"

definition read_nat :: "string \<Rightarrow> nat" where
  "read_nat s = foldl (\<lambda>a c. 10 * a + (of_char c - 48)) 0 s"

lemma read_show_nat [simp]: "read_nat (show_nat n) = n"
proof (induction n rule: show_nat.induct)
  case (1 n)
  have d: "of_char (char_of (48 + m) :: char) = (48 + m :: nat)" if "m < 10" for m
    using that by (simp add: of_char_of)
  show ?case
  proof (cases "n < 10")
    case True
    then show ?thesis by (subst show_nat.simps) (simp add: read_nat_def d)
  next
    case False
    with 1 have "foldl (\<lambda>a c. 10 * a + (of_char c - 48)) 0 (show_nat (n div 10)) = n div 10"
      by (simp add: read_nat_def)
    with False show ?thesis
      by (subst show_nat.simps) (simp add: read_nat_def d)
  qed
qed

lemma show_nat_inj [simp]: "show_nat m = show_nat n \<longleftrightarrow> m = n"
  by (metis read_show_nat)

lemma show_int_inj: "0 \<le> m \<Longrightarrow> 0 \<le> n \<Longrightarrow> show_int m = show_int n \<longleftrightarrow> m = n"
  by (auto simp: show_int_def eq_nat_nat_iff)

section \<open>Strings\<close>

text \<open>The characters \<open>String.prototype.trim\<close> strips.\<close>

definition is_ws :: "char \<Rightarrow> bool" where
  "is_ws c \<longleftrightarrow> c \<in> {CHR '' '', CHR 0x09, CHR 0x0A, CHR 0x0B, CHR 0x0C, CHR 0x0D, CHR 0xA0}"

definition js_trim :: "string \<Rightarrow> string" where
  "js_trim s = rev (dropWhile is_ws (rev (dropWhile is_ws s)))"

definition lower_char :: "char \<Rightarrow> char" where
  "lower_char c = (if CHR ''A'' \<le> c \<and> c \<le> CHR ''Z'' then char_of (of_char c + 32 :: nat) else c)"

definition to_lower :: "string \<Rightarrow> string" where
  "to_lower s = map lower_char s"

definition starts_with :: "string \<Rightarrow> string \<Rightarrow> bool" where
  "starts_with s p \<longleftrightarrow> take (length p) s = p"

text \<open>\<open>t.indexOf(w)\<close>, with \<open>None\<close> for \<open>-1\<close>.\<close>

fun index_of :: "string \<Rightarrow> string \<Rightarrow> nat option" where
  "index_of [] w = (if w = [] then Some 0 else None)"
| "index_of (c # t) w =
     (if starts_with (c # t) w then Some 0 else map_option Suc (index_of t w))"

definition has_sub :: "string \<Rightarrow> string \<Rightarrow> bool" where
  "has_sub t w \<longleftrightarrow> index_of t w \<noteq> None"

text \<open>\<open>s.slice(a, b)\<close> for \<open>0 \<le> a\<close> and \<open>0 \<le> b\<close>.\<close>

definition slice :: "nat \<Rightarrow> nat \<Rightarrow> string \<Rightarrow> string" where
  "slice a b s = take (b - a) (drop a s)"

text \<open>\<open>s.split(c)\<close> for a one-character separator.\<close>

fun split_on :: "char \<Rightarrow> string \<Rightarrow> string list" where
  "split_on c [] = [[]]"
| "split_on c (x # xs) =
     (if x = c then [] # split_on c xs
      else case split_on c xs of [] \<Rightarrow> [[x]] | w # ws \<Rightarrow> (x # w) # ws)"

fun join_with :: "string \<Rightarrow> string list \<Rightarrow> string" where
  "join_with sep [] = []"
| "join_with sep [w] = w"
| "join_with sep (w # ws) = w @ sep @ join_with sep ws"

text \<open>\<open>csv.split(',').map((s) => s.trim()...).filter(Boolean)\<close>.\<close>

definition csv_fields :: "string \<Rightarrow> string list" where
  "csv_fields s = filter (\<lambda>w. w \<noteq> []) (map js_trim (split_on (CHR '','') s))"

text \<open>\<open>s || t\<close>.\<close>

definition or_text :: "string \<Rightarrow> string \<Rightarrow> string" where
  "or_text s t = (if s \<noteq> [] then s else t)"

lemma starts_with_append [simp]: "starts_with (p @ s) p"
  by (simp add: starts_with_def)

lemma starts_with_Nil [simp]: "starts_with s []"
  by (simp add: starts_with_def)

lemma starts_with_iff: "starts_with s p \<longleftrightarrow> (\<exists>r. s = p @ r)"
  by (metis append_take_drop_id starts_with_append starts_with_def)

lemma starts_with_Cons [simp]:
  "starts_with (c # s) (d # p) \<longleftrightarrow> c = d \<and> starts_with s p"
  "\<not> starts_with [] (d # p)"
  by (auto simp: starts_with_def)

text \<open>
  The template literal \<open>`prefix${x}`\<close> that builds a key. It is a function of its own so that keys
  with different prefixes are told apart by the simplifier.
\<close>

definition tmpl :: "string \<Rightarrow> string \<Rightarrow> string" where
  "tmpl p x = p @ x"

lemma tmpl_inj [simp]: "tmpl p x = tmpl p y \<longleftrightarrow> x = y"
  by (simp add: tmpl_def)

lemma tmpl_neq [simp]:
  "\<not> starts_with p q \<Longrightarrow> \<not> starts_with q p \<Longrightarrow> tmpl p x \<noteq> tmpl q y"
  "\<not> starts_with (c # k) p \<Longrightarrow> c # k \<noteq> tmpl p x"
  "\<not> starts_with (c # k) p \<Longrightarrow> tmpl p x \<noteq> c # k"
proof -
  show "\<not> starts_with p q \<Longrightarrow> \<not> starts_with q p \<Longrightarrow> tmpl p x \<noteq> tmpl q y"
    by (auto simp: tmpl_def starts_with_iff append_eq_append_conv2)
  show "\<not> starts_with (c # k) p \<Longrightarrow> c # k \<noteq> tmpl p x"
    "\<not> starts_with (c # k) p \<Longrightarrow> tmpl p x \<noteq> c # k"
    unfolding tmpl_def starts_with_iff by metis+
qed

lemma starts_with_tmpl [simp]:
  "length q \<le> length p \<Longrightarrow> starts_with (tmpl p x) q = starts_with p q"
  "\<not> starts_with p q \<Longrightarrow> \<not> starts_with q p \<Longrightarrow> \<not> starts_with (tmpl p x) q"
proof -
  show "length q \<le> length p \<Longrightarrow> starts_with (tmpl p x) q = starts_with p q"
    by (simp add: tmpl_def starts_with_def)
  show "\<not> starts_with p q \<Longrightarrow> \<not> starts_with q p \<Longrightarrow> \<not> starts_with (tmpl p x) q"
    unfolding tmpl_def starts_with_iff by (metis append_eq_append_conv2)
qed

lemma index_of_SomeD:
  "index_of t w = Some i \<Longrightarrow> i + length w \<le> length t \<and> take (length w) (drop i t) = w"
proof (induction t arbitrary: i)
  case Nil
  then show ?case by (auto split: if_splits)
next
  case (Cons c t)
  show ?case
  proof (cases "starts_with (c # t) w")
    case True
    with Cons.prems have "i = 0" by simp
    moreover from True obtain r where "c # t = w @ r" by (auto simp: starts_with_iff)
    then have "length w \<le> length (c # t)" "take (length w) (c # t) = w"
      by (metis le_add1 length_append, simp)
    ultimately show ?thesis by simp
  next
    case False
    with Cons.prems obtain j where "index_of t w = Some j" "i = Suc j" by auto
    with Cons.IH [of j] show ?thesis by simp
  qed
qed

lemma length_to_lower [simp]: "length (to_lower s) = length s"
  by (simp add: to_lower_def)

lemma to_lower_take: "to_lower (take n s) = take n (to_lower s)"
  by (simp add: to_lower_def take_map)

lemma to_lower_drop: "to_lower (drop n s) = drop n (to_lower s)"
  by (simp add: to_lower_def drop_map)

lemma split_on_nonempty [simp]: "split_on c s \<noteq> []"
  by (induction s) (auto split: list.splits)

lemma split_on_no_sep: "c \<notin> set s \<Longrightarrow> split_on c s = [s]"
  by (induction s) auto

lemma split_on_append:
  "c \<notin> set s \<Longrightarrow> split_on c (s @ c # t) = s # split_on c t"
  by (induction s) (auto split: list.splits)

lemma dropWhile_ws_idem [simp]: "dropWhile P (dropWhile P s) = dropWhile P s"
  by (induction s) auto

section \<open>JSON values\<close>

datatype json =
    JNull
  | JBool bool
  | JNum int
  | JStr string
  | JArr "json list"
  | JObj "(string \<times> json) list"

text \<open>\<open>o.f\<close>: \<open>None\<close> is \<open>undefined\<close>.\<close>

fun jfield :: "string \<Rightarrow> json \<Rightarrow> json option" where
  "jfield f (JObj kvs) = map_of kvs f"
| "jfield f _ = None"

text \<open>The string held in a field, \<open>''''\<close> when there is none (the sources' \<open>x || ''\<close>).\<close>

definition jstr :: "string \<Rightarrow> json \<Rightarrow> string" where
  "jstr f j = (case jfield f j of Some (JStr s) \<Rightarrow> s | _ \<Rightarrow> '''')"

definition jnum :: "string \<Rightarrow> json \<Rightarrow> int" where
  "jnum f j = (case jfield f j of Some (JNum n) \<Rightarrow> n | _ \<Rightarrow> 0)"

text \<open>\<open>!!x\<close>.\<close>

fun truthy :: "json option \<Rightarrow> bool" where
  "truthy None = False"
| "truthy (Some JNull) = False"
| "truthy (Some (JBool b)) = b"
| "truthy (Some (JNum n)) = (n \<noteq> 0)"
| "truthy (Some (JStr s)) = (s \<noteq> [])"
| "truthy (Some (JArr _)) = True"
| "truthy (Some (JObj _)) = True"

text \<open>What a template literal prints for a field: a missing one prints \<open>undefined\<close>.\<close>

fun js_text :: "json option \<Rightarrow> string" where
  "js_text None = ''undefined''"
| "js_text (Some JNull) = ''null''"
| "js_text (Some (JBool b)) = (if b then ''true'' else ''false'')"
| "js_text (Some (JNum n)) = show_int n"
| "js_text (Some (JStr s)) = s"
| "js_text (Some (JArr _)) = ''[array]''"
| "js_text (Some (JObj _)) = ''[object Object]''"

section \<open>Lists\<close>

text \<open>\<open>new Set(xs)\<close> iterates its elements in the order of their first insertion.\<close>

definition add_new :: "'a \<Rightarrow> 'a list \<Rightarrow> 'a list" where
  "add_new x xs = (if x \<in> set xs then xs else xs @ [x])"

definition js_set :: "'a list \<Rightarrow> 'a list" where
  "js_set xs = foldl (\<lambda>acc x. add_new x acc) [] xs"

lemma foldl_add_new:
  "set (foldl (\<lambda>acc x. add_new x acc) a xs) = set a \<union> set xs"
  "distinct a \<Longrightarrow> distinct (foldl (\<lambda>acc x. add_new x acc) a xs)"
  by (induction xs arbitrary: a) (auto simp: add_new_def)

lemma set_js_set [simp]: "set (js_set xs) = set xs"
  by (simp add: js_set_def foldl_add_new)

lemma distinct_js_set [simp]: "distinct (js_set xs)"
  by (simp add: js_set_def foldl_add_new)

lemma take_length_le: "length (take n xs) \<le> n"
  by simp

end
