(* ===== verification/Config.thy ===== *)
theory Config
  imports Prelude
begin

text \<open>
  The values the API reads from \<open>process.env\<close> through \<open>parseInt(... || default, 10)\<close>, one field
  per variable, and the defaults written in the sources.
\<close>

record env =
  ws_room_capacity :: int
  ws_batch_ms :: int
  ws_compress_threshold :: int
  ws_update_max_bytes :: int
  ws_idle_prune_ms :: int
  ws_presence_min_ms :: int
  ws_presence_ttl_sec :: int
  ws_msgs_per_sec :: int
  audit_log_max :: int
  auth_fail_block_threshold :: int
  mem_cache_max :: int
  mem_cache_y_ttl :: int
  redis_cache_y_ttl :: int
  doc_max_state_bytes :: int
  doc_snapshot_every :: int
  doc_update_keep :: int
  doc_update_alert_threshold :: int
  rate_docs_per_min :: int
  rate_ip_per_min_default :: int
  rate_user_per_min_default :: int
  comment_rate_per_min :: int
  emergency_rate_limit_per_ip :: int
  mention_max_per_comment :: int
  max_concurrent_per_ip :: int
  bot_path_variety_threshold :: int
  admin_emails :: string
  profanity_words :: string
  jwt_access_ttl :: int
  jwt_refresh_ttl :: int
  jwt_rotate_days :: int
  captcha_enabled :: string
  captcha_test_mode :: string
  mfa_totp_secret :: string
  doc_delete_ttl_days :: int
  comment_archive_days :: int
  snapshot_keep_last :: int
  snapshot_max_age_days :: int
  doc_compact_threshold :: int
  public_web_base :: string
  cors_origin :: string

definition default_env :: env where
  "default_env = \<lparr>
     ws_room_capacity = 100, ws_batch_ms = 40, ws_compress_threshold = 2048,
     ws_update_max_bytes = 1048576, ws_idle_prune_ms = 300000, ws_presence_min_ms = 60,
     ws_presence_ttl_sec = 60, ws_msgs_per_sec = 10,
     audit_log_max = 10000, auth_fail_block_threshold = 25,
     mem_cache_max = 1000, mem_cache_y_ttl = 5, redis_cache_y_ttl = 30,
     doc_max_state_bytes = 6291456, doc_snapshot_every = 200, doc_update_keep = 500,
     doc_update_alert_threshold = 5000,
     rate_docs_per_min = 100, rate_ip_per_min_default = 600, rate_user_per_min_default = 600,
     comment_rate_per_min = 10, emergency_rate_limit_per_ip = 0, mention_max_per_comment = 5,
     max_concurrent_per_ip = 20, bot_path_variety_threshold = 60,
     admin_emails = '''', profanity_words = '''',
     jwt_access_ttl = 900, jwt_refresh_ttl = 604800, jwt_rotate_days = 30,
     captcha_enabled = '''', captcha_test_mode = '''', mfa_totp_secret = '''',
     doc_delete_ttl_days = 30, comment_archive_days = 90,
     snapshot_keep_last = 20, snapshot_max_age_days = 90, doc_compact_threshold = 800,
     public_web_base = '''', cors_origin = '''' \<rparr>"

end
