(* ===== verification/Keyspace.thy ===== *)
theory Keyspace
  imports Config
begin

text \<open>
  The state the API keeps in Redis, as an explicit store: a map from keys to values with an
  optional expiry time, the clock the expiry times refer to, and the messages published so far.
  The commands are the calls the sources make on the \<open>ioredis\<close> client, each with its effect on
  that state; the API uses a key with one type of value only, so a command applied to a value of
  another type is not distinguished. Commands are assumed not to fail (the \<open>try ... catch {}\<close>
  around them is then the identity). Also here: \<open>CacheService\<close> (\<open>api/src/redis/cache.service.ts\<close>)
  and the contract of a fixed-window counter that all rate limits of the system share.
\<close>

section \<open>Keys, values, expiry\<close>

text \<open>
  A string value by how the code produced it: a literal, a counter, \<open>JSON.stringify\<close> of a value.
\<close>

datatype rtext = Txt string | Num int | Js json

datatype rval =
    RText rtext
  | RSet "string list"
  | RList "rtext list"
  | RHash "(string \<times> string) list"
  | RZSet "(string \<times> int) list"

record redis =
  clock :: int
  keys :: "string \<Rightarrow> (rval \<times> int option) option"
  pubs :: "(string \<times> json) list"

definition empty_redis :: "int \<Rightarrow> redis" where
  "empty_redis t = \<lparr>clock = t, keys = Map.empty, pubs = []\<rparr>"

text \<open>Milliseconds pass.\<close>

definition tick :: "int \<Rightarrow> redis \<Rightarrow> redis" where
  "tick d s = s\<lparr>clock := clock s + d\<rparr>"

fun live :: "int \<Rightarrow> int option \<Rightarrow> bool" where
  "live now None = True"
| "live now (Some t) = (now < t)"

definition entry :: "redis \<Rightarrow> string \<Rightarrow> (rval \<times> int option) option" where
  "entry s k = (case keys s k of
     None \<Rightarrow> None
   | Some (v, e) \<Rightarrow> if live (clock s) e then Some (v, e) else None)"

definition put :: "string \<Rightarrow> rval \<Rightarrow> int option \<Rightarrow> redis \<Rightarrow> redis" where
  "put k v e s = s\<lparr>keys := (keys s)(k := Some (v, e))\<rparr>"

definition r_del :: "string \<Rightarrow> redis \<Rightarrow> redis" where
  "r_del k s = s\<lparr>keys := (keys s)(k := None)\<rparr>"

definition r_publish :: "string \<Rightarrow> json \<Rightarrow> redis \<Rightarrow> redis" where
  "r_publish ch j s = s\<lparr>pubs := pubs s @ [(ch, j)]\<rparr>"

lemma entry_put [key_simps]:
  "entry (put k v e s) k' =
     (if k' = k then (if live (clock s) e then Some (v, e) else None) else entry s k')"
  by (simp add: entry_def put_def split: option.split)

lemma entry_del [key_simps]: "entry (r_del k s) k' = (if k' = k then None else entry s k')"
  by (simp add: entry_def r_del_def split: option.split)

lemma entry_publish [key_simps, simp]: "entry (r_publish ch j s) k = entry s k"
  by (simp add: entry_def r_publish_def split: option.split)

lemma clock_simps [key_simps, simp]:
  "clock (put k v e s) = clock s" "clock (r_del k s) = clock s"
  "clock (r_publish ch j s) = clock s" "clock (tick d s) = clock s + d"
  by (simp_all add: put_def r_del_def r_publish_def tick_def)

lemma pubs_simps [key_simps, simp]:
  "pubs (put k v e s) = pubs s" "pubs (r_del k s) = pubs s"
  "pubs (r_publish ch j s) = pubs s @ [(ch, j)]" "pubs (tick d s) = pubs s"
  by (simp_all add: put_def r_del_def r_publish_def tick_def)

text \<open>What time does to an entry: it stays until its expiry time, then it is gone.\<close>

lemma entry_tick:
  "0 \<le> d \<Longrightarrow> entry (tick d s) k =
     (case entry s k of None \<Rightarrow> None | Some (v, e) \<Rightarrow> if live (clock s + d) e then Some (v, e) else None)"
proof -
  assume d: "0 \<le> d"
  have "live (clock s + d) e \<Longrightarrow> live (clock s) e" for e
    using d by (cases e) auto
  then show ?thesis
    by (auto simp: entry_def tick_def split: option.splits)
qed

lemma entry_tick_None: "0 \<le> d \<Longrightarrow> entry s k = None \<Longrightarrow> entry (tick d s) k = None"
  by (simp add: entry_tick)

lemma entry_live: "entry s k = Some (v, e) \<Longrightarrow> live (clock s) e"
  by (auto simp: entry_def split: option.splits if_splits)

section \<open>The commands\<close>

definition r_get :: "string \<Rightarrow> redis \<Rightarrow> rtext option" where
  "r_get k s = (case entry s k of Some (RText t, _) \<Rightarrow> Some t | _ \<Rightarrow> None)"

definition r_set :: "string \<Rightarrow> rtext \<Rightarrow> redis \<Rightarrow> redis" where
  "r_set k t s = put k (RText t) None s"

text \<open>\<open>SET k t EX sec\<close>.\<close>

definition r_setex :: "string \<Rightarrow> rtext \<Rightarrow> int \<Rightarrow> redis \<Rightarrow> redis" where
  "r_setex k t sec s = put k (RText t) (Some (clock s + 1000 * sec)) s"

text \<open>\<open>SET k t PX ms NX\<close>.\<close>

definition r_setnx :: "string \<Rightarrow> rtext \<Rightarrow> int \<Rightarrow> redis \<Rightarrow> bool \<times> redis" where
  "r_setnx k t ms s = (case entry s k of
     None \<Rightarrow> (True, put k (RText t) (Some (clock s + ms)) s)
   | Some _ \<Rightarrow> (False, s))"

definition r_incrby :: "string \<Rightarrow> int \<Rightarrow> redis \<Rightarrow> int \<times> redis" where
  "r_incrby k d s = (case entry s k of
     Some (RText (Num n), e) \<Rightarrow> (n + d, put k (RText (Num (n + d))) e s)
   | _ \<Rightarrow> (d, put k (RText (Num d)) None s))"

definition r_incr :: "string \<Rightarrow> redis \<Rightarrow> int \<times> redis" where
  "r_incr k s = r_incrby k 1 s"

definition r_expire :: "string \<Rightarrow> int \<Rightarrow> redis \<Rightarrow> redis" where
  "r_expire k sec s = (case entry s k of
     None \<Rightarrow> s
   | Some (v, _) \<Rightarrow> put k v (Some (clock s + 1000 * sec)) s)"

text \<open>Counters: the value of the counter at a key, 0 when there is none.\<close>

definition r_num :: "string \<Rightarrow> redis \<Rightarrow> int" where
  "r_num k s = (case r_get k s of Some (Num n) \<Rightarrow> n | _ \<Rightarrow> 0)"

definition r_smembers :: "string \<Rightarrow> redis \<Rightarrow> string list" where
  "r_smembers k s = (case entry s k of Some (RSet ms, _) \<Rightarrow> ms | _ \<Rightarrow> [])"

definition ttl_of :: "string \<Rightarrow> redis \<Rightarrow> int option" where
  "ttl_of k s = (case entry s k of Some (_, e) \<Rightarrow> e | None \<Rightarrow> None)"

definition r_sadd :: "string \<Rightarrow> string \<Rightarrow> redis \<Rightarrow> nat \<times> redis" where
  "r_sadd k m s = (let ms = r_smembers k s in
     if m \<in> set ms then (0, s) else (1, put k (RSet (ms @ [m])) (ttl_of k s) s))"

definition r_srem :: "string \<Rightarrow> string \<Rightarrow> redis \<Rightarrow> redis" where
  "r_srem k m s = (let ms = r_smembers k s; ms' = filter (\<lambda>x. x \<noteq> m) ms in
     if m \<notin> set ms then s
     else if ms' = [] then r_del k s else put k (RSet ms') (ttl_of k s) s)"

definition r_scard :: "string \<Rightarrow> redis \<Rightarrow> nat" where
  "r_scard k s = length (r_smembers k s)"

definition r_list :: "string \<Rightarrow> redis \<Rightarrow> rtext list" where
  "r_list k s = (case entry s k of Some (RList ts, _) \<Rightarrow> ts | _ \<Rightarrow> [])"

definition r_lpush :: "string \<Rightarrow> rtext \<Rightarrow> redis \<Rightarrow> redis" where
  "r_lpush k t s = put k (RList (t # r_list k s)) (ttl_of k s) s"

text \<open>\<open>LTRIM k 0 (n - 1)\<close>.\<close>

definition r_ltrim :: "string \<Rightarrow> nat \<Rightarrow> redis \<Rightarrow> redis" where
  "r_ltrim k n s = (let ts = take n (r_list k s) in
     if ts = [] then r_del k s else put k (RList ts) (ttl_of k s) s)"

definition r_rpop :: "string \<Rightarrow> redis \<Rightarrow> rtext option \<times> redis" where
  "r_rpop k s = (let ts = r_list k s in
     if ts = [] then (None, s)
     else if butlast ts = [] then (Some (last ts), r_del k s)
     else (Some (last ts), put k (RList (butlast ts)) (ttl_of k s) s))"

definition r_hgetall :: "string \<Rightarrow> redis \<Rightarrow> (string \<times> string) list" where
  "r_hgetall k s = (case entry s k of Some (RHash kvs, _) \<Rightarrow> kvs | _ \<Rightarrow> [])"

definition r_hset :: "string \<Rightarrow> (string \<times> string) list \<Rightarrow> redis \<Rightarrow> redis" where
  "r_hset k kvs s =
     put k (RHash (kvs @ filter (\<lambda>p. fst p \<notin> fst ` set kvs) (r_hgetall k s))) (ttl_of k s) s"

definition r_zincrby :: "string \<Rightarrow> int \<Rightarrow> string \<Rightarrow> redis \<Rightarrow> redis" where
  "r_zincrby k d m s =
     (let zs = (case entry s k of Some (RZSet zs, _) \<Rightarrow> zs | _ \<Rightarrow> []);
          old = (case map_of zs m of Some n \<Rightarrow> n | None \<Rightarrow> 0)
      in put k (RZSet ((m, old + d) # filter (\<lambda>p. fst p \<noteq> m) zs)) (ttl_of k s) s)"

lemmas redis_defs =
  r_get_def r_set_def r_setex_def r_setnx_def r_incr_def r_incrby_def r_expire_def r_num_def
  r_smembers_def r_sadd_def r_srem_def r_scard_def r_list_def r_lpush_def r_ltrim_def r_rpop_def
  r_hgetall_def r_hset_def r_zincrby_def ttl_of_def

section \<open>Frame: a command changes its own key only\<close>

lemma entry_other [key_simps, frame_simps]:
  assumes "k' \<noteq> k"
  shows "entry (r_set k t s) k' = entry s k'"
    "entry (r_setex k t sec s) k' = entry s k'"
    "entry (snd (r_setnx k t sec s)) k' = entry s k'"
    "entry (snd (r_incrby k d s)) k' = entry s k'"
    "entry (snd (r_incr k s)) k' = entry s k'"
    "entry (r_expire k sec s) k' = entry s k'"
    "entry (snd (r_sadd k m s)) k' = entry s k'"
    "entry (r_srem k m s) k' = entry s k'"
    "entry (r_lpush k t s) k' = entry s k'"
    "entry (r_ltrim k n s) k' = entry s k'"
    "entry (snd (r_rpop k s)) k' = entry s k'"
    "entry (r_hset k kvs s) k' = entry s k'"
    "entry (r_zincrby k d m s) k' = entry s k'"
  using assms by (auto simp: redis_defs key_simps Let_def split: option.splits rval.splits rtext.splits)

lemma clock_cmd [key_simps, simp]:
  "clock (r_set k t s) = clock s"
  "clock (r_setex k t sec s) = clock s"
  "clock (snd (r_setnx k t sec s)) = clock s"
  "clock (snd (r_incrby k d s)) = clock s"
  "clock (snd (r_incr k s)) = clock s"
  "clock (r_expire k sec s) = clock s"
  "clock (snd (r_sadd k m s)) = clock s"
  "clock (r_srem k m s) = clock s"
  "clock (r_lpush k t s) = clock s"
  "clock (r_ltrim k n s) = clock s"
  "clock (snd (r_rpop k s)) = clock s"
  "clock (r_hset k kvs s) = clock s"
  "clock (r_zincrby k d m s) = clock s"
  by (auto simp: redis_defs Let_def split: option.splits rval.splits rtext.splits)

section \<open>Reading back what was written\<close>

lemma entry_self [key_simps]:
  "entry (r_set k t s) k = Some (RText t, None)"
  "0 < sec \<Longrightarrow> entry (r_setex k t sec s) k = Some (RText t, Some (clock s + 1000 * sec))"
  "0 < ms \<Longrightarrow> entry s k = None \<Longrightarrow>
     r_setnx k t ms s = (True, put k (RText t) (Some (clock s + ms)) s)"
  "entry s k = Some w \<Longrightarrow> r_setnx k t ms s = (False, s)"
  by (auto simp: redis_defs key_simps)

lemma r_get_entry: "entry s k = Some (RText t, e) \<Longrightarrow> r_get k s = Some t"
  by (simp add: r_get_def)

lemma r_get_None: "entry s k = None \<Longrightarrow> r_get k s = None"
  by (simp add: r_get_def)

lemma r_get_cong: "entry s k = entry s' k \<Longrightarrow> r_get k s = r_get k s'"
  by (simp add: r_get_def)

lemma r_get_set [key_simps]:
  "r_get k (r_set k t s) = Some t"
  "0 < sec \<Longrightarrow> r_get k (r_setex k t sec s) = Some t"
  "r_get k (r_del k s) = None"
  by (simp_all add: r_get_def key_simps)

lemma read_other:
  assumes "entry s k = entry s' k"
  shows "r_get k s = r_get k s'" "r_smembers k s = r_smembers k s'" "r_list k s = r_list k s'"
    "r_num k s = r_num k s'"
  using assms by (simp_all add: r_get_def r_smembers_def r_list_def r_num_def)

lemma ttl_of_live: "live (clock s) (ttl_of k s)"
  by (cases "entry s k") (auto simp: ttl_of_def dest: entry_live)

lemma members_put [key_simps]:
  "live (clock s) e \<Longrightarrow> r_smembers k (put k (RSet ms) e s) = ms"
  "r_smembers k (r_del k s) = []"
  by (simp_all add: r_smembers_def key_simps)

lemma smembers_sadd [key_simps]:
  "set (r_smembers k (snd (r_sadd k m s))) = insert m (set (r_smembers k s))"
  by (auto simp: r_sadd_def Let_def members_put ttl_of_live)

lemma smembers_srem [key_simps]:
  "set (r_smembers k (r_srem k m s)) = set (r_smembers k s) - {m}"
proof (cases "m \<in> set (r_smembers k s)")
  case False
  then show ?thesis by (simp add: r_srem_def Let_def)
next
  case True
  then have "r_smembers k (r_srem k m s) = filter (\<lambda>x. x \<noteq> m) (r_smembers k s)"
    by (simp add: r_srem_def Let_def members_put ttl_of_live)
  then show ?thesis by auto
qed

lemma list_lpush [key_simps]: "r_list k (r_lpush k t s) = t # r_list k s"
  using ttl_of_live [of s k] by (simp add: r_lpush_def r_list_def key_simps)

lemma list_ltrim [key_simps]: "r_list k (r_ltrim k n s) = take n (r_list k s)"
  using ttl_of_live [of s k] by (auto simp: r_ltrim_def r_list_def Let_def key_simps)

lemma list_rpop [key_simps]:
  "r_list k (snd (r_rpop k s)) = butlast (r_list k s)"
  "fst (r_rpop k s) = (if r_list k s = [] then None else Some (last (r_list k s)))"
  using ttl_of_live [of s k] by (auto simp: r_rpop_def r_list_def Let_def key_simps)

lemma list_expire [key_simps]: "0 < sec \<Longrightarrow> r_list k (r_expire k sec s) = r_list k s"
  by (auto simp: r_expire_def r_list_def key_simps split: option.splits)

lemma smembers_expire [key_simps]: "0 < sec \<Longrightarrow> r_smembers k (r_expire k sec s) = r_smembers k s"
  by (auto simp: r_expire_def r_smembers_def key_simps split: option.splits)

section \<open>CacheService\<close>

text \<open>
  \<open>getJson\<close> reads only keys that \<open>setJson\<close> wrote, so what \<open>JSON.parse\<close> sees is what
  \<open>JSON.stringify\<close> printed.
\<close>

definition cache_getJson :: "string \<Rightarrow> redis \<Rightarrow> json option" where
  "cache_getJson k s = (case r_get k s of Some (Js j) \<Rightarrow> Some j | _ \<Rightarrow> None)"

definition cache_setJson :: "string \<Rightarrow> json \<Rightarrow> int \<Rightarrow> redis \<Rightarrow> redis" where
  "cache_setJson k j ttlSeconds s = r_setex k (Js j) ttlSeconds s"

definition cache_del :: "string \<Rightarrow> redis \<Rightarrow> redis" where
  "cache_del k s = r_del k s"

definition cache_incr :: "string \<Rightarrow> int option \<Rightarrow> redis \<Rightarrow> int \<times> redis" where
  "cache_incr k ttlSeconds s =
     (let (val, s1) = r_incr k s
      in case ttlSeconds of
           None \<Rightarrow> (val, s1)
         | Some ttl \<Rightarrow>
             if ttl \<noteq> 0 \<and> val = 1 then (val, r_expire k ttl s1) else (val, s1))"

lemmas cache_defs = cache_getJson_def cache_setJson_def cache_del_def

lemma cache_getJson_cong: "entry s k = entry s' k \<Longrightarrow> cache_getJson k s = cache_getJson k s'"
  by (simp add: cache_getJson_def r_get_def)

lemma cache_get_set [key_simps]:
  "0 < ttl \<Longrightarrow> cache_getJson k (cache_setJson k j ttl s) = Some j"
  "cache_getJson k (cache_del k s) = None"
  by (simp_all add: cache_defs key_simps)

lemma cache_other [key_simps, frame_simps]:
  "k' \<noteq> k \<Longrightarrow> entry (cache_setJson k j ttl s) k' = entry s k'"
  "k' \<noteq> k \<Longrightarrow> entry (cache_del k s) k' = entry s k'"
  "k' \<noteq> k \<Longrightarrow> entry (snd (cache_incr k t s)) k' = entry s k'"
  by (auto simp: cache_defs cache_incr_def key_simps Let_def split: option.splits prod.splits
      dest!: arg_cong [where f = snd])

lemma cache_clock [key_simps, simp]:
  "clock (cache_setJson k j ttl s) = clock s" "clock (cache_del k s) = clock s"
  "clock (snd (cache_incr k t s)) = clock s"
  by (auto simp: cache_defs cache_incr_def Let_def split: option.splits prod.splits
      dest!: arg_cong [where f = "\<lambda>p. clock (snd p)"])

end
