(* ===== verification/Store.thy ===== *)
theory Store
  imports Keyspace
begin

text \<open>
  The MongoDB collections as lists of records with the fields of the schemas
  (\<open>api/src/database/schemas\<close>), in insertion order, and the repository methods
  (\<open>api/src/database/repositories\<close>) as the queries and updates they are: \<open>find\<close> is a filter,
  \<open>sort\<close>/\<open>skip\<close>/\<open>limit\<close> act on its result (a stable sort; rows with equal sort keys keep their
  insertion order), \<open>findOne\<close> is the first match, \<open>findOneAndUpdate\<close> with \<open>upsert\<close> changes the first match
  or adds a row. Identifiers are their text; a new row gets the next number as its identifier. A
  query for a text that is not an identifier (a guest's) finds no row here. Dates are milliseconds.
\<close>

type_synonym bytes = "8 word list"

text \<open>The exceptions the handlers throw, by their HTTP status; \<open>Crash\<close> is any other exception.\<close>

datatype api_error =
    BadRequest string
  | Unauthorized string
  | Forbidden string
  | NotFound string
  | Conflict string
  | Crash string

section \<open>Schemas\<close>

datatype doc_status = Active | Archived | Deleted

record doc =
  d_id :: string
  d_workspaceId :: string
  d_title :: string
  d_ownerId :: string
  d_tags :: "string list"
  d_status :: doc_status
  d_deletedAt :: "int option"
  d_version :: int
  d_views :: int
  d_clicks :: int
  d_lastActivityAt :: "int option"
  d_updatedAt :: int

record perm =
  p_documentId :: string
  p_userId :: string
  p_role :: string

record member =
  m_workspaceId :: string
  m_userId :: string
  m_role :: string

record workspace =
  w_id :: string
  w_name :: string
  w_slug :: string
  w_ownerId :: string
  w_description :: "string option"
  w_maxDocuments :: int
  w_defaultRole :: "string option"

record user =
  us_id :: string
  us_email :: string
  us_passwordHash :: string
  us_name :: "string option"
  us_emailVerifiedAt :: "int option"

record content =
  c_documentId :: string
  c_state :: bytes
  c_vector :: bytes
  c_checksum :: "string option"

record upd =
  u_documentId :: string
  u_seq :: int
  u_update :: bytes
  u_sizeBytes :: int

record snap =
  s_id :: string
  s_documentId :: string
  s_seq :: int
  s_state :: bytes
  s_vector :: bytes
  s_checksum :: "string option"
  s_label :: string
  s_description :: string
  s_tags :: "string list"
  s_category :: string
  s_isMilestone :: bool
  s_createdBy :: "string option"
  s_createdReason :: string
  s_createdAt :: int

record comment =
  k_id :: string
  k_documentId :: string
  k_authorId :: string
  k_parentId :: "string option"
  k_threadId :: "string option"
  k_text :: string
  k_status :: string
  k_tags :: "string list"
  k_priority :: int
  k_resolvedAt :: "int option"
  k_deletedAt :: "int option"
  k_anchor :: "json option"
  k_reactions :: "(string \<times> int) list"
  k_moderationStatus :: string
  k_assigneeId :: "string option"
  k_dueAt :: "int option"
  k_escalatedAt :: "int option"
  k_archivedAt :: "int option"
  k_sentiment :: "int option"
  k_quality :: "int option"
  k_createdAt :: int
  k_updatedAt :: int

record notification =
  n_id :: string
  n_userId :: string
  n_type :: string
  n_documentId :: string
  n_commentId :: string
  n_threadId :: string
  n_data :: json
  n_readAt :: "int option"
  n_createdAt :: int

record db =
  docs :: "doc list"
  perms :: "perm list"
  members :: "member list"
  workspaces :: "workspace list"
  users :: "user list"
  contents :: "content list"
  updates :: "upd list"
  snaps :: "snap list"
  comments :: "comment list"
  notifications :: "notification list"
  next_id :: nat

definition empty_db :: db where
  "empty_db = \<lparr>docs = [], perms = [], members = [], workspaces = [], users = [], contents = [],
     updates = [], snaps = [], comments = [], notifications = [], next_id = 1\<rparr>"

definition fresh_id :: "db \<Rightarrow> string" where
  "fresh_id d = show_nat (next_id d)"

section \<open>Queries\<close>

text \<open>The first row that satisfies a condition, changed, or a row added at the end.\<close>

fun upsert_row :: "('a \<Rightarrow> bool) \<Rightarrow> ('a \<Rightarrow> 'a) \<Rightarrow> 'a \<Rightarrow> 'a list \<Rightarrow> 'a list" where
  "upsert_row p f new [] = [new]"
| "upsert_row p f new (x # xs) = (if p x then f x # xs else x # upsert_row p f new xs)"

fun update_row :: "('a \<Rightarrow> bool) \<Rightarrow> ('a \<Rightarrow> 'a) \<Rightarrow> 'a list \<Rightarrow> 'a list" where
  "update_row p f [] = []"
| "update_row p f (x # xs) = (if p x then f x # xs else x # update_row p f xs)"

fun delete_row :: "('a \<Rightarrow> bool) \<Rightarrow> 'a list \<Rightarrow> 'a list" where
  "delete_row p [] = []"
| "delete_row p (x # xs) = (if p x then xs else x # delete_row p xs)"

lemma find_upsert:
  assumes "\<And>x. p x \<Longrightarrow> p (f x)" and "p new"
  shows "find p (upsert_row p f new xs) =
    Some (case find p xs of None \<Rightarrow> new | Some x \<Rightarrow> f x)"
  by (induction xs) (auto simp: assms)

lemma find_upsert_other:
  assumes "\<And>x. p x \<Longrightarrow> \<not> q x \<and> \<not> q (f x)" and "\<not> q new"
  shows "find q (upsert_row p f new xs) = find q xs"
  by (induction xs) (auto dest: assms(1) simp: assms(2))

lemma find_update:
  assumes "\<And>x. p x \<Longrightarrow> p (f x)"
  shows "find p (update_row p f xs) = map_option f (find p xs)"
  by (induction xs) (auto simp: assms)

lemma find_update_other:
  assumes "\<And>x. p x \<Longrightarrow> q (f x) = q x \<and> \<not> q x"
  shows "find q (update_row p f xs) = find q xs"
  by (induction xs) (auto dest: assms)

lemma find_delete_other:
  assumes "\<And>x. p x \<Longrightarrow> \<not> q x"
  shows "find q (delete_row p xs) = find q xs"
  by (induction xs) (auto dest: assms)

lemma update_row_none: "\<forall>x \<in> set xs. \<not> p x \<Longrightarrow> update_row p f xs = xs"
  by (induction xs) auto

lemma find_Some_set: "find p xs = Some x \<Longrightarrow> x \<in> set xs \<and> p x"
  by (induction xs) (auto split: if_splits)

section \<open>Documents\<close>

definition doc_findById :: "string \<Rightarrow> db \<Rightarrow> doc option" where
  "doc_findById i d = find (\<lambda>x. d_id x = i) (docs d)"

definition doc_create :: "int \<Rightarrow> string \<Rightarrow> string \<Rightarrow> string \<Rightarrow> db \<Rightarrow> doc \<times> db" where
  "doc_create now ws title owner d =
     (let x = \<lparr>d_id = fresh_id d, d_workspaceId = ws, d_title = title, d_ownerId = owner, d_tags = [],
               d_status = Active, d_deletedAt = None, d_version = 0, d_views = 0, d_clicks = 0,
               d_lastActivityAt = None, d_updatedAt = now\<rparr>
      in (x, d\<lparr>docs := docs d @ [x], next_id := next_id d + 1\<rparr>))"

definition doc_update :: "int \<Rightarrow> string \<Rightarrow> (doc \<Rightarrow> doc) \<Rightarrow> db \<Rightarrow> doc option \<times> db" where
  "doc_update now i f d =
     (let d' = d\<lparr>docs := update_row (\<lambda>x. d_id x = i) (\<lambda>x. (f x)\<lparr>d_id := d_id x, d_updatedAt := now\<rparr>) (docs d)\<rparr>
      in (doc_findById i d', d'))"

definition doc_incVersion :: "int \<Rightarrow> string \<Rightarrow> db \<Rightarrow> int option \<times> db" where
  "doc_incVersion now i d =
     (let (x, d') = doc_update now i (\<lambda>x. x\<lparr>d_version := d_version x + 1\<rparr>) d
      in (map_option d_version x, d'))"

definition countByWorkspace :: "string \<Rightarrow> db \<Rightarrow> int" where
  "countByWorkspace ws d =
     int (length (filter (\<lambda>x. d_workspaceId x = ws \<and> d_status x \<noteq> Deleted) (docs d)))"

text \<open>
  \<open>listByWorkspace\<close>: the \<open>$regex\<close> match of the title is MongoDB's and so an argument.
\<close>

definition listByWorkspace :: "(string \<Rightarrow> string \<Rightarrow> bool) \<Rightarrow> string \<Rightarrow> string \<Rightarrow> string \<Rightarrow> db \<Rightarrow> doc list" where
  "listByWorkspace rx ws q tag d =
     sort_key (\<lambda>x. - d_updatedAt x)
       (filter (\<lambda>x. d_workspaceId x = ws \<and> d_status x \<noteq> Deleted
          \<and> (q = [] \<or> rx q (d_title x) \<or> q \<in> set (d_tags x))
          \<and> (tag = [] \<or> tag \<in> set (d_tags x))) (docs d))"

definition listDeletedBefore :: "int \<Rightarrow> db \<Rightarrow> string list" where
  "listDeletedBefore cutoff d =
     map d_id (take 1000 (filter (\<lambda>x. d_status x = Deleted
       \<and> (case d_deletedAt x of Some t \<Rightarrow> t \<le> cutoff | None \<Rightarrow> False)) (docs d)))"

definition doc_related :: "string \<Rightarrow> nat \<Rightarrow> db \<Rightarrow> doc list" where
  "doc_related i limit d = (case doc_findById i d of
     None \<Rightarrow> []
   | Some x \<Rightarrow>
       take limit (sort_key (\<lambda>y. - d_updatedAt y)
         (filter (\<lambda>y. d_id y \<noteq> i \<and> d_status y \<noteq> Deleted \<and> d_workspaceId y = d_workspaceId x
            \<and> (d_tags x = [] \<or> set (d_tags y) \<inter> set (d_tags x) \<noteq> {})) (docs d))))"

section \<open>Permissions and members\<close>

definition perm_find :: "string \<Rightarrow> string \<Rightarrow> db \<Rightarrow> perm option" where
  "perm_find i u d = find (\<lambda>p. p_documentId p = i \<and> p_userId p = u) (perms d)"

definition perm_list :: "string \<Rightarrow> db \<Rightarrow> perm list" where
  "perm_list i d = filter (\<lambda>p. p_documentId p = i) (perms d)"

definition perm_upsert :: "string \<Rightarrow> string \<Rightarrow> string \<Rightarrow> db \<Rightarrow> db" where
  "perm_upsert i u role d = d\<lparr>perms :=
     upsert_row (\<lambda>p. p_documentId p = i \<and> p_userId p = u) (\<lambda>p. p\<lparr>p_role := role\<rparr>)
       \<lparr>p_documentId = i, p_userId = u, p_role = role\<rparr> (perms d)\<rparr>"

definition perm_remove :: "string \<Rightarrow> string \<Rightarrow> db \<Rightarrow> db" where
  "perm_remove i u d = d\<lparr>perms := delete_row (\<lambda>p. p_documentId p = i \<and> p_userId p = u) (perms d)\<rparr>"

definition perm_listByUser :: "string \<Rightarrow> db \<Rightarrow> perm list" where
  "perm_listByUser u d = filter (\<lambda>p. p_userId p = u) (perms d)"

definition findRole :: "string \<Rightarrow> string \<Rightarrow> db \<Rightarrow> member option" where
  "findRole w u d = find (\<lambda>m. m_workspaceId m = w \<and> m_userId m = u) (members d)"

definition listMembers :: "string \<Rightarrow> db \<Rightarrow> member list" where
  "listMembers w d = filter (\<lambda>m. m_workspaceId m = w) (members d)"

definition member_upsert :: "string \<Rightarrow> string \<Rightarrow> string \<Rightarrow> db \<Rightarrow> db" where
  "member_upsert w u role d = d\<lparr>members :=
     upsert_row (\<lambda>m. m_workspaceId m = w \<and> m_userId m = u) (\<lambda>m. m\<lparr>m_role := role\<rparr>)
       \<lparr>m_workspaceId = w, m_userId = u, m_role = role\<rparr> (members d)\<rparr>"

definition member_remove :: "string \<Rightarrow> string \<Rightarrow> db \<Rightarrow> db" where
  "member_remove w u d = d\<lparr>members := delete_row (\<lambda>m. m_workspaceId m = w \<and> m_userId m = u) (members d)\<rparr>"

definition member_listByUser :: "string \<Rightarrow> db \<Rightarrow> member list" where
  "member_listByUser u d = filter (\<lambda>m. m_userId m = u) (members d)"

section \<open>Content, updates, snapshots\<close>

definition findByDocumentId :: "string \<Rightarrow> db \<Rightarrow> content option" where
  "findByDocumentId i d = find (\<lambda>c. c_documentId c = i) (contents d)"

definition upsertState :: "string \<Rightarrow> bytes \<Rightarrow> bytes \<Rightarrow> string option \<Rightarrow> db \<Rightarrow> db" where
  "upsertState i state vector checksum d = d\<lparr>contents :=
     upsert_row (\<lambda>c. c_documentId c = i)
       (\<lambda>c. c\<lparr>c_state := state, c_vector := vector, c_checksum := checksum\<rparr>)
       \<lparr>c_documentId = i, c_state = state, c_vector = vector, c_checksum = checksum\<rparr> (contents d)\<rparr>"

definition deleteByDocumentIds :: "string list \<Rightarrow> db \<Rightarrow> db" where
  "deleteByDocumentIds is d = d\<lparr>contents := filter (\<lambda>c. c_documentId c \<notin> set is) (contents d)\<rparr>"

text \<open>The index on document and sequence number is unique: a second row with both equal is refused.\<close>

definition update_append :: "string \<Rightarrow> int \<Rightarrow> bytes \<Rightarrow> int \<Rightarrow> db \<Rightarrow> db option" where
  "update_append i seq u sizeBytes d =
     (if \<exists>x \<in> set (updates d). u_documentId x = i \<and> u_seq x = seq then None
      else Some (d\<lparr>updates := updates d @
        [\<lparr>u_documentId = i, u_seq = seq, u_update = u, u_sizeBytes = sizeBytes\<rparr>]\<rparr>))"

definition countByDocument :: "string \<Rightarrow> db \<Rightarrow> int" where
  "countByDocument i d = int (length (filter (\<lambda>x. u_documentId x = i) (updates d)))"

definition latestSeq :: "string \<Rightarrow> db \<Rightarrow> int" where
  "latestSeq i d =
     (case sort_key (\<lambda>x. - u_seq x) (filter (\<lambda>x. u_documentId x = i) (updates d)) of
        [] \<Rightarrow> 0 | x # _ \<Rightarrow> u_seq x)"

definition compactUpTo :: "string \<Rightarrow> int \<Rightarrow> db \<Rightarrow> db" where
  "compactUpTo i seqInclusive d =
     d\<lparr>updates := filter (\<lambda>x. \<not> (u_documentId x = i \<and> u_seq x \<le> seqInclusive)) (updates d)\<rparr>"

definition listAsc :: "string \<Rightarrow> int \<Rightarrow> nat \<Rightarrow> db \<Rightarrow> upd list" where
  "listAsc i afterSeq limit d =
     take limit (sort_key u_seq (filter (\<lambda>x. u_documentId x = i \<and> u_seq x > afterSeq) (updates d)))"

definition hotDocuments :: "int \<Rightarrow> nat \<Rightarrow> db \<Rightarrow> (string \<times> int) list" where
  "hotDocuments minLatestSeq limit d =
     take limit (sort_key (\<lambda>r. - snd r)
       (filter (\<lambda>r. snd r > minLatestSeq)
         (map (\<lambda>i. (i, Max (set (map u_seq (filter (\<lambda>x. u_documentId x = i) (updates d))))))
            (js_set (map u_documentId (updates d))))))"

definition snap_create ::
  "int \<Rightarrow> string \<Rightarrow> int \<Rightarrow> bytes \<Rightarrow> bytes \<Rightarrow> string option \<Rightarrow> db \<Rightarrow> snap \<times> db" where
  "snap_create now i seq state vector checksum d =
     (let x = \<lparr>s_id = fresh_id d, s_documentId = i, s_seq = seq, s_state = state, s_vector = vector,
               s_checksum = checksum, s_label = '''', s_description = '''', s_tags = [], s_category = '''',
               s_isMilestone = False, s_createdBy = None, s_createdReason = ''auto'', s_createdAt = now\<rparr>
      in (x, d\<lparr>snaps := snaps d @ [x], next_id := next_id d + 1\<rparr>))"

definition snap_list :: "string \<Rightarrow> nat \<Rightarrow> db \<Rightarrow> snap list" where
  "snap_list i limit d = take limit (sort_key (\<lambda>x. - s_seq x) (filter (\<lambda>x. s_documentId x = i) (snaps d)))"

definition snap_findById :: "string \<Rightarrow> db \<Rightarrow> snap option" where
  "snap_findById i d = find (\<lambda>x. s_id x = i) (snaps d)"

definition snap_updateMeta :: "string \<Rightarrow> (snap \<Rightarrow> snap) \<Rightarrow> db \<Rightarrow> snap option \<times> db" where
  "snap_updateMeta i f d =
     (let d' = d\<lparr>snaps := update_row (\<lambda>x. s_id x = i) (\<lambda>x. (f x)\<lparr>s_id := s_id x\<rparr>) (snaps d)\<rparr>
      in (snap_findById i d', d'))"

definition latestByDocument :: "string \<Rightarrow> db \<Rightarrow> snap option" where
  "latestByDocument i d = (case snap_list i 1 d of [] \<Rightarrow> None | x # _ \<Rightarrow> Some x)"

section \<open>Users and workspaces\<close>

definition user_findByEmail :: "string \<Rightarrow> db \<Rightarrow> user option" where
  "user_findByEmail e d = find (\<lambda>u. us_email u = e) (users d)"

definition user_findById :: "string \<Rightarrow> db \<Rightarrow> user option" where
  "user_findById i d = find (\<lambda>u. us_id u = i) (users d)"

definition user_updateById :: "string \<Rightarrow> (user \<Rightarrow> user) \<Rightarrow> db \<Rightarrow> user option \<times> db" where
  "user_updateById i f d =
     (let d' = d\<lparr>users := update_row (\<lambda>u. us_id u = i) (\<lambda>u. (f u)\<lparr>us_id := us_id u\<rparr>) (users d)\<rparr>
      in (user_findById i d', d'))"

text \<open>The index on the address is unique.\<close>

definition user_create :: "string \<Rightarrow> string \<Rightarrow> string option \<Rightarrow> db \<Rightarrow> (user \<times> db) option" where
  "user_create email hash name d =
     (let e = to_lower (js_trim email);
          u = \<lparr>us_id = fresh_id d, us_email = e, us_passwordHash = hash, us_name = name, us_emailVerifiedAt = None\<rparr>
      in if \<exists>x \<in> set (users d). us_email x = e then None
         else Some (u, d\<lparr>users := users d @ [u], next_id := next_id d + 1\<rparr>))"

definition workspace_findById :: "string \<Rightarrow> db \<Rightarrow> workspace option" where
  "workspace_findById i d = find (\<lambda>w. w_id w = i) (workspaces d)"

definition workspace_listByOwner :: "string \<Rightarrow> db \<Rightarrow> workspace list" where
  "workspace_listByOwner u d = rev (filter (\<lambda>w. w_ownerId w = u) (workspaces d))"

text \<open>The index on the slug is unique; the schema stores it in lower case.\<close>

definition workspace_create :: "string \<Rightarrow> string \<Rightarrow> string \<Rightarrow> db \<Rightarrow> (workspace \<times> db) option" where
  "workspace_create name slug owner d =
     (let w = \<lparr>w_id = fresh_id d, w_name = name, w_slug = to_lower slug, w_ownerId = owner,
               w_description = None, w_maxDocuments = 0, w_defaultRole = None\<rparr>
      in if \<exists>x \<in> set (workspaces d). w_slug x = to_lower slug then None
         else Some (w, d\<lparr>workspaces := workspaces d @ [w], next_id := next_id d + 1\<rparr>))"

definition workspace_update :: "string \<Rightarrow> (workspace \<Rightarrow> workspace) \<Rightarrow> db \<Rightarrow> workspace option \<times> db" where
  "workspace_update i f d =
     (let d' = d\<lparr>workspaces := update_row (\<lambda>w. w_id w = i) (\<lambda>w. (f w)\<lparr>w_id := w_id w\<rparr>) (workspaces d)\<rparr>
      in (workspace_findById i d', d'))"

end
