(* ===== verification/Base64.thy ===== *)
theory Base64
  imports Prelude
begin

text \<open>
  \<open>Buffer.toString('base64')\<close> and \<open>Buffer.from(s, 'base64')\<close>, and of the browser \<open>btoa\<close> and
  \<open>atob\<close>, over lists of 8-bit words. The decoder is Node's: it reads up to the first \<open>=\<close>, skips
  characters outside the alphabet and takes \<open>-\<close> and \<open>_\<close> for \<open>+\<close> and \<open>/\<close>.
\<close>

section \<open>The alphabet\<close>

definition b64_alphabet :: string where
  "b64_alphabet = ''ABCDEFGHIJKLMNOPQRSTUVWXYZabcdefghijklmnopqrstuvwxyz0123456789+/''"

definition b64_char :: "nat \<Rightarrow> char" where
  "b64_char n = b64_alphabet ! n"

definition b64_val :: "char \<Rightarrow> nat option" where
  "b64_val c =
     (if c = CHR ''-'' then Some 62 else if c = CHR ''_'' then Some 63
      else map_of (zip b64_alphabet [0..<64]) c)"

lemma b64_val_char: "n < 64 \<Longrightarrow> b64_val (b64_char n) = Some n"
proof -
  have "\<forall>n \<in> set [0..<64]. b64_val (b64_char n) = Some n" by code_simp
  then show "n < 64 \<Longrightarrow> b64_val (b64_char n) = Some n" by simp
qed

lemma b64_char_not_pad: "n < 64 \<Longrightarrow> b64_char n \<noteq> CHR ''=''"
proof -
  have "\<forall>n \<in> set [0..<64]. b64_char n \<noteq> CHR ''=''" by code_simp
  then show "n < 64 \<Longrightarrow> b64_char n \<noteq> CHR ''=''" by simp
qed

section \<open>Groups of three bytes\<close>

fun sextets :: "nat list \<Rightarrow> nat list" where
  "sextets [] = []"
| "sextets [a] = [a div 4, a mod 4 * 16]"
| "sextets [a, b] = [a div 4, a mod 4 * 16 + b div 16, b mod 16 * 4]"
| "sextets (a # b # c # r) =
     [a div 4, a mod 4 * 16 + b div 16, b mod 16 * 4 + c div 64, c mod 64] @ sextets r"

fun octets :: "nat list \<Rightarrow> nat list" where
  "octets [] = []"
| "octets [p] = []"
| "octets [p, q] = [p * 4 + q div 16]"
| "octets [p, q, r] = [p * 4 + q div 16, q mod 16 * 16 + r div 4]"
| "octets (p # q # r # t # u) =
     [p * 4 + q div 16, q mod 16 * 16 + r div 4, r mod 4 * 64 + t] @ octets u"

lemma sextets_bound: "\<forall>a \<in> set xs. a < 256 \<Longrightarrow> \<forall>s \<in> set (sextets xs). s < 64"
  by (induction xs rule: sextets.induct) (auto simp: div_less_iff_less_mult; linarith?)+

lemma byte_parts:
  assumes "b < (256 :: nat)"
  shows "b div 16 div 16 = 0" "b div 16 mod 16 = b div 16" "b div 64 div 4 = 0" "b div 64 mod 4 = b div 64"
proof -
  have "b div 16 < 16" "b div 64 < 4" using assms by simp_all
  then show "b div 16 div 16 = 0" "b div 16 mod 16 = b div 16" "b div 64 div 4 = 0" "b div 64 mod 4 = b div 64"
    by simp_all
qed

lemma octets_sextets: "\<forall>a \<in> set xs. a < 256 \<Longrightarrow> octets (sextets xs) = xs"
  by (induction xs rule: sextets.induct) (simp_all add: byte_parts)

lemma byte_bound: "a \<in> set (map unat (bs :: 8 word list)) \<Longrightarrow> a < 256"
proof -
  have "unat (w :: 8 word) < 256" for w using unsigned_less [of w] by simp
  then show "a \<in> set (map unat bs) \<Longrightarrow> a < 256" by auto
qed

section \<open>Text\<close>

definition pad_len :: "nat \<Rightarrow> nat" where
  "pad_len n = (if n mod 3 = 0 then 0 else 3 - n mod 3)"

definition b64_encode :: "8 word list \<Rightarrow> string" where
  "b64_encode bs =
     map b64_char (sextets (map unat bs)) @ replicate (pad_len (length bs)) (CHR ''='')"

definition b64_decode :: "string \<Rightarrow> 8 word list" where
  "b64_decode s =
     map word_of_nat (octets (List.map_filter b64_val (takeWhile (\<lambda>c. c \<noteq> CHR ''='') s)))"

lemma vals_of_chars: "\<forall>n \<in> set ns. n < 64 \<Longrightarrow> List.map_filter b64_val (map b64_char ns) = ns"
  by (induction ns) (simp_all add: List.map_filter_simps b64_val_char)

text \<open>Decoding gives back what was encoded.\<close>

lemma b64_roundtrip [simp]: "b64_decode (b64_encode bs) = bs"
proof -
  let ?xs = "map unat bs"
  have b: "\<forall>a \<in> set ?xs. a < 256"
    using byte_bound by blast
  have s: "\<forall>n \<in> set (sextets ?xs). n < 64" by (rule sextets_bound [OF b])
  have "takeWhile (\<lambda>c. c \<noteq> CHR ''='') (b64_encode bs) = map b64_char (sextets ?xs)"
    using s b64_char_not_pad
    by (cases "pad_len (length bs)") (auto simp: b64_encode_def takeWhile_append2 takeWhile_tail)
  moreover have "List.map_filter b64_val (map b64_char (sextets ?xs)) = sextets ?xs"
    using s by (rule vals_of_chars)
  ultimately have "b64_decode (b64_encode bs) = map word_of_nat (octets (sextets ?xs))"
    by (simp add: b64_decode_def)
  then show ?thesis by (simp add: octets_sextets [OF b] o_def)
qed

lemma b64_encode_inj [simp]: "b64_encode x = b64_encode y \<longleftrightarrow> x = y"
  by (metis b64_roundtrip)

text \<open>The characters an encoder uses: none that ends or separates a field.\<close>

lemma b64_encode_chars: "c \<in> set (b64_encode bs) \<Longrightarrow> c = CHR ''='' \<or> c \<in> set b64_alphabet"
proof -
  have b: "\<forall>a \<in> set (map unat bs). a < 256"
    using byte_bound by blast
  have l: "length b64_alphabet = 64" by (simp add: b64_alphabet_def)
  assume "c \<in> set (b64_encode bs)"
  then show ?thesis
    using sextets_bound [OF b] l by (auto simp: b64_encode_def b64_char_def)
qed

lemma b64_encode_Nil [simp]: "b64_encode [] = []" "b64_encode bs = [] \<longleftrightarrow> bs = []"
proof -
  show "b64_encode [] = []" by (simp add: b64_encode_def pad_len_def)
  then show "b64_encode bs = [] \<longleftrightarrow> bs = []" by (metis b64_encode_inj)
qed

end
