(* ===== verification/Yjs.thy ===== *)
theory Yjs
  imports Store Base64
begin

text \<open>
  The libraries the document state is built with, as an argument \<open>L\<close> of the definitions that use
  them: Yjs (\<open>new Y.Doc\<close>, \<open>applyUpdate\<close>, \<open>encodeStateAsUpdate\<close>, \<open>encodeStateVector\<close>,
  \<open>mergeUpdates\<close>), \<open>zlib\<close> and SHA-256. \<open>yjs_laws\<close> is what the Yjs documentation promises: applying
  updates is commutative, associative and idempotent, and an encoded state is an update that gives
  the state; \<open>zip_laws\<close> that \<open>gunzip\<close> inverts \<open>gzip\<close>. A throwing call is \<open>None\<close>. The type of documents
  is taken up to what their encoding shows. \<open>byte_lib\<close> is an instance: documents are sets of bytes.
\<close>

record 'y ylib =
  y_empty :: 'y
  y_apply :: "'y \<Rightarrow> bytes \<Rightarrow> 'y option"
  y_encode :: "'y \<Rightarrow> bytes"
  y_vector :: "'y \<Rightarrow> bytes"
  y_diff :: "'y \<Rightarrow> bytes \<Rightarrow> bytes option"
  y_merge :: "bytes list \<Rightarrow> bytes option"
  gzip :: "bytes \<Rightarrow> bytes"
  gunzip :: "bytes \<Rightarrow> bytes option"
  sha256 :: "bytes \<Rightarrow> string"

definition yjs_laws :: "'y ylib \<Rightarrow> ('y \<Rightarrow> 'y \<Rightarrow> 'y) \<Rightarrow> (bytes \<Rightarrow> 'y option) \<Rightarrow> bool" where
  "yjs_laws L join dec \<longleftrightarrow>
     (\<forall>y u. y_apply L y u = map_option (join y) (dec u))
     \<and> (\<forall>y. dec (y_encode L y) = Some y)
     \<and> (\<forall>x y z. join (join x y) z = join x (join y z))
     \<and> (\<forall>x y. join x y = join y x)
     \<and> (\<forall>x. join x x = x)
     \<and> (\<forall>x. join (y_empty L) x = x)
     \<and> (\<forall>us. us \<noteq> [] \<longrightarrow> (\<forall>u \<in> set us. dec u \<noteq> None) \<longrightarrow>
          (\<exists>m. y_merge L us = Some m
             \<and> dec m = Some (fold (\<lambda>u y. join y (the (dec u))) us (y_empty L))))"

definition zip_laws :: "'y ylib \<Rightarrow> bool" where
  "zip_laws L \<longleftrightarrow> (\<forall>x. gunzip L (gzip L x) = Some x)"

section \<open>Consequences\<close>

lemma yjs_apply: "yjs_laws L join dec \<Longrightarrow> y_apply L y u = map_option (join y) (dec u)"
  by (simp add: yjs_laws_def)

lemma yjs_dec_encode: "yjs_laws L join dec \<Longrightarrow> dec (y_encode L y) = Some y"
  by (simp add: yjs_laws_def)

lemma yjs_ac:
  assumes "yjs_laws L join dec"
  shows "join (join x y) z = join x (join y z)" "join x y = join y x" "join x (join y z) = join y (join x z)"
    "join x x = x" "join x (join x y) = join x y" "join (y_empty L) x = x" "join x (y_empty L) = x"
  using assms unfolding yjs_laws_def by metis+

text \<open>Applying updates one after the other; the ones that do not decode throw and are skipped.\<close>

definition joined :: "('y \<Rightarrow> 'y \<Rightarrow> 'y) \<Rightarrow> (bytes \<Rightarrow> 'y option) \<Rightarrow> bytes list \<Rightarrow> 'y \<Rightarrow> 'y" where
  "joined join dec us y = fold (\<lambda>u y. case dec u of Some v \<Rightarrow> join y v | None \<Rightarrow> y) us y"

lemma joined_simps [simp]:
  "joined join dec [] y = y"
  "joined join dec (u # us) y = joined join dec us (case dec u of Some v \<Rightarrow> join y v | None \<Rightarrow> y)"
  "joined join dec (us @ vs) y = joined join dec vs (joined join dec us y)"
  by (simp_all add: joined_def)

lemma joined_join:
  assumes "yjs_laws L join dec"
  shows "joined join dec us (join y v) = join (joined join dec us y) v"
proof (induction us arbitrary: y)
  case (Cons u us)
  have "join (join y v) w = join (join y w) v" for w using yjs_ac [OF assms] by metis
  with Cons show ?case by (cases "dec u") simp_all
qed simp

text \<open>The order of updates, and repeating some of them, makes no difference.\<close>

lemma joined_absorb:
  assumes "yjs_laws L join dec" and "u \<in> set us" and "dec u = Some v"
  shows "join (joined join dec us y) v = joined join dec us y"
  using assms(2)
proof (induction us arbitrary: y)
  case (Cons w us)
  then show ?case
  proof (cases "u = w")
    case True
    then have "joined join dec (w # us) y = join (joined join dec us y) v"
      using assms(3) by (simp add: joined_join [OF assms(1)])
    then show ?thesis using yjs_ac [OF assms(1)] by metis
  qed simp
qed simp

lemma joined_subset:
  assumes "yjs_laws L join dec" and "set us \<subseteq> set vs"
  shows "joined join dec us (joined join dec vs y) = joined join dec vs y"
  using assms(2)
proof (induction us)
  case (Cons u us)
  then have "(case dec u of Some v \<Rightarrow> join (joined join dec vs y) v | None \<Rightarrow> joined join dec vs y)
      = joined join dec vs y"
    using joined_absorb [OF assms(1)] by (auto split: option.split)
  with Cons show ?case by simp
qed simp

lemma joined_commute:
  assumes "yjs_laws L join dec"
  shows "joined join dec us (joined join dec vs y) = joined join dec vs (joined join dec us y)"
proof (induction us arbitrary: y)
  case (Cons u us)
  then show ?case by (cases "dec u") (simp_all add: joined_join [OF assms])
qed simp

lemma joined_set:
  assumes "yjs_laws L join dec" and "set us = set vs"
  shows "joined join dec us y = joined join dec vs y"
  using joined_subset [OF assms(1), of us vs] joined_subset [OF assms(1), of vs us]
    joined_commute [OF assms(1)] assms(2)
  by (metis order_refl)

lemma merge_joined:
  assumes "yjs_laws L join dec" and "us \<noteq> []" and "\<forall>u \<in> set us. dec u \<noteq> None"
  shows "\<exists>m. y_merge L us = Some m \<and> dec m = Some (joined join dec us (y_empty L))"
proof -
  have f: "fold (\<lambda>u y. join y (the (dec u))) us y = joined join dec us y" for y
    using assms(3) by (induction us arbitrary: y) auto
  have "\<forall>us. us \<noteq> [] \<longrightarrow> (\<forall>u \<in> set us. dec u \<noteq> None) \<longrightarrow>
      (\<exists>m. y_merge L us = Some m \<and> dec m = Some (fold (\<lambda>u y. join y (the (dec u))) us (y_empty L)))"
    using assms(1) unfolding yjs_laws_def by blast
  with assms(2,3) have "\<exists>m. y_merge L us = Some m
      \<and> dec m = Some (fold (\<lambda>u y. join y (the (dec u))) us (y_empty L))" by blast
  then show ?thesis by (simp only: f)
qed

section \<open>An instance\<close>

definition byte_lib :: "8 word set ylib" where
  "byte_lib = \<lparr>
     y_empty = {}, y_apply = (\<lambda>y u. Some (y \<union> set u)),
     y_encode = sorted_list_of_set, y_vector = sorted_list_of_set,
     y_diff = (\<lambda>y v. Some (sorted_list_of_set (y - set v))), y_merge = (\<lambda>us. Some (concat us)),
     gzip = (\<lambda>x. 31 # x),
     gunzip = (\<lambda>x. case x of [] \<Rightarrow> None | a # r \<Rightarrow> if a = 31 then Some r else None),
     sha256 = (\<lambda>x. map (\<lambda>w. char_of (unat w)) x)\<rparr>"

lemma byte_lib_laws [simp]: "yjs_laws byte_lib (\<union>) (\<lambda>u. Some (set u))" "zip_laws byte_lib"
proof -
  have "fold (\<lambda>u y. y \<union> set u) us A = A \<union> set (concat us)" for us and A :: "8 word set"
    by (induction us arbitrary: A) auto
  then show "yjs_laws byte_lib (\<union>) (\<lambda>u. Some (set u))"
    by (auto simp: yjs_laws_def byte_lib_def)
  show "zip_laws byte_lib" by (simp add: zip_laws_def byte_lib_def)
qed

end
