(* ===== verification/Window.thy ===== *)
theory Window
  imports Keyspace
begin

text \<open>
  The contract of a fixed-window counter, stated once for all the rate limits of the system: a
  counter at one key, created with value 1 and an expiry when it does not exist, incremented
  otherwise, and a decision that compares its value with a limit. The clients' lemmas say what
  such a counter admits over a run of calls with arbitrary delays between them.
\<close>

text \<open>Calls after the given delays; the decisions in order.\<close>

fun window_run :: "(redis \<Rightarrow> bool \<times> redis) \<Rightarrow> int list \<Rightarrow> redis \<Rightarrow> bool list \<times> redis" where
  "window_run admit [] s = ([], s)"
| "window_run admit (d # ds) s =
     (let (b, s1) = admit (tick d s); (bs, s2) = window_run admit ds s1 in (b # bs, s2))"

lemma upt_0_Suc: "[0..<Suc n] = 0 # map Suc [0..<n]"
  unfolding map_Suc_upt by (subst upt_conv_Cons) simp_all

lemma shift_run:
  assumes "b = P 0" and "bs = map (\<lambda>i. P (Suc i)) [0..<length ds]"
  shows "b # bs = map P [0..<length (d # ds)]"
proof -
  have "[0..<Suc (length ds)] = 0 # map Suc [0..<length ds]"
    by (rule upt_0_Suc)
  with assms show ?thesis by (simp add: o_def del: upt_Suc)
qed

lemma filter_below_limit: "filter (\<lambda>i. int i < limit) [0..<n] = [0..<min n (nat limit)]"
proof (induction n)
  case (Suc n)
  show ?case
  proof (cases "int n < limit")
    case True
    then have "min (Suc n) (nat limit) = Suc n" "min n (nat limit) = n" by linarith+
    with True Suc show ?thesis by (simp only: upt_Suc filter_append) simp
  next
    case False
    then have "min (Suc n) (nat limit) = min n (nat limit)" by simp
    with False Suc show ?thesis by (simp only: upt_Suc filter_append) simp
  qed
qed simp

locale fixed_window =
  fixes admit :: "redis \<Rightarrow> bool \<times> redis"
    and key :: string
    and limit :: int
    and window :: int
  assumes window_pos: "0 < window"
    and admit_fresh: "entry s key = None \<Longrightarrow>
      fst (admit s) = (1 \<le> limit)
      \<and> entry (snd (admit s)) key = Some (RText (Num 1), Some (clock s + 1000 * window))"
    and admit_next: "entry s key = Some (RText (Num n), e) \<Longrightarrow> 1 \<le> n \<Longrightarrow>
      fst (admit s) = (n + 1 \<le> limit)
      \<and> entry (snd (admit s)) key = Some (RText (Num (n + 1)), e)"
    and admit_clock: "clock (snd (admit s)) = clock s"
begin

lemma run_within:
  assumes "entry s key = Some (RText (Num n), Some t)" and "1 \<le> n"
    and "\<forall>d \<in> set ds. 0 \<le> d" and "clock s + sum_list ds < t"
  shows "fst (window_run admit ds s) = map (\<lambda>i. n + int i < limit) [0..<length ds]"
  using assms
proof (induction ds arbitrary: s n)
  case Nil
  then show ?case by simp
next
  case (Cons d ds)
  obtain b s1 where ad: "admit (tick d s) = (b, s1)" by (cases "admit (tick d s)")
  have "0 \<le> sum_list ds" using Cons.prems(3) by (intro sum_list_nonneg) auto
  with Cons.prems have e: "entry (tick d s) key = Some (RText (Num n), Some t)"
    by (simp add: entry_tick)
  from admit_next [OF e Cons.prems(2)] ad
  have b: "b = (n + 1 \<le> limit)" and e1: "entry s1 key = Some (RText (Num (n + 1)), Some t)"
    by simp_all
  have c: "clock s1 = clock s + d" using admit_clock [of "tick d s"] ad by simp
  have "fst (window_run admit ds s1) = map (\<lambda>i. (n + 1) + int i < limit) [0..<length ds]"
    using Cons.prems by (intro Cons.IH) (simp_all add: e1 c)
  moreover obtain bs s2 where r: "window_run admit ds s1 = (bs, s2)"
    by (cases "window_run admit ds s1")
  ultimately have bs: "bs = map (\<lambda>i. n + int (Suc i) < limit) [0..<length ds]"
    by (simp add: algebra_simps)
  have "fst (window_run admit (d # ds) s) = b # bs" by (simp add: ad r)
  also have "\<dots> = map (\<lambda>i. n + int i < limit) [0..<length (d # ds)]"
    by (rule shift_run) (simp_all add: b bs add1_zle_eq)
  finally show ?case .
qed

text \<open>A window admits exactly its first \<open>limit\<close> calls, whatever the delays inside it.\<close>

lemma run_fresh:
  assumes "entry s key = None" and "0 \<le> d" and "\<forall>x \<in> set ds. 0 \<le> x"
    and "sum_list ds < 1000 * window"
  shows "fst (window_run admit (d # ds) s) = map (\<lambda>i. int i < limit) [0..<Suc (length ds)]"
proof -
  obtain b s1 where ad: "admit (tick d s) = (b, s1)" by (cases "admit (tick d s)")
  have n: "entry (tick d s) key = None" using assms by (simp add: entry_tick_None)
  from admit_fresh [OF n] ad have b: "b = (1 \<le> limit)"
    and e: "entry s1 key = Some (RText (Num 1), Some (clock s + d + 1000 * window))"
    by (simp_all add: ac_simps)
  have "clock s1 = clock s + d" using admit_clock [of "tick d s"] ad by simp
  then have "fst (window_run admit ds s1) = map (\<lambda>i. 1 + int i < limit) [0..<length ds]"
    using assms by (intro run_within [OF e]) simp_all
  moreover obtain bs s2 where r: "window_run admit ds s1 = (bs, s2)"
    by (cases "window_run admit ds s1")
  ultimately have bs: "bs = map (\<lambda>i. int (Suc i) < limit) [0..<length ds]"
    by (simp add: algebra_simps)
  have "fst (window_run admit (d # ds) s) = b # bs" by (simp add: ad r)
  also have "\<dots> = map (\<lambda>i. int i < limit) [0..<length (d # ds)]"
    by (rule shift_run) (use b bs in auto)
  finally show ?thesis by simp
qed

lemma run_admits_at_most:
  assumes "entry s key = None" and "0 \<le> d" and "\<forall>x \<in> set ds. 0 \<le> x"
    and "sum_list ds < 1000 * window"
  shows "int (length (filter id (fst (window_run admit (d # ds) s)))) \<le> max 0 limit"
proof -
  have "length (filter id (fst (window_run admit (d # ds) s)))
        = length (filter (\<lambda>i. int i < limit) [0..<Suc (length ds)])"
    unfolding run_fresh [OF assms] by (simp add: filter_map o_def del: upt_Suc)
  then show ?thesis by (simp add: filter_below_limit del: upt_Suc filter.simps)
qed

text \<open>The counter counts the calls of its window.\<close>

lemma run_count:
  assumes "entry s key = Some (RText (Num n), Some t)" and "1 \<le> n"
    and "\<forall>d \<in> set ds. 0 \<le> d" and "clock s + sum_list ds < t"
  shows "entry (snd (window_run admit ds s)) key = Some (RText (Num (n + int (length ds))), Some t)
    \<and> clock (snd (window_run admit ds s)) = clock s + sum_list ds"
  using assms
proof (induction ds arbitrary: s n)
  case Nil
  then show ?case by simp
next
  case (Cons d ds)
  obtain b s1 where ad: "admit (tick d s) = (b, s1)" by (cases "admit (tick d s)")
  have "0 \<le> sum_list ds" using Cons.prems(3) by (intro sum_list_nonneg) auto
  with Cons.prems have e: "entry (tick d s) key = Some (RText (Num n), Some t)"
    by (simp add: entry_tick)
  from admit_next [OF e Cons.prems(2)] ad
  have e1: "entry s1 key = Some (RText (Num (n + 1)), Some t)" by simp
  have c: "clock s1 = clock s + d" using admit_clock [of "tick d s"] ad by simp
  have "entry (snd (window_run admit ds s1)) key = Some (RText (Num (n + 1 + int (length ds))), Some t)
    \<and> clock (snd (window_run admit ds s1)) = clock s1 + sum_list ds"
    using Cons.prems by (intro Cons.IH) (simp_all add: e1 c)
  then show ?case
    by (cases "window_run admit ds s1") (simp add: ad c algebra_simps)
qed

text \<open>When the window's time is over, the next call starts a new window.\<close>

lemma renew:
  assumes "entry s key = Some (RText (Num n), Some t)" and "0 \<le> d" and "t \<le> clock s + d"
  shows "fst (admit (tick d s)) = (1 \<le> limit)"
proof -
  have "entry (tick d s) key = None" using assms by (simp add: entry_tick)
  then show ?thesis using admit_fresh by blast
qed

end

end
