(* ===== verification/SecurityLog.thy ===== *)
theory SecurityLog
  imports Window
begin

text \<open>
  \<open>SecurityLogger\<close> (\<open>api/src/common/security-logger.service.ts\<close>): the bounded audit log, the
  alerts, and the automatic block of an address after repeated login failures. The time stamp of
  an entry is the clock's number where the source prints it as an ISO date; \<open>console.log\<close> has no
  effect on the state. The other components call \<open>sec_log\<close>; \<open>log_key\<close> bounds the keys it may
  change.
\<close>

section \<open>The logger\<close>

definition isAlertEvent :: "string \<Rightarrow> bool" where
  "isAlertEvent event \<longleftrightarrow>
     starts_with event ''abuse.''
     \<or> has_sub event ''lockout''
     \<or> has_sub event ''bot''
     \<or> has_sub event ''captcha''"

definition attack_key :: "string \<Rightarrow> string \<Rightarrow> string" where
  "attack_key email ip = tmpl ''attack:login:'' (email @ '':'' @ ip)"

definition block_key :: "string \<Rightarrow> string" where
  "block_key ip = tmpl ''block:ip:'' ip"

definition audit_entry :: "redis \<Rightarrow> string \<Rightarrow> (string \<times> json) list \<Rightarrow> json" where
  "audit_entry s event details = JObj ([(''ts'', JNum (clock s)), (''event'', JStr event)] @ details)"

definition log_append :: "env \<Rightarrow> json \<Rightarrow> redis \<Rightarrow> redis" where
  "log_append E e s =
     r_ltrim ''audit-log'' (nat (max 0 (audit_log_max E - 1)) + 1) (r_lpush ''audit-log'' (Js e) s)"

definition log_alert :: "json \<Rightarrow> redis \<Rightarrow> redis" where
  "log_alert e s =
     r_ltrim ''security-alerts-recent'' 1000
       (r_lpush ''security-alerts-recent'' (Js e) (r_publish ''security-alerts'' e s))"

text \<open>The counter of failed logins of one address at one account; the result is its value.\<close>

definition attack_count :: "string \<Rightarrow> string \<Rightarrow> redis \<Rightarrow> int \<times> redis" where
  "attack_count email ip s =
     (let (n, s1) = r_incr (attack_key email ip) s
      in (n, if n = 1 then r_expire (attack_key email ip) 600 s1 else s1))"

definition log_attack :: "env \<Rightarrow> (string \<times> json) list \<Rightarrow> redis \<Rightarrow> redis" where
  "log_attack E details s =
     (let email = js_text (map_of details ''email'');
          ip = js_text (map_of details ''ip'');
          (n, s1) = attack_count email ip s
      in if n > auth_fail_block_threshold E then
           r_publish ''security-alerts''
             (JObj ([(''event'', JStr ''auto.block''), (''reason'', JStr ''auth.failed.threshold'')] @ details))
             (r_setex (block_key ip) (Txt ''1'') 900 s1)
         else s1)"

definition sec_log :: "env \<Rightarrow> string \<Rightarrow> (string \<times> json) list \<Rightarrow> redis \<Rightarrow> redis" where
  "sec_log E event details s =
     (let e = audit_entry s event details;
          s1 = log_append E e s;
          s2 = (if isAlertEvent event then log_alert e s1 else s1)
      in if event = ''auth.login.failed'' then log_attack E details s2 else s2)"

section \<open>What the logger leaves alone\<close>

definition log_key :: "string \<Rightarrow> bool" where
  "log_key k \<longleftrightarrow>
     k = ''audit-log'' \<or> k = ''security-alerts-recent''
     \<or> starts_with k ''attack:login:'' \<or> starts_with k ''block:ip:''"

lemma log_key_prefix [simp]: "log_key (attack_key email ip)" "log_key (block_key ip)"
  by (simp_all add: log_key_def attack_key_def block_key_def)

lemma log_key_lists [simp]: "log_key ''audit-log''" "log_key ''security-alerts-recent''"
  by (simp_all add: log_key_def)

lemma attack_count_entry:
  "k \<noteq> attack_key email ip \<Longrightarrow> entry (snd (attack_count email ip s)) k = entry s k"
  by (simp add: attack_count_def key_simps split: prod.split)
     (metis entry_other(5) entry_other(6) snd_conv)

lemma attack_count_clock [simp]: "clock (snd (attack_count email ip s)) = clock s"
  by (simp add: attack_count_def split: prod.split) (metis clock_cmd(5) clock_cmd(6) snd_conv)

lemma sec_log_clock [simp]: "clock (sec_log E event details s) = clock s"
proof -
  have "clock (log_attack E details s) = clock s" for s
    using attack_count_clock [of "js_text (map_of details ''email'')" "js_text (map_of details ''ip'')" s]
    by (cases "attack_count (js_text (map_of details ''email'')) (js_text (map_of details ''ip'')) s")
      (simp add: log_attack_def Let_def)
  then show ?thesis by (simp add: sec_log_def log_append_def log_alert_def Let_def)
qed

lemma entry_sec_log [frame_simps]:
  assumes "\<not> log_key k"
  shows "entry (sec_log E event details s) k = entry s k"
proof -
  have k: "k \<noteq> ''audit-log''" "k \<noteq> ''security-alerts-recent''"
    using assms by auto
  have ak: "k \<noteq> attack_key e i" and bk: "k \<noteq> block_key i" for e i
    using assms log_key_prefix by blast+
  have "entry (log_attack E details s) k = entry s k" for s
    using attack_count_entry [OF ak, of "js_text (map_of details ''email'')"
        "js_text (map_of details ''ip'')" s] bk
    by (auto simp: log_attack_def Let_def key_simps split: prod.split)
  with k show ?thesis
    by (simp add: sec_log_def log_append_def log_alert_def Let_def key_simps)
qed

section \<open>The attack counter is a fixed window\<close>

text \<open>The decision of \<open>log_attack\<close> on its counter: not yet above the threshold.\<close>

definition attack_tolerated :: "env \<Rightarrow> string \<Rightarrow> string \<Rightarrow> redis \<Rightarrow> bool \<times> redis" where
  "attack_tolerated E email ip s =
     (let (n, s1) = attack_count email ip s in (n \<le> auth_fail_block_threshold E, s1))"

interpretation attack: fixed_window
  "attack_tolerated E email ip" "attack_key email ip" "auth_fail_block_threshold E" 600 for E email ip
proof unfold_locales
  fix s :: redis and n e
  show "entry s (attack_key email ip) = None \<Longrightarrow>
      fst (attack_tolerated E email ip s) = (1 \<le> auth_fail_block_threshold E)
      \<and> entry (snd (attack_tolerated E email ip s)) (attack_key email ip) =
          Some (RText (Num 1), Some (clock s + 1000 * 600))"
    by (simp add: attack_tolerated_def attack_count_def redis_defs key_simps)
  show "entry s (attack_key email ip) = Some (RText (Num n), e) \<Longrightarrow> 1 \<le> n \<Longrightarrow>
      fst (attack_tolerated E email ip s) = (n + 1 \<le> auth_fail_block_threshold E)
      \<and> entry (snd (attack_tolerated E email ip s)) (attack_key email ip) =
          Some (RText (Num (n + 1)), e)"
    by (auto simp: attack_tolerated_def attack_count_def redis_defs key_simps dest: entry_live)
  show "clock (snd (attack_tolerated E email ip s)) = clock s"
    using attack_count_clock [of email ip s]
    by (cases "attack_count email ip s") (simp add: attack_tolerated_def)
qed simp

section \<open>The logs\<close>

lemma log_attack_other:
  "k = ''audit-log'' \<or> k = ''security-alerts-recent'' \<Longrightarrow> entry (log_attack E details s) k = entry s k"
  using attack_count_entry [of k "js_text (map_of details ''email'')"
        "js_text (map_of details ''ip'')" s]
  by (cases "attack_count (js_text (map_of details ''email'')) (js_text (map_of details ''ip'')) s")
    (auto simp: log_attack_def Let_def key_simps attack_key_def block_key_def)

definition audit_max :: "env \<Rightarrow> nat" where
  "audit_max E = nat (max 0 (audit_log_max E - 1)) + 1"

lemma audit_list_sec_log:
  "r_list ''audit-log'' (sec_log E event details s) =
     take (audit_max E) (Js (audit_entry s event details) # r_list ''audit-log'' s)"
proof -
  have "r_list ''audit-log'' (log_alert e s) = r_list ''audit-log'' s" for e s
    by (rule read_other) (simp add: log_alert_def key_simps)
  moreover have "r_list ''audit-log'' (log_attack E details s) = r_list ''audit-log'' s" for s
    by (rule read_other) (simp add: log_attack_other)
  moreover have "r_list ''audit-log'' (log_append E e s) =
      take (audit_max E) (Js e # r_list ''audit-log'' s)" for e
    by (simp only: log_append_def audit_max_def list_ltrim list_lpush)
  ultimately show ?thesis by (simp add: sec_log_def Let_def)
qed

text \<open>A sequence of audited events, with the time between them.\<close>

fun log_run :: "env \<Rightarrow> (int \<times> string \<times> (string \<times> json) list) list \<Rightarrow> redis \<Rightarrow> redis" where
  "log_run E [] s = s"
| "log_run E ((d, ev, details) # evs) s = log_run E evs (sec_log E ev details (tick d s))"

fun entries_of :: "int \<Rightarrow> (int \<times> string \<times> (string \<times> json) list) list \<Rightarrow> rtext list" where
  "entries_of now [] = []"
| "entries_of now ((d, ev, details) # evs) =
     Js (audit_entry (empty_redis (now + d)) ev details) # entries_of (now + d) evs"

lemma audit_list_tick: "r_list ''audit-log'' (tick d s) = r_list ''audit-log'' s"
  if "ttl_of ''audit-log'' s = None" and "0 \<le> d"
  using that by (auto simp: r_list_def entry_tick ttl_of_def split: option.splits)

lemma audit_ttl: "ttl_of ''audit-log'' s = None \<Longrightarrow> ttl_of ''audit-log'' (sec_log E ev details s) = None"
proof -
  assume "ttl_of ''audit-log'' s = None"
  then have "ttl_of ''audit-log'' (log_append E e s) = None" for e
    by (simp add: log_append_def redis_defs key_simps Let_def split: option.splits)
  moreover have "ttl_of ''audit-log'' (log_alert e s) = ttl_of ''audit-log'' s" for e s
    by (simp add: log_alert_def ttl_of_def key_simps)
  moreover have "ttl_of ''audit-log'' (log_attack E details s) = ttl_of ''audit-log'' s" for s
    by (simp add: ttl_of_def log_attack_other)
  ultimately show ?thesis by (simp add: sec_log_def Let_def)
qed

lemma ttl_tick_None:
  "ttl_of k s = None \<Longrightarrow> 0 \<le> d \<Longrightarrow> ttl_of k (tick d s) = None"
  by (auto simp: ttl_of_def entry_tick split: option.splits)

lemma take_take_append: "take n (xs @ take n ys) = take n (xs @ ys)"
  by simp

lemma audit_entry_clock: "clock s = now \<Longrightarrow> audit_entry s = audit_entry (empty_redis now)"
  by (auto simp: audit_entry_def empty_redis_def fun_eq_iff)

lemma log_run_list:
  assumes "ttl_of ''audit-log'' s = None" and "\<forall>(d, ev, details) \<in> set evs. 0 \<le> d"
  shows "take (audit_max E) (r_list ''audit-log'' (log_run E evs s)) =
      take (audit_max E) (rev (entries_of (clock s) evs) @ r_list ''audit-log'' s)
    \<and> (length (r_list ''audit-log'' s) \<le> audit_max E \<or> evs \<noteq> [] \<longrightarrow>
       length (r_list ''audit-log'' (log_run E evs s)) \<le> audit_max E)"
  using assms
proof (induction evs arbitrary: s)
  case Nil
  then show ?case by simp
next
  case (Cons x evs)
  obtain d ev details where x: "x = (d, ev, details)" by (cases x)
  let ?s1 = "sec_log E ev details (tick d s)"
  have d: "0 \<le> d" using Cons.prems(2) x by simp
  have l: "r_list ''audit-log'' ?s1 = take (audit_max E)
      (Js (audit_entry (empty_redis (clock s + d)) ev details) # r_list ''audit-log'' s)"
    using Cons.prems(1) d
    by (simp add: audit_list_sec_log audit_list_tick audit_entry_clock [of "tick d s" "clock s + d"])
  have "ttl_of ''audit-log'' ?s1 = None"
    using Cons.prems(1) d by (intro audit_ttl ttl_tick_None)
  from Cons.IH [OF this] Cons.prems(2) l show ?case
    by (simp add: x take_take_append del: take_append)
qed

text \<open>the audit log holds, newest first, the last events logged and never more than its bound,
  whatever is logged and whenever: it is the last \<open>AUDIT_LOG_MAX\<close> entries (at least one).\<close>

theorem audit_log_keeps_newest:
  assumes "ttl_of ''audit-log'' s = None" and "\<forall>(d, ev, details) \<in> set evs. 0 \<le> d" and "evs \<noteq> []"
  shows "r_list ''audit-log'' (log_run E evs s) =
    take (audit_max E) (rev (entries_of (clock s) evs) @ r_list ''audit-log'' s)"
  using log_run_list [OF assms(1,2), of E] assms(3) by (metis take_all)

lemma audit_log_keeps_newest_witness:
  "r_list ''audit-log'' (log_run (default_env\<lparr>audit_log_max := 2\<rparr>)
      [(0, ''a'', []), (5, ''b'', []), (5, ''c'', [])] (empty_redis 0)) =
    [Js (JObj [(''ts'', JNum 10), (''event'', JStr ''c'')]), Js (JObj [(''ts'', JNum 5), (''event'', JStr ''b'')])]"
  using audit_log_keeps_newest [of "empty_redis 0" "[(0, ''a'', []), (5, ''b'', []), (5, ''c'', [])]"
      "default_env\<lparr>audit_log_max := 2\<rparr>"]
  by (simp add: empty_redis_def ttl_of_def entry_def audit_max_def default_env_def audit_entry_def
      r_list_def)

text \<open>One failed login of address \<open>ip\<close> at account \<open>email\<close>, as \<open>AuthService\<close> reports it.\<close>

definition login_failed :: "env \<Rightarrow> string \<Rightarrow> string \<Rightarrow> redis \<Rightarrow> redis" where
  "login_failed E email ip s =
     sec_log E ''auth.login.failed'' [(''email'', JStr email), (''ip'', JStr ip)] s"

lemma login_failed_eq:
  "login_failed E email ip s =
     (let e = audit_entry s ''auth.login.failed'' [(''email'', JStr email), (''ip'', JStr ip)]
      in log_attack E [(''email'', JStr email), (''ip'', JStr ip)] (log_append E e s))"
  by (simp add: login_failed_def sec_log_def isAlertEvent_def Let_def has_sub_def)

lemma entry_log_append: "k \<noteq> ''audit-log'' \<Longrightarrow> entry (log_append E e s) k = entry s k"
  by (simp add: log_append_def key_simps)

lemma log_append_clock [simp]: "clock (log_append E e s) = clock s"
  by (simp add: log_append_def)

lemma attack_count_cases:
  assumes "attack_count email ip s = (n, s1)"
  shows "n = r_num (attack_key email ip) s + 1"
  using assms
  by (auto simp: attack_count_def redis_defs Let_def split: option.splits rval.splits rtext.splits prod.splits)

lemma keys_differ [simp]:
  "attack_key e i \<noteq> ''audit-log''" "block_key i \<noteq> ''audit-log''" "attack_key e i \<noteq> block_key j"
  "block_key j \<noteq> attack_key e i"
  by (simp_all add: attack_key_def block_key_def)

text \<open>The counter's entry after a failed login, and the block.\<close>

lemma login_failed_entry:
  "entry (login_failed E email ip s) (attack_key email ip) =
     entry (snd (attack_count email ip s)) (attack_key email ip)"
  "entry (login_failed E email ip s) (block_key ip) =
     (if r_num (attack_key email ip) s + 1 > auth_fail_block_threshold E
      then Some (RText (Txt ''1''), Some (clock s + 900000)) else entry s (block_key ip))"
proof -
  let ?e = "audit_entry s ''auth.login.failed'' [(''email'', JStr email), (''ip'', JStr ip)]"
  obtain n s1 where c: "attack_count email ip (log_append E ?e s) = (n, s1)"
    by (cases "attack_count email ip (log_append E ?e s)")
  have n: "n = r_num (attack_key email ip) s + 1"
    using attack_count_cases [OF c] read_other(4) [OF entry_log_append, of "attack_key email ip"]
    by simp
  have e1: "entry s1 (block_key ip) = entry s (block_key ip)" "clock s1 = clock s"
    using attack_count_entry [of "block_key ip" email ip "log_append E ?e s"]
      attack_count_clock [of email ip "log_append E ?e s"] c
    by (simp_all add: entry_log_append)
  have "entry s1 (attack_key email ip) = entry (snd (attack_count email ip s)) (attack_key email ip)"
    using c entry_log_append [of "attack_key email ip" E ?e s]
    by (auto simp: attack_count_def redis_defs key_simps Let_def split: option.splits rval.splits
        rtext.splits prod.splits if_splits)
  with c n e1 show "entry (login_failed E email ip s) (attack_key email ip) =
     entry (snd (attack_count email ip s)) (attack_key email ip)"
    "entry (login_failed E email ip s) (block_key ip) =
     (if r_num (attack_key email ip) s + 1 > auth_fail_block_threshold E
      then Some (RText (Txt ''1''), Some (clock s + 900000)) else entry s (block_key ip))"
    by (simp_all add: login_failed_eq Let_def log_attack_def key_simps)
qed

fun fail_run :: "env \<Rightarrow> string \<Rightarrow> string \<Rightarrow> int list \<Rightarrow> redis \<Rightarrow> redis" where
  "fail_run E email ip [] s = s"
| "fail_run E email ip (d # ds) s = fail_run E email ip ds (login_failed E email ip (tick d s))"

lemma login_failed_clock [simp]: "clock (login_failed E email ip s) = clock s"
  by (simp add: login_failed_def)

lemma snd_tolerated: "snd (attack_tolerated E email ip s) = snd (attack_count email ip s)"
  by (cases "attack_count email ip s") (simp add: attack_tolerated_def)

lemma fail_run_count:
  assumes "entry s (attack_key email ip) = Some (RText (Num n), Some t)" and "1 \<le> n"
    and "\<forall>d \<in> set ds. 0 \<le> d" and "clock s + sum_list ds < t"
  shows "entry (fail_run E email ip ds s) (attack_key email ip) =
      Some (RText (Num (n + int (length ds))), Some t)
    \<and> clock (fail_run E email ip ds s) = clock s + sum_list ds"
  using assms
proof (induction ds arbitrary: s n)
  case (Cons d ds)
  have "0 \<le> sum_list ds" using Cons.prems(3) by (intro sum_list_nonneg) auto
  with Cons.prems have e: "entry (tick d s) (attack_key email ip) = Some (RText (Num n), Some t)"
    by (simp add: entry_tick)
  from attack.admit_next [OF e Cons.prems(2), of E]
  have "entry (login_failed E email ip (tick d s)) (attack_key email ip) =
      Some (RText (Num (n + 1)), Some t)"
    by (simp add: snd_tolerated login_failed_entry)
  from Cons.IH [OF this] Cons.prems show ?case by (simp add: algebra_simps)
qed simp

lemma fail_run_append: "fail_run E email ip (ds @ ds') s = fail_run E email ip ds' (fail_run E email ip ds s)"
  by (induction ds arbitrary: s) simp_all

text \<open>The failure that exceeds the threshold blocks the address for fifteen minutes.\<close>

lemma fail_run_blocks:
  assumes "entry s (attack_key email ip) = None" and "\<forall>d \<in> set ds. 0 \<le> d"
    and "int (length ds) = auth_fail_block_threshold E + 1" and "1 \<le> auth_fail_block_threshold E"
    and "sum_list ds < 600000"
  shows "entry (fail_run E email ip ds s) (block_key ip) =
    Some (RText (Txt ''1''), Some (clock (fail_run E email ip ds s) + 900000))"
proof -
  from assms obtain d ms l where ds: "ds = d # ms @ [l]"
    by (cases ds rule: rev_cases; cases "butlast ds") auto
  have nn: "0 \<le> d" "\<forall>d \<in> set ms. 0 \<le> d" "0 \<le> l" using assms(2) by (auto simp: ds)
  let ?s1 = "login_failed E email ip (tick d s)"
  have "entry (tick d s) (attack_key email ip) = None"
    using assms(1) nn by (simp add: entry_tick_None)
  from attack.admit_fresh [OF this, of E]
  have e1: "entry ?s1 (attack_key email ip) = Some (RText (Num 1), Some (clock s + d + 600000))"
    by (simp add: snd_tolerated login_failed_entry)
  let ?s2 = "fail_run E email ip ms ?s1"
  have e2: "entry ?s2 (attack_key email ip) =
      Some (RText (Num (1 + int (length ms))), Some (clock s + d + 600000))
    \<and> clock ?s2 = clock ?s1 + sum_list ms"
    using nn assms(5) by (intro fail_run_count [OF e1]) (simp_all add: ds)
  then have "entry (tick l ?s2) (attack_key email ip) =
      Some (RText (Num (1 + int (length ms))), Some (clock s + d + 600000))"
    using nn assms(5) by (simp add: entry_tick ds)
  then have "r_num (attack_key email ip) (tick l ?s2) + 1 > auth_fail_block_threshold E"
    using assms(3) by (simp add: r_num_def r_get_def ds)
  then show ?thesis by (simp add: ds fail_run_append login_failed_entry)
qed

end
