(* ===== verification/Access.thy ===== *)
theory Access
  imports Store SecurityLog
begin

text \<open>
  Who may do what: the guards of the HTTP routes (\<open>api/src/documents/document.guard.ts\<close>,
  \<open>api/src/workspaces/workspace.guard.ts\<close>) and \<open>hasDocAccess\<close> of the WebSocket gateway. The
  specification is \<open>effective_rank\<close>, the best of ownership, the permission on the document and the
  membership in its workspace; the locale \<open>access_rule\<close> is the contract of a decision that follows
  such a rank.
\<close>

section \<open>Roles\<close>

text \<open>\<open>rank[role]\<close>; a role that is not in the table gives \<open>undefined\<close>.\<close>

definition doc_rank :: "string \<Rightarrow> int option" where
  "doc_rank r = map_of [(''viewer'', 1), (''editor'', 2), (''owner'', 3)] r"

definition ws_rank :: "string \<Rightarrow> int option" where
  "ws_rank r = map_of [(''viewer'', 1), (''editor'', 2), (''admin'', 3), (''owner'', 4)] r"

text \<open>\<open>x \<ge> y\<close> on numbers or \<open>undefined\<close>, which compares false.\<close>

fun js_ge :: "int option \<Rightarrow> int option \<Rightarrow> bool" where
  "js_ge (Some x) (Some y) = (x \<ge> y)"
| "js_ge _ _ = False"

text \<open>Workspace roles as document roles: viewer, editor, and owner for every other.\<close>

definition mapped_role :: "string \<Rightarrow> string" where
  "mapped_role r = (if r = ''viewer'' then ''viewer'' else if r = ''editor'' then ''editor'' else ''owner'')"

text \<open>
  The user attached to a request. \<open>AuthGuard\<close> sets its \<open>id\<close> to the row's \<open>_id\<close>, an object (\<open>Oid\<close>), or,
  for the holder of a share link, to a text. \<open>===\<close> with a string is false for an object.
\<close>

datatype ident = Oid string | Text string

fun id_text :: "ident \<Rightarrow> string" where
  "id_text (Oid s) = s"
| "id_text (Text s) = s"

fun strict_eq :: "string \<Rightarrow> ident \<Rightarrow> bool" where
  "strict_eq s (Text t) = (s = t)"
| "strict_eq s (Oid t) = False"

record share_grant =
  sg_token :: string
  sg_documentId :: string
  sg_role :: string
  sg_anonymousComment :: bool

record req_user =
  ru_id :: ident
  ru_email :: "string option"
  ru_share :: "share_grant option"

definition known :: "req_user option \<Rightarrow> bool" where
  "known u = (case u of None \<Rightarrow> False | Some x \<Rightarrow> ru_id x \<noteq> Text [])"

datatype verdict = Allow | Forbid string

section \<open>The guard of the document routes\<close>

definition denied :: "env \<Rightarrow> (string \<times> json) list \<Rightarrow> string \<Rightarrow> redis \<Rightarrow> verdict \<times> redis" where
  "denied E details msg s = (Forbid msg, sec_log E ''security.permission.denied'' details s)"

definition guard_by_share :: "env \<Rightarrow> string \<Rightarrow> req_user \<Rightarrow> share_grant \<Rightarrow> string \<Rightarrow> redis \<Rightarrow> verdict \<times> redis" where
  "guard_by_share E required u g docId s =
     (if js_ge (doc_rank (sg_role g)) (doc_rank required) then (Allow, s)
      else denied E [(''scope'', JStr ''document''), (''docId'', JStr docId),
             (''userId'', JStr (id_text (ru_id u))), (''reason'', JStr ''share-insufficient-role'')]
             ''Share link does not grant required permissions'' s)"

definition guard_by_role :: "env \<Rightarrow> db \<Rightarrow> string \<Rightarrow> req_user \<Rightarrow> string \<Rightarrow> redis \<Rightarrow> verdict \<times> redis" where
  "guard_by_role E d required u docId s =
     (let userId = id_text (ru_id u);
          who = [(''scope'', JStr ''document''), (''docId'', JStr docId), (''userId'', JStr userId)]
      in case doc_findById docId d of
           None \<Rightarrow> denied E who ''Document not found'' s
         | Some doc \<Rightarrow>
             if strict_eq (d_ownerId doc) (ru_id u) then (Allow, s)
             else if (case perm_find docId userId d of
                        Some p \<Rightarrow> js_ge (doc_rank (p_role p)) (doc_rank required) | None \<Rightarrow> False)
             then (Allow, s)
             else (case findRole (d_workspaceId doc) userId d of
                 None \<Rightarrow> denied E (who @ [(''reason'', JStr ''no-workspace-membership'')])
                          ''Not a workspace member'' s
               | Some mem \<Rightarrow>
                   if js_ge (doc_rank (mapped_role (m_role mem))) (doc_rank required) then (Allow, s)
                   else denied E (who @ [(''required'', JStr required), (''reason'', JStr ''insufficient-role'')])
                          ''Insufficient permissions'' s))"

definition document_guard ::
  "env \<Rightarrow> db \<Rightarrow> string \<Rightarrow> req_user option \<Rightarrow> string option \<Rightarrow> redis \<Rightarrow> verdict \<times> redis" where
  "document_guard E d required user param s =
     (case user of
        None \<Rightarrow> (Forbid ''Not authenticated'', s)
      | Some u \<Rightarrow>
          if ru_id u = Text [] then (Forbid ''Not authenticated'', s)
          else (case param of
              None \<Rightarrow> (Allow, s)
            | Some docId \<Rightarrow>
                (case ru_share u of
                   Some g \<Rightarrow> if sg_documentId g = docId then guard_by_share E required u g docId s
                             else guard_by_role E d required u docId s
                 | None \<Rightarrow> guard_by_role E d required u docId s)))"

section \<open>The guard of the workspace routes\<close>

definition workspace_guard ::
  "env \<Rightarrow> db \<Rightarrow> string \<Rightarrow> req_user option \<Rightarrow> string option \<Rightarrow> redis \<Rightarrow> verdict \<times> redis" where
  "workspace_guard E d required user wsId s =
     (case wsId of
        None \<Rightarrow> (Allow, s)
      | Some ws \<Rightarrow>
          (case user of
             None \<Rightarrow> (Forbid ''Not authenticated'', s)
           | Some u \<Rightarrow>
               if ru_id u = Text [] then (Forbid ''Not authenticated'', s)
               else (let userId = id_text (ru_id u);
                         who = [(''scope'', JStr ''workspace''), (''wsId'', JStr ws), (''userId'', JStr userId)]
                     in case findRole ws userId d of
                          None \<Rightarrow> denied E who ''Not a workspace member'' s
                        | Some mem \<Rightarrow>
                            if js_ge (ws_rank (m_role mem)) (ws_rank required) then (Allow, s)
                            else denied E (who @ [(''required'', JStr required), (''have'', JStr (m_role mem))])
                                   ''Insufficient role'' s)))"

section \<open>The gateway's check\<close>

definition hasDocAccess :: "db \<Rightarrow> string \<Rightarrow> string \<Rightarrow> string \<Rightarrow> bool" where
  "hasDocAccess d userId documentId role =
     (case doc_findById documentId d of
        None \<Rightarrow> False
      | Some x \<Rightarrow>
          if d_ownerId x = userId then True
          else if (case perm_find documentId userId d of
                     Some p \<Rightarrow> js_ge (doc_rank (p_role p)) (doc_rank role) | None \<Rightarrow> False)
          then True
          else (case findRole (d_workspaceId x) userId d of
              None \<Rightarrow> False
            | Some mem \<Rightarrow> js_ge (doc_rank (mapped_role (m_role mem))) (doc_rank role)))"

section \<open>Specification\<close>

definition rank_or_0 :: "string option \<Rightarrow> int" where
  "rank_or_0 r = (case Option.bind r doc_rank of Some n \<Rightarrow> n | None \<Rightarrow> 0)"

definition grant_rank :: "db \<Rightarrow> string \<Rightarrow> string \<Rightarrow> int" where
  "grant_rank d userId docId = (case doc_findById docId d of
     None \<Rightarrow> 0
   | Some x \<Rightarrow> max (rank_or_0 (map_option p_role (perm_find docId userId d)))
                  (rank_or_0 (map_option (\<lambda>m. mapped_role (m_role m)) (findRole (d_workspaceId x) userId d))))"

definition effective_rank :: "db \<Rightarrow> string \<Rightarrow> string \<Rightarrow> int" where
  "effective_rank d userId docId =
     (if (case doc_findById docId d of Some x \<Rightarrow> d_ownerId x = userId | None \<Rightarrow> False) then 3
      else grant_rank d userId docId)"

definition route_role :: "string \<Rightarrow> bool" where
  "route_role r \<longleftrightarrow> r \<in> {''viewer'', ''editor'', ''owner''}"

lemma rank_bounds: "doc_rank r = Some n \<Longrightarrow> 1 \<le> n \<and> n \<le> 3"
  by (auto simp: doc_rank_def split: if_splits)

lemma route_rank: "route_role r \<Longrightarrow> \<exists>n. doc_rank r = Some n \<and> 1 \<le> n \<and> n \<le> 3"
  by (auto simp: route_role_def doc_rank_def)

lemma js_ge_rank:
  assumes "doc_rank required = Some n"
  shows "js_ge (doc_rank r) (doc_rank required) \<longleftrightarrow> n \<le> rank_or_0 (Some r)"
    and "\<not> n \<le> rank_or_0 None" and "n \<le> 3" and "\<not> n \<le> 0"
  using rank_bounds [OF assms] assms by (auto simp: rank_or_0_def split: option.splits)

locale access_rule =
  fixes decide :: "string \<Rightarrow> bool"
    and power :: int
  assumes decides: "doc_rank role = Some n \<Longrightarrow> decide role = (n \<le> power)"
    and power_range: "0 \<le> power \<and> power \<le> 3"
begin

lemma monotone: "route_role a \<Longrightarrow> route_role b \<Longrightarrow> js_ge (doc_rank a) (doc_rank b) \<Longrightarrow> decide a \<Longrightarrow> decide b"
  using route_rank [of a] route_rank [of b] decides [of a] decides [of b] by auto

lemma nothing: "power = 0 \<Longrightarrow> route_role role \<Longrightarrow> \<not> decide role"
  using route_rank [of role] decides [of role] by auto

lemma everything: "power = 3 \<Longrightarrow> route_role role \<Longrightarrow> decide role"
  using route_rank [of role] decides [of role] by auto

end

lemma rank_or_0_range: "0 \<le> rank_or_0 x \<and> rank_or_0 x \<le> 3"
proof (cases "Option.bind x doc_rank")
  case (Some n)
  then obtain r where "doc_rank r = Some n" by (cases x) auto
  with Some show ?thesis using rank_bounds [of r n] by (simp add: rank_or_0_def)
qed (simp add: rank_or_0_def)

lemma rank_range: "0 \<le> grant_rank d u i \<and> grant_rank d u i \<le> 3" "0 \<le> effective_rank d u i \<and> effective_rank d u i \<le> 3"
  using rank_or_0_range by (auto simp: grant_rank_def effective_rank_def max_def split: option.splits)

lemma hasDocAccess_rank:
  assumes "doc_rank role = Some n"
  shows "hasDocAccess d u i role = (n \<le> effective_rank d u i)"
  using js_ge_rank [OF assms]
  by (cases "doc_findById i d"; cases "perm_find i u d")
    (auto simp: hasDocAccess_def effective_rank_def grant_rank_def le_max_iff_disj split: option.split)

text \<open>The power that \<open>guard_by_role\<close> gives a user: ownership counts for a text identifier only.\<close>

definition guard_rank :: "db \<Rightarrow> req_user \<Rightarrow> string \<Rightarrow> int" where
  "guard_rank d u i = (case ru_id u of
     Text t \<Rightarrow> effective_rank d t i
   | Oid t \<Rightarrow> grant_rank d t i)"

lemma guard_by_role_rank:
  assumes "doc_rank required = Some n"
  shows "fst (guard_by_role E d required u i s) = Allow \<longleftrightarrow> n \<le> guard_rank d u i"
  using js_ge_rank [OF assms]
  by (cases "doc_findById i d"; cases "ru_id u"; cases "perm_find i (id_text (ru_id u)) d")
    (auto simp: guard_by_role_def guard_rank_def effective_rank_def grant_rank_def denied_def Let_def
      le_max_iff_disj split: option.split)

interpretation gateway: access_rule "hasDocAccess d u i" "effective_rank d u i" for d u i
  by unfold_locales (simp_all add: hasDocAccess_rank rank_range)

interpretation http: access_rule "\<lambda>role. fst (guard_by_role E d role u i s) = Allow" "guard_rank d u i"
  for E d u i s
  by unfold_locales (auto simp: guard_by_role_rank guard_rank_def rank_range split: ident.split)

section \<open>Properties\<close>

lemma document_guard_no_share:
  "ru_share u = None \<Longrightarrow> ru_id u \<noteq> Text [] \<Longrightarrow>
     document_guard E d required (Some u) (Some i) s = guard_by_role E d required u i s"
  by (simp add: document_guard_def)


definition demo_doc :: "string \<Rightarrow> string \<Rightarrow> string \<Rightarrow> doc" where
  "demo_doc i ws owner = \<lparr>d_id = i, d_workspaceId = ws, d_title = ''t'', d_ownerId = owner, d_tags = [],
     d_status = Active, d_deletedAt = None, d_version = 0, d_views = 0, d_clicks = 0,
     d_lastActivityAt = None, d_updatedAt = 0\<rparr>"

definition demo_db :: db where
  "demo_db = empty_db\<lparr>docs := [demo_doc ''d'' ''w'' ''o''],
     members := [\<lparr>m_workspaceId = ''w'', m_userId = ''m'', m_role = ''editor''\<rparr>]\<rparr>"


text \<open>with the identifier \<open>AuthGuard\<close> attaches (an object, not a text) ownership is not
  recognised: the guard decides by document permission and workspace membership alone, so the owner
  of a document who is not a member of its workspace is refused every role, while the gateway grants
  that owner every role.\<close>

theorem guard_refuses_owner:
  assumes "route_role required" and "ru_id u = Oid t" and "ru_share u = None"
    and "doc_findById i d = Some x" and "d_ownerId x = t"
    and "perm_find i t d = None" and "findRole (d_workspaceId x) t d = None"
  shows "fst (document_guard E d required (Some u) (Some i) s) = Forbid ''Not a workspace member''
    \<and> hasDocAccess d t i required"
proof
  show "fst (document_guard E d required (Some u) (Some i) s) = Forbid ''Not a workspace member''"
    using assms by (simp add: document_guard_no_share guard_by_role_def denied_def)
  show "hasDocAccess d t i required" using assms by (simp add: hasDocAccess_def)
qed

lemma guard_refuses_owner_witness:
  "fst (document_guard default_env demo_db ''viewer''
     (Some \<lparr>ru_id = Oid ''o'', ru_email = None, ru_share = None\<rparr>) (Some ''d'') (empty_redis 0))
   = Forbid ''Not a workspace member''"
  using guard_refuses_owner [of "''viewer''" "\<lparr>ru_id = Oid ''o'', ru_email = None, ru_share = None\<rparr>" "''o''"
      "''d''" demo_db "demo_doc ''d'' ''w'' ''o''" default_env "empty_redis 0"]
  by (simp add: route_role_def doc_findById_def demo_db_def demo_doc_def empty_db_def perm_find_def findRole_def)

text \<open>The details of the audit entry of a refusal.\<close>

definition denial_details :: "db \<Rightarrow> string \<Rightarrow> req_user \<Rightarrow> string \<Rightarrow> (string \<times> json) list" where
  "denial_details d required u i =
     [(''scope'', JStr ''document''), (''docId'', JStr i), (''userId'', JStr (id_text (ru_id u)))] @
     (case ru_share u of
        Some g \<Rightarrow> if sg_documentId g = i then [(''reason'', JStr ''share-insufficient-role'')] else []
      | None \<Rightarrow> []) @
     (if (case ru_share u of Some g \<Rightarrow> sg_documentId g = i | None \<Rightarrow> False) then []
      else case doc_findById i d of
        None \<Rightarrow> []
      | Some x \<Rightarrow>
          (case findRole (d_workspaceId x) (id_text (ru_id u)) d of
             None \<Rightarrow> [(''reason'', JStr ''no-workspace-membership'')]
           | Some m \<Rightarrow> [(''required'', JStr required), (''reason'', JStr ''insufficient-role'')]))"

lemma document_guard_audits:
  assumes "ru_id u \<noteq> Text []"
  shows "snd (document_guard E d required (Some u) (Some i) s) =
      (if fst (document_guard E d required (Some u) (Some i) s) = Allow then s
       else sec_log E ''security.permission.denied'' (denial_details d required u i) s)"
  using assms
  by (auto simp: document_guard_def guard_by_share_def guard_by_role_def denied_def denial_details_def Let_def
      split: option.split)



text \<open>\<open>WorkspaceGuard\<close> lets a request of a workspace route through exactly when the user is a member
  with a role of at least the rank asked for; a request that names no workspace is let through.\<close>

theorem workspace_guard_decides:
  "fst (workspace_guard E d required user ws s) = Allow \<longleftrightarrow>
     (case ws of
        None \<Rightarrow> True
      | Some w \<Rightarrow> known user \<and>
          (case findRole w (id_text (ru_id (the user))) d of
             None \<Rightarrow> False
           | Some m \<Rightarrow> js_ge (ws_rank (m_role m)) (ws_rank required)))"
  by (auto simp: workspace_guard_def known_def denied_def Let_def split: option.split)

end
