(* ===== verification/Lock.thy ===== *)
theory Lock
  imports Keyspace
begin

text \<open>
  \<open>LockService\<close> (\<open>api/src/common/lock.service.ts\<close>): a lease on a Redis key, taken with \<open>SET PX NX\<close>
  and given back by a script that compares the token. The random token is an argument; the script
  is the comparison and deletion it performs, atomically. The contract of such a lease is the
  locale \<open>lease\<close>.
\<close>

section \<open>The operations\<close>

definition acquire :: "string \<Rightarrow> int \<Rightarrow> string \<Rightarrow> redis \<Rightarrow> string option \<times> redis" where
  "acquire key ttlMs token s =
     (let (ok, s1) = r_setnx key (Txt token) ttlMs s
      in (if ok then Some token else None, s1))"

definition release :: "string \<Rightarrow> string \<Rightarrow> redis \<Rightarrow> redis" where
  "release key token s = (if r_get key s = Some (Txt token) then r_del key s else s)"

lemma acquire_free:
  "entry s key = None \<Longrightarrow>
     acquire key ttl t s = (Some t, put key (RText (Txt t)) (Some (clock s + ttl)) s)"
  by (simp add: acquire_def r_setnx_def)

lemma acquire_busy: "entry s key = Some w \<Longrightarrow> acquire key ttl t s = (None, s)"
  by (simp add: acquire_def r_setnx_def)

lemma acquire_cases:
  obtains (free) "entry s key = None" "acquire key ttl t s = (Some t, put key (RText (Txt t)) (Some (clock s + ttl)) s)"
  | (busy) "entry s key \<noteq> None" "acquire key ttl t s = (None, s)"
  by (cases "entry s key") (auto simp: acquire_free acquire_busy)

lemma lock_frame [frame_simps]:
  "k \<noteq> key \<Longrightarrow> entry (snd (acquire key ttl t s)) k = entry s k"
  "k \<noteq> key \<Longrightarrow> entry (release key t s) k = entry s k"
  "clock (snd (acquire key ttl t s)) = clock s" "clock (release key t s) = clock s"
  "pubs (snd (acquire key ttl t s)) = pubs s" "pubs (release key t s) = pubs s"
  by (cases rule: acquire_cases [of s key ttl t]; simp add: release_def key_simps)+

section \<open>The contract of a lease\<close>

datatype 't lease_op = Acquire 't | Release 't | Wait int

fun lease_run :: "('t \<Rightarrow> 's \<Rightarrow> bool \<times> 's) \<Rightarrow> ('t \<Rightarrow> 's \<Rightarrow> 's) \<Rightarrow> (int \<Rightarrow> 's \<Rightarrow> 's)
    \<Rightarrow> 't lease_op list \<Rightarrow> 's \<Rightarrow> 't list \<times> 's" where
  "lease_run acq rel pass [] s = ([], s)"
| "lease_run acq rel pass (Acquire t # os) s =
     (let (b, s1) = acq t s; (ts, s2) = lease_run acq rel pass os s1
      in (if b then t # ts else ts, s2))"
| "lease_run acq rel pass (Release t # os) s = lease_run acq rel pass os (rel t s)"
| "lease_run acq rel pass (Wait d # os) s = lease_run acq rel pass os (pass d s)"

fun waited :: "'t lease_op list \<Rightarrow> int" where
  "waited [] = 0"
| "waited (Wait d # os) = d + waited os"
| "waited (Acquire t # os) = waited os"
| "waited (Release t # os) = waited os"

lemma waited_nonneg: "\<forall>d. Wait d \<in> set ops \<longrightarrow> 0 \<le> d \<Longrightarrow> 0 \<le> waited ops"
  by (induction ops rule: waited.induct) auto

locale lease =
  fixes acq :: "'t \<Rightarrow> 's \<Rightarrow> bool \<times> 's"
    and rel :: "'t \<Rightarrow> 's \<Rightarrow> 's"
    and pass :: "int \<Rightarrow> 's \<Rightarrow> 's"
    and owned :: "'s \<Rightarrow> 't \<Rightarrow> bool"
    and left :: "'s \<Rightarrow> int"
    and ttl :: int
  assumes acq_owned: "fst (acq t s) \<Longrightarrow> owned (snd (acq t s)) t \<and> left (snd (acq t s)) = ttl"
    and acq_busy: "owned s u \<Longrightarrow> 0 < left s \<Longrightarrow> acq t s = (False, s)"
    and rel_other: "owned s u \<Longrightarrow> t \<noteq> u \<Longrightarrow> rel t s = s"
    and pass_owned: "owned s u \<Longrightarrow> 0 \<le> d \<Longrightarrow> d < left s \<Longrightarrow>
      owned (pass d s) u \<and> left (pass d s) = left s - d"
    and rel_owned: "owned s t \<Longrightarrow> 0 < left s \<Longrightarrow> fst (acq u (rel t s))"
begin

lemma held:
  assumes "owned s u" and "Release u \<notin> set ops" and "\<forall>d. Wait d \<in> set ops \<longrightarrow> 0 \<le> d"
    and "waited ops < left s"
  shows "fst (lease_run acq rel pass ops s) = [] \<and> owned (snd (lease_run acq rel pass ops s)) u
    \<and> left (snd (lease_run acq rel pass ops s)) = left s - waited ops"
  using assms
proof (induction ops arbitrary: s rule: waited.induct)
  case (2 d os)
  then have "0 \<le> d" "d < left s" using waited_nonneg [of os] by force+
  with 2 pass_owned [of s u d] show ?case by simp
next
  case (3 t os)
  then have "0 < left s" using waited_nonneg [of os] by force
  with 3 acq_busy [of s u t] show ?case by simp
next
  case (4 t os)
  then have "t \<noteq> u" by auto
  with 4 rel_other [of s u t] show ?case by simp
qed simp

text \<open>
  Once a token has the lease nobody else gets it before it is released with that token or its time
  is over, and then the next one to ask gets it.
\<close>

lemma exclusive:
  assumes "fst (acq u s)" and "Release u \<notin> set ops" and "\<forall>d. Wait d \<in> set ops \<longrightarrow> 0 \<le> d"
    and "waited ops < ttl"
  shows "fst (lease_run acq rel pass ops (snd (acq u s))) = []"
    and "fst (acq t (rel u (snd (lease_run acq rel pass ops (snd (acq u s))))))"
proof -
  let ?s = "snd (acq u s)"
  have "fst (lease_run acq rel pass ops ?s) = [] \<and> owned (snd (lease_run acq rel pass ops ?s)) u
    \<and> left (snd (lease_run acq rel pass ops ?s)) = left ?s - waited ops"
    using acq_owned [OF assms(1)] assms by (intro held) simp_all
  moreover have "left ?s = ttl" using acq_owned [OF assms(1)] by simp
  ultimately show "fst (lease_run acq rel pass ops ?s) = []" "fst (acq t (rel u (snd (lease_run acq rel pass ops ?s))))"
    using assms(4) by (auto intro!: rel_owned)
qed

end

section \<open>The service provides it\<close>

definition lock_acquire :: "string \<Rightarrow> int \<Rightarrow> string \<Rightarrow> redis \<Rightarrow> bool \<times> redis" where
  "lock_acquire key ttl t s = (fst (acquire key ttl t s) \<noteq> None, snd (acquire key ttl t s))"

definition lock_owned :: "string \<Rightarrow> redis \<Rightarrow> string \<Rightarrow> bool" where
  "lock_owned key s t \<longleftrightarrow> (case entry s key of Some (RText (Txt u), Some _) \<Rightarrow> u = t | _ \<Rightarrow> False)"

definition lock_left :: "string \<Rightarrow> redis \<Rightarrow> int" where
  "lock_left key s = (case entry s key of Some (_, Some e) \<Rightarrow> e - clock s | _ \<Rightarrow> 0)"

text \<open>The time of a lease, at least a millisecond (the sources use 5000 and 3000).\<close>

definition lock_ttl :: "nat \<Rightarrow> int" where
  "lock_ttl n = int n + 1"

lemma lock_ownedE:
  assumes "lock_owned key s u"
  obtains e where "entry s key = Some (RText (Txt u), Some e)"
  using assms unfolding lock_owned_def
  by (auto split: option.split_asm prod.split_asm rval.split_asm rtext.split_asm)

interpretation lock: lease "lock_acquire key (lock_ttl n)" "release key" tick "lock_owned key"
  "lock_left key" "lock_ttl n" for key n
proof unfold_locales
  fix s t u d
  show "fst (lock_acquire key (lock_ttl n) t s) \<Longrightarrow>
      lock_owned key (snd (lock_acquire key (lock_ttl n) t s)) t
      \<and> lock_left key (snd (lock_acquire key (lock_ttl n) t s)) = lock_ttl n"
    by (cases rule: acquire_cases [of s key "lock_ttl n" t])
      (simp_all add: lock_acquire_def lock_owned_def lock_left_def lock_ttl_def key_simps)
  show "lock_owned key s u \<Longrightarrow> 0 < lock_left key s \<Longrightarrow> lock_acquire key (lock_ttl n) t s = (False, s)"
    by (elim lock_ownedE) (simp add: lock_acquire_def acquire_busy)
  show "lock_owned key s u \<Longrightarrow> t \<noteq> u \<Longrightarrow> release key t s = s"
    by (elim lock_ownedE) (simp add: release_def r_get_def)
  show "lock_owned key s u \<Longrightarrow> 0 \<le> d \<Longrightarrow> d < lock_left key s \<Longrightarrow>
      lock_owned key (tick d s) u \<and> lock_left key (tick d s) = lock_left key s - d"
    by (elim lock_ownedE) (simp add: lock_owned_def lock_left_def entry_tick)
  show "lock_owned key s t \<Longrightarrow> 0 < lock_left key s \<Longrightarrow>
      fst (lock_acquire key (lock_ttl n) u (release key t s))"
    by (elim lock_ownedE) (simp add: lock_acquire_def release_def r_get_def acquire_free key_simps)
qed

text \<open>Calls of the service on one key; the tokens given out.\<close>

definition lock_run :: "string \<Rightarrow> int \<Rightarrow> string lease_op list \<Rightarrow> redis \<Rightarrow> string list \<times> redis" where
  "lock_run key ttl = lease_run (lock_acquire key ttl) (release key) tick"



end
