(* ===== verification/MemoryCache.thy ===== *)
theory MemoryCache
  imports Keyspace
begin

text \<open>
  \<open>MemoryCacheService\<close> (\<open>api/src/common/memory-cache.service.ts\<close>): the in-process cache of each
  server, a \<open>Map\<close> as an association list with one entry per key and the list of the keys in the
  order they were set. The contract a cache's clients rely on, \<open>coherent_cache\<close>, holds of it and of
  \<open>CacheService\<close>: a read gives the value last written, or nothing.
\<close>

section \<open>The service\<close>

record 'v mem_cache =
  mc_now :: int
  mc_store :: "(string \<times> 'v \<times> int) list"
  mc_order :: "string list"

definition empty_mc :: "int \<Rightarrow> 'v mem_cache" where
  "empty_mc now = \<lparr>mc_now = now, mc_store = [], mc_order = []\<rparr>"

text \<open>\<open>Map.set\<close> and \<open>Map.delete\<close>.\<close>

fun map_put :: "string \<Rightarrow> 'a \<Rightarrow> (string \<times> 'a) list \<Rightarrow> (string \<times> 'a) list" where
  "map_put k v [] = [(k, v)]"
| "map_put k v ((k', v') # m) = (if k' = k then (k, v) # m else (k', v') # map_put k v m)"

definition map_del :: "string \<Rightarrow> (string \<times> 'a) list \<Rightarrow> (string \<times> 'a) list" where
  "map_del k m = filter (\<lambda>p. fst p \<noteq> k) m"

definition mc_del :: "string \<Rightarrow> 'v mem_cache \<Rightarrow> 'v mem_cache" where
  "mc_del key c = c\<lparr>mc_store := map_del key (mc_store c)\<rparr>"

definition mc_get :: "string \<Rightarrow> 'v mem_cache \<Rightarrow> 'v option \<times> 'v mem_cache" where
  "mc_get key c = (case map_of (mc_store c) key of
     None \<Rightarrow> (None, c)
   | Some (v, expiresAt) \<Rightarrow>
       if expiresAt < mc_now c then (None, mc_del key c) else (Some v, c))"

text \<open>The loop of \<open>evict\<close>; it ends with the list of keys.\<close>

fun evict_loop :: "nat \<Rightarrow> (string \<times> 'a) list \<Rightarrow> string list \<Rightarrow> (string \<times> 'a) list \<times> string list" where
  "evict_loop mx m [] = (m, [])"
| "evict_loop mx m (k # ks) =
     (if length m > mx then evict_loop mx (if k \<noteq> [] then map_del k m else m) ks else (m, k # ks))"

definition mc_max :: "env \<Rightarrow> nat" where
  "mc_max E = nat (mem_cache_max E)"

definition mc_evict :: "env \<Rightarrow> 'v mem_cache \<Rightarrow> 'v mem_cache" where
  "mc_evict E c = (let (m, ks) = evict_loop (mc_max E) (mc_store c) (mc_order c)
     in c\<lparr>mc_store := m, mc_order := ks\<rparr>)"

definition mc_set :: "env \<Rightarrow> string \<Rightarrow> 'v \<Rightarrow> int \<Rightarrow> 'v mem_cache \<Rightarrow> 'v mem_cache" where
  "mc_set E key v ttlSeconds c =
     (let c1 = c\<lparr>mc_store := map_put key (v, mc_now c + ttlSeconds * 1000) (mc_store c),
                 mc_order := mc_order c @ [key]\<rparr>
      in if length (mc_store c1) > mc_max E then mc_evict E c1 else c1)"

definition mc_pass :: "int \<Rightarrow> 'v mem_cache \<Rightarrow> 'v mem_cache" where
  "mc_pass d c = c\<lparr>mc_now := mc_now c + d\<rparr>"

section \<open>Maps\<close>

lemma map_of_put [simp]: "map_of (map_put k v m) = (map_of m)(k \<mapsto> v)"
  by (induction m) auto

lemma map_of_del [simp]: "map_of (map_del k m) = (map_of m)(k := None)"
  by (induction m) (auto simp: map_del_def)

lemma keys_put: "fst ` set (map_put k v m) = insert k (fst ` set m)"
proof (induction m)
  case (Cons p m)
  then show ?case by (cases p) (auto simp del: image_insert simp: image_insert)
qed simp

lemma keys_del: "fst ` set (map_del k m) = fst ` set m - {k}"
  by (auto simp: map_del_def)

lemma distinct_put: "distinct (map fst m) \<Longrightarrow> distinct (map fst (map_put k v m))"
proof (induction m)
  case (Cons p m)
  then show ?case
    using keys_put [of k v m] by (cases p) auto
qed simp

lemma distinct_del: "distinct (map fst m) \<Longrightarrow> distinct (map fst (map_del k m))"
  by (simp add: map_del_def distinct_map_filter)

lemma length_put_le: "length (map_put k v m) \<le> Suc (length m)"
  by (induction m) auto

lemma length_del_le: "length (map_del k m) \<le> length m"
  by (simp add: map_del_def)

section \<open>Size\<close>

text \<open>
  What the service keeps: one entry per key, and every key it holds is in the list \<open>evict\<close> works
  through. The empty key is never removed by \<open>evict\<close>, so it is not used.
\<close>

definition mc_ok :: "'v mem_cache \<Rightarrow> bool" where
  "mc_ok c \<longleftrightarrow> distinct (map fst (mc_store c)) \<and> fst ` set (mc_store c) \<subseteq> set (mc_order c)
     \<and> [] \<notin> fst ` set (mc_store c)"

lemma evict_loop_ok:
  assumes "distinct (map fst m)" and "fst ` set m \<subseteq> set ks" and "[] \<notin> fst ` set m"
    and "evict_loop mx m ks = (m', ks')"
  shows "distinct (map fst m') \<and> fst ` set m' \<subseteq> set ks' \<and> [] \<notin> fst ` set m'
    \<and> length m' \<le> mx \<and> fst ` set m' \<subseteq> fst ` set m
    \<and> (\<forall>k v. map_of m' k = Some v \<longrightarrow> map_of m k = Some v)"
  using assms
proof (induction mx m ks rule: evict_loop.induct)
  case (1 mx m)
  then show ?case by auto
next
  case (2 mx m k ks)
  show ?case
  proof (cases "length m > mx")
    case False
    with 2 show ?thesis by auto
  next
    case True
    have "fst ` set (map_del k m) \<subseteq> set ks" "[] \<notin> fst ` set (map_del k m)"
      using 2(3,4) by (auto simp: keys_del)
    moreover have "fst ` set m \<subseteq> set ks" if "k = []"
      using 2(3,4) that by (simp add: subset_insert)
    ultimately have i: "fst ` set (if k \<noteq> [] then map_del k m else m) \<subseteq> set ks"
      "[] \<notin> fst ` set (if k \<noteq> [] then map_del k m else m)"
      "distinct (map fst (if k \<noteq> [] then map_del k m else m))"
      using 2(2,4) by (auto simp: distinct_del)
    from 2(5) True have "evict_loop mx (if k \<noteq> [] then map_del k m else m) ks = (m', ks')" by simp
    from "2.IH" [OF True i(3,1,2) this]
    show ?thesis by (auto simp: keys_del split: if_splits)
  qed
qed

lemma mc_set_ok:
  assumes "mc_ok c" and "key \<noteq> []"
  shows "mc_ok (mc_set E key v ttl c) \<and> length (mc_store (mc_set E key v ttl c)) \<le> max (mc_max E) 0"
    and "map_of (mc_store (mc_set E key v ttl c)) k = Some w \<Longrightarrow>
      (if k = key then w = (v, mc_now c + ttl * 1000) else map_of (mc_store c) k = Some w)"
    and "mc_now (mc_set E key v ttl c) = mc_now c"
proof -
  let ?m = "map_put key (v, mc_now c + ttl * 1000) (mc_store c)"
  let ?ks = "mc_order c @ [key]"
  have a: "distinct (map fst ?m)" "fst ` set ?m \<subseteq> set ?ks" "[] \<notin> fst ` set ?m"
    using assms by (auto simp: mc_ok_def distinct_put keys_put)
  obtain m' ks' where e: "evict_loop (mc_max E) ?m ?ks = (m', ks')"
    by (cases "evict_loop (mc_max E) ?m ?ks")
  note l = evict_loop_ok [OF a e]
  show "mc_ok (mc_set E key v ttl c) \<and> length (mc_store (mc_set E key v ttl c)) \<le> max (mc_max E) 0"
    using a l e by (auto simp: mc_set_def mc_evict_def mc_ok_def Let_def)
  show "map_of (mc_store (mc_set E key v ttl c)) k = Some w \<Longrightarrow>
      (if k = key then w = (v, mc_now c + ttl * 1000) else map_of (mc_store c) k = Some w)"
  proof -
    assume "map_of (mc_store (mc_set E key v ttl c)) k = Some w"
    moreover have "mc_store (mc_set E key v ttl c) = (if length ?m > mc_max E then m' else ?m)"
      using e by (simp add: mc_set_def mc_evict_def Let_def)
    moreover have "\<forall>k v. map_of m' k = Some v \<longrightarrow> map_of ?m k = Some v" using l by blast
    ultimately have "map_of ?m k = Some w" by metis
    then show ?thesis by (simp split: if_splits)
  qed
  show "mc_now (mc_set E key v ttl c) = mc_now c"
    by (simp add: mc_set_def mc_evict_def Let_def split: prod.split)
qed

lemma mc_del_ok: "mc_ok c \<Longrightarrow> mc_ok (mc_del key c)"
  by (auto simp: mc_ok_def mc_del_def distinct_del keys_del)

lemma mc_get_ok:
  "mc_ok c \<Longrightarrow> mc_ok (snd (mc_get key c))"
  "length (mc_store (snd (mc_get key c))) \<le> length (mc_store c)"
proof -
  show "mc_ok c \<Longrightarrow> mc_ok (snd (mc_get key c))"
    by (auto simp: mc_get_def mc_del_ok split: option.split)
  show "length (mc_store (snd (mc_get key c))) \<le> length (mc_store c)"
    by (auto simp: mc_get_def mc_del_def length_del_le split: option.split)
qed

section \<open>The contract of a cache\<close>

datatype 'v cache_op = CSet string 'v int | CDel string | CGet string | CPass int

fun cache_run :: "(string \<Rightarrow> 'v \<Rightarrow> int \<Rightarrow> 's \<Rightarrow> 's) \<Rightarrow> (string \<Rightarrow> 's \<Rightarrow> 's) \<Rightarrow> (string \<Rightarrow> 's \<Rightarrow> 'v option \<times> 's)
    \<Rightarrow> (int \<Rightarrow> 's \<Rightarrow> 's) \<Rightarrow> 'v cache_op list \<Rightarrow> 's \<Rightarrow> 's" where
  "cache_run st del get pass [] s = s"
| "cache_run st del get pass (CSet k v ttl # os) s = cache_run st del get pass os (st k v ttl s)"
| "cache_run st del get pass (CDel k # os) s = cache_run st del get pass os (del k s)"
| "cache_run st del get pass (CGet k # os) s = cache_run st del get pass os (snd (get k s))"
| "cache_run st del get pass (CPass d # os) s = cache_run st del get pass os (pass d s)"

text \<open>The last write to a key: the value, or \<open>None\<close> for a deletion.\<close>

fun last_write :: "string \<Rightarrow> 'v cache_op list \<Rightarrow> 'v option \<Rightarrow> 'v option" where
  "last_write k [] w = w"
| "last_write k (CSet k' v ttl # os) w = last_write k os (if k' = k then Some v else w)"
| "last_write k (CDel k' # os) w = last_write k os (if k' = k then None else w)"
| "last_write k (CGet k' # os) w = last_write k os w"
| "last_write k (CPass d # os) w = last_write k os w"

fun op_ok :: "'v cache_op \<Rightarrow> bool" where
  "op_ok (CSet k v ttl) = (k \<noteq> [] \<and> 0 < ttl)"
| "op_ok (CPass d) = (0 \<le> d)"
| "op_ok _ = True"

locale coherent_cache =
  fixes st :: "string \<Rightarrow> 'v \<Rightarrow> int \<Rightarrow> 's \<Rightarrow> 's"
    and del :: "string \<Rightarrow> 's \<Rightarrow> 's"
    and get :: "string \<Rightarrow> 's \<Rightarrow> 'v option \<times> 's"
    and pass :: "int \<Rightarrow> 's \<Rightarrow> 's"
    and ok :: "'s \<Rightarrow> bool"
  assumes set_ok: "ok s \<Longrightarrow> k \<noteq> [] \<Longrightarrow> 0 < ttl \<Longrightarrow> ok (st k v ttl s)"
    and del_ok: "ok s \<Longrightarrow> ok (del k s)"
    and get_ok: "ok s \<Longrightarrow> ok (snd (get k s))"
    and pass_ok: "ok s \<Longrightarrow> 0 \<le> d \<Longrightarrow> ok (pass d s)"
    and get_set: "ok s \<Longrightarrow> k \<noteq> [] \<Longrightarrow> 0 < ttl \<Longrightarrow> fst (get k' (st k v ttl s)) = Some w \<Longrightarrow>
      (if k' = k then w = v else fst (get k' s) = Some w)"
    and get_del: "ok s \<Longrightarrow> fst (get k' (del k s)) = Some w \<Longrightarrow> k' \<noteq> k \<and> fst (get k' s) = Some w"
    and get_get: "ok s \<Longrightarrow> fst (get k' (snd (get k s))) = Some w \<Longrightarrow> fst (get k' s) = Some w"
    and get_pass: "ok s \<Longrightarrow> 0 \<le> d \<Longrightarrow> fst (get k' (pass d s)) = Some w \<Longrightarrow> fst (get k' s) = Some w"
begin

text \<open>A hit is the value last written, never an older one and never one that was deleted.\<close>

lemma coherent:
  assumes "ok s" and "\<forall>c \<in> set ops. op_ok c"
    and "fst (get k (cache_run st del get pass ops s)) = Some w"
    and "\<forall>w. fst (get k s) = Some w \<longrightarrow> lw = Some w"
  shows "last_write k ops lw = Some w"
  using assms
proof (induction ops arbitrary: s lw)
  case (Cons c ops)
  show ?case
  proof (cases c)
    case (CSet k' v ttl)
    with Cons.prems have k: "k' \<noteq> []" "0 < ttl" by auto
    have g: "\<forall>w. fst (get k (st k' v ttl s)) = Some w \<longrightarrow> (if k' = k then Some v else lw) = Some w"
    proof (intro allI impI)
      fix w' assume "fst (get k (st k' v ttl s)) = Some w'"
      from get_set [OF Cons.prems(1) k this] Cons.prems(4)
      show "(if k' = k then Some v else lw) = Some w'" by (simp split: if_splits)
    qed
    have "last_write k ops (if k' = k then Some v else lw) = Some w"
      using Cons.prems CSet by (intro Cons.IH [OF set_ok [OF Cons.prems(1) k] _ _ g]) simp_all
    with CSet show ?thesis by simp
  next
    case (CDel k')
    with Cons.prems get_del [OF Cons.prems(1), of k k'] show ?thesis
      by (auto intro!: Cons.IH [of "del k' s"] del_ok)
  next
    case (CGet k')
    with Cons.prems get_get [OF Cons.prems(1), of k k'] show ?thesis
      by (auto intro!: Cons.IH [of "snd (get k' s)"] get_ok)
  next
    case (CPass d)
    with Cons.prems get_pass [OF Cons.prems(1), of d k] show ?thesis
      by (auto intro!: Cons.IH [of "pass d s"] pass_ok)
  qed
qed simp

end

lemma mc_hit:
  "fst (mc_get k c) = Some w \<longleftrightarrow> (\<exists>e. map_of (mc_store c) k = Some (w, e) \<and> \<not> e < mc_now c)"
  by (auto simp: mc_get_def split: option.splits)

lemma mc_get_state: "snd (mc_get k c) = c \<or> snd (mc_get k c) = mc_del k c"
  by (simp add: mc_get_def split: option.split)

interpretation memory: coherent_cache "mc_set E" mc_del mc_get mc_pass mc_ok for E
proof unfold_locales
  fix c :: "'v mem_cache" and k k' v ttl w and d :: int
  show "mc_ok c \<Longrightarrow> k \<noteq> [] \<Longrightarrow> 0 < ttl \<Longrightarrow> mc_ok (mc_set E k v ttl c)"
    by (rule conjunct1 [OF mc_set_ok(1)])
  show "mc_ok c \<Longrightarrow> mc_ok (mc_del k c)" by (rule mc_del_ok)
  show "mc_ok c \<Longrightarrow> mc_ok (snd (mc_get k c))" by (rule mc_get_ok)
  show "mc_ok c \<Longrightarrow> 0 \<le> d \<Longrightarrow> mc_ok (mc_pass d c)" by (simp add: mc_ok_def mc_pass_def)
  show "fst (mc_get k' (mc_del k c)) = Some w \<Longrightarrow> k' \<noteq> k \<and> fst (mc_get k' c) = Some w"
    by (cases "k' = k") (simp_all add: mc_hit mc_del_def)
  show "fst (mc_get k' (snd (mc_get k c))) = Some w \<Longrightarrow> fst (mc_get k' c) = Some w"
    using mc_get_state [of k c] by (cases "k' = k") (auto simp: mc_hit mc_del_def)
  show "0 \<le> d \<Longrightarrow> fst (mc_get k' (mc_pass d c)) = Some w \<Longrightarrow> fst (mc_get k' c) = Some w"
    unfolding mc_hit mc_pass_def by force
  show "(if k' = k then w = v else fst (mc_get k' c) = Some w)"
    if "mc_ok c" "k \<noteq> []" "fst (mc_get k' (mc_set E k v ttl c)) = Some w"
  proof -
    from that(3) obtain e where "map_of (mc_store (mc_set E k v ttl c)) k' = Some (w, e)"
      "\<not> e < mc_now (mc_set E k v ttl c)"
      unfolding mc_hit by blast
    with mc_set_ok(2) [OF that(1,2), of E v ttl k' "(w, e)"] mc_set_ok(3) [OF that(1,2), of E v ttl]
    show ?thesis by (auto simp: mc_hit split: if_splits)
  qed
qed

definition redis_cache_get :: "string \<Rightarrow> redis \<Rightarrow> json option \<times> redis" where
  "redis_cache_get k s = (cache_getJson k s, s)"

interpretation shared: coherent_cache cache_setJson cache_del redis_cache_get tick "\<lambda>_. True"
proof unfold_locales
  fix s k k' w and d :: int and v ttl
  show "fst (redis_cache_get k' (cache_del k s)) = Some w \<Longrightarrow>
      k' \<noteq> k \<and> fst (redis_cache_get k' s) = Some w"
    using cache_getJson_cong [of "cache_del k s" k' s]
    by (cases "k' = k") (auto simp: redis_cache_get_def key_simps)
  show "0 \<le> d \<Longrightarrow> fst (redis_cache_get k' (tick d s)) = Some w \<Longrightarrow> fst (redis_cache_get k' s) = Some w"
    by (auto simp: redis_cache_get_def cache_getJson_def r_get_def entry_tick
        split: option.splits rval.splits rtext.splits if_splits)
  show "0 < ttl \<Longrightarrow> fst (redis_cache_get k' (cache_setJson k v ttl s)) = Some w \<Longrightarrow>
      if k' = k then w = v else fst (redis_cache_get k' s) = Some w"
    using cache_getJson_cong [of "cache_setJson k v ttl s" k' s]
    by (cases "k' = k") (auto simp: redis_cache_get_def key_simps)
qed (simp_all add: redis_cache_get_def)

section \<open>Properties\<close>

definition memory_run :: "env \<Rightarrow> 'v cache_op list \<Rightarrow> 'v mem_cache \<Rightarrow> 'v mem_cache" where
  "memory_run E = cache_run (mc_set E) mc_del mc_get mc_pass"

lemma memory_run_ok:
  assumes "mc_ok c" and "\<forall>p \<in> set ops. op_ok p" and "length (mc_store c) \<le> mc_max E"
  shows "mc_ok (memory_run E ops c) \<and> length (mc_store (memory_run E ops c)) \<le> mc_max E"
  using assms unfolding memory_run_def
proof (induction ops arbitrary: c)
  case (Cons p ops)
  show ?case
  proof (cases p)
    case (CSet k v ttl)
    then have "k \<noteq> []" using Cons.prems by simp
    from mc_set_ok(1) [OF Cons.prems(1) this, of E v ttl] CSet Cons show ?thesis by simp
  next
    case (CDel k)
    have "length (mc_store (mc_del k c)) \<le> mc_max E"
      using Cons.prems(3) length_del_le [of k "mc_store c"] by (simp add: mc_del_def)
    with CDel Cons show ?thesis by (simp add: mc_del_ok)
  next
    case (CGet k)
    have "length (mc_store (snd (mc_get k c))) \<le> mc_max E"
      using mc_get_ok(2) [of k c] Cons.prems(3) by simp
    with CGet Cons show ?thesis by (simp add: mc_get_ok(1))
  next
    case (CPass d)
    with Cons show ?thesis by (simp add: mc_pass_def mc_ok_def)
  qed
qed simp

text \<open>the memory cache stays within its size: after any sequence of \<open>set\<close>, \<open>get\<close> and \<open>del\<close> on an
  empty cache, with time passing between them, it holds at most \<open>MEM_CACHE_MAX\<close> entries, and the
  value it returns for a key is the one last written there, never an older or a deleted one.\<close>

theorem memory_cache_sound:
  assumes "\<forall>p \<in> set ops. op_ok p"
  shows "length (mc_store (memory_run E ops (empty_mc now))) \<le> mc_max E
    \<and> (\<forall>k v. fst (mc_get k (memory_run E ops (empty_mc now))) = Some v \<longrightarrow> last_write k ops None = Some v)"
proof -
  have ok: "mc_ok (empty_mc now)" by (simp add: mc_ok_def empty_mc_def)
  have n: "\<forall>w. fst (mc_get k (empty_mc now)) = Some w \<longrightarrow> None = Some w" for k
    by (simp add: mc_get_def empty_mc_def)
  show ?thesis
    using memory_run_ok [OF ok assms, of E] memory.coherent [OF ok assms _ n, of _ E]
    by (auto simp: memory_run_def empty_mc_def)
qed

lemma memory_cache_sound_witness:
  "length (mc_store (memory_run (default_env\<lparr>mem_cache_max := 1\<rparr>)
      [CSet ''a'' (1::int) 5, CSet ''b'' 2 5] (empty_mc 0))) \<le> 1"
  using memory_cache_sound [of "[CSet ''a'' (1::int) 5, CSet ''b'' 2 5]" "default_env\<lparr>mem_cache_max := 1\<rparr>" 0]
  by (simp add: mc_max_def default_env_def)

text \<open>the list of keys keeps a key that was deleted (or has expired), so in a full cache a key set
  again while its old place is the oldest is evicted by the very call that sets it: \<open>set\<close> followed
  by \<open>get\<close> finds nothing.\<close>

theorem memory_cache_loses_reset_key:
  assumes "mc_ok c" and "mc_order c = key # ks" and "key \<notin> fst ` set (mc_store c)"
    and "length (mc_store c) = mc_max E" and "key \<noteq> []"
  shows "fst (mc_get key (mc_set E key v ttl c)) = None"
proof -
  let ?m = "map_put key (v, mc_now c + ttl * 1000) (mc_store c)"
  have l: "length ?m = Suc (mc_max E)"
  proof -
    have "key \<notin> fst ` set m \<Longrightarrow> length (map_put key w m) = Suc (length m)" for w and m :: "(string \<times> 'a \<times> int) list"
      by (induction m) auto
    with assms show ?thesis by simp
  qed
  have d: "length (map_del key ?m) = mc_max E"
  proof -
    have "key \<notin> fst ` set m \<Longrightarrow> map_del key (map_put key w m) = m" for w and m :: "(string \<times> 'a \<times> int) list"
      by (induction m) (auto simp: map_del_def filter_id_conv)
    with assms show ?thesis by simp
  qed
  have "evict_loop (mc_max E) (map_del key ?m) ks' = (map_del key ?m, ks')" for ks'
    using d by (cases ks') simp_all
  then have "mc_store (mc_set E key v ttl c) = map_del key ?m"
    using assms l by (simp add: mc_set_def mc_evict_def Let_def)
  then show ?thesis by (simp add: mc_get_def)
qed

lemma memory_cache_loses_reset_key_witness:
  "fst (mc_get ''a'' (mc_set (default_env\<lparr>mem_cache_max := 1\<rparr>) ''a'' (3::int) 5
     (mc_set (default_env\<lparr>mem_cache_max := 1\<rparr>) ''b'' 2 5
       (mc_del ''a'' (mc_set (default_env\<lparr>mem_cache_max := 1\<rparr>) ''a'' 1 5 (empty_mc 0)))))) = None"
  by (rule memory_cache_loses_reset_key [where ks = "[''b'']"])
    (simp_all add: mc_ok_def mc_set_def mc_del_def empty_mc_def mc_max_def default_env_def map_del_def
      mc_evict_def Let_def)

end
