(* ===== verification/Documents.thy ===== *)
theory Documents
  imports Yjs Access Lock MemoryCache
begin

text \<open>
  \<open>DocumentsService\<close> (\<open>api/src/documents/documents.service.ts\<close>): documents, their permissions, and
  the document state: reading it through two caches, applying an update under a lock with an
  append-only log, snapshots, rollback, repair. The state of the service is Redis, the memory cache
  of the process and the database. \<open>applyYUpdate\<close> reads the stored state before it takes the lock, so
  it is split there: \<open>ap_prepare\<close> is what it does with the state it read, \<open>ap_commit\<close> the rest; the
  write transaction \<open>ap_write\<close> changes the database as a whole or not at all.
\<close>

section \<open>State\<close>

record api =
  a_redis :: redis
  a_mem :: "json mem_cache"
  a_db :: db

text \<open>One clock for all.\<close>

definition api_clock :: "api \<Rightarrow> int" where
  "api_clock st = clock (a_redis st)"

definition api_tick :: "int \<Rightarrow> api \<Rightarrow> api" where
  "api_tick t st = st\<lparr>a_redis := tick t (a_redis st), a_mem := mc_pass t (a_mem st)\<rparr>"

definition audit :: "env \<Rightarrow> string \<Rightarrow> (string \<times> json) list \<Rightarrow> api \<Rightarrow> api" where
  "audit E ev details st = st\<lparr>a_redis := sec_log E ev details (a_redis st)\<rparr>"

definition with_redis :: "(redis \<Rightarrow> redis) \<Rightarrow> api \<Rightarrow> api" where
  "with_redis f st = st\<lparr>a_redis := f (a_redis st)\<rparr>"

section \<open>Reading the document state\<close>

definition y_key :: "string \<Rightarrow> string" where
  "y_key docId = tmpl ''doc:y:'' docId"

text \<open>The object \<open>{ update, vector }\<close> that is cached and sent.\<close>

definition y_out :: "bytes \<Rightarrow> bytes \<Rightarrow> json" where
  "y_out upd vec = JObj [(''update'', JStr (b64_encode upd)), (''vector'', JStr (b64_encode vec))]"

definition mem_put :: "env \<Rightarrow> string \<Rightarrow> json \<Rightarrow> api \<Rightarrow> api" where
  "mem_put E docId out st = st\<lparr>a_mem := mc_set E (y_key docId) out (mem_cache_y_ttl E) (a_mem st)\<rparr>"

definition cache_put :: "env \<Rightarrow> string \<Rightarrow> json \<Rightarrow> api \<Rightarrow> api" where
  "cache_put E docId out st =
     with_redis (cache_setJson (y_key docId) out (redis_cache_y_ttl E)) (mem_put E docId out st)"

definition count_hit :: "string \<Rightarrow> api \<Rightarrow> api" where
  "count_hit k st = with_redis (\<lambda>r. snd (cache_incr k None r)) st"

text \<open>The part of \<open>getYState\<close> behind both caches.\<close>

definition getYState_stored :: "env \<Rightarrow> 'y ylib \<Rightarrow> string \<Rightarrow> api \<Rightarrow> (api_error + json) \<times> api" where
  "getYState_stored E L docId st =
     (case findByDocumentId docId (a_db st) of
        None \<Rightarrow>
          let out = y_out (y_encode L (y_empty L)) (y_vector L (y_empty L))
          in (Inr out, cache_put E docId out st)
      | Some rec \<Rightarrow>
          (case gunzip L (c_state rec) of
             None \<Rightarrow> (Inl (Crash ''gunzip''), st)
           | Some raw \<Rightarrow>
               let st1 = (case c_checksum rec of
                            Some c \<Rightarrow> if c \<noteq> [] \<and> sha256 L raw \<noteq> c
                              then audit E ''doc.integrity.mismatch'' [(''documentId'', JStr docId)] st else st
                          | None \<Rightarrow> st);
                   st2 = audit E ''doc.state.get'' [(''documentId'', JStr docId)] st1;
                   out = y_out raw (c_vector rec)
               in (Inr out, cache_put E docId out st2)))"

definition getYState :: "env \<Rightarrow> 'y ylib \<Rightarrow> string \<Rightarrow> api \<Rightarrow> (api_error + json) \<times> api" where
  "getYState E L docId st =
     (let (hit, mem1) = mc_get (y_key docId) (a_mem st); st0 = st\<lparr>a_mem := mem1\<rparr>
      in case hit of
           Some j \<Rightarrow> (Inr j, count_hit ''cache:y:mem:hits'' st0)
         | None \<Rightarrow>
             (case cache_getJson (y_key docId) (a_redis st0) of
                Some j \<Rightarrow> (Inr j, mem_put E docId j (count_hit ''cache:y:redis:hits'' st0))
              | None \<Rightarrow> getYState_stored E L docId (count_hit ''cache:y:miss'' st0)))"

section \<open>Applying an update\<close>

text \<open>The update a client sends: base64 of the update, gzipped or not.\<close>

definition payload_update :: "'y ylib \<Rightarrow> string \<Rightarrow> bytes" where
  "payload_update L b64 =
     (case gunzip L (b64_decode b64) of Some u \<Rightarrow> u | None \<Rightarrow> b64_decode b64)"

definition stored_doc :: "'y ylib \<Rightarrow> content option \<Rightarrow> 'y" where
  "stored_doc L rec = (case rec of
     None \<Rightarrow> y_empty L
   | Some r \<Rightarrow>
       (case gunzip L (c_state r) of
          None \<Rightarrow> y_empty L
        | Some raw \<Rightarrow> (case y_apply L (y_empty L) raw of Some y \<Rightarrow> y | None \<Rightarrow> y_empty L)))"

definition ap_prepare :: "'y ylib \<Rightarrow> string \<Rightarrow> string \<Rightarrow> db \<Rightarrow> (bytes \<times> 'y) option" where
  "ap_prepare L docId updateB64 d =
     (let u = payload_update L updateB64
      in map_option (\<lambda>y. (u, y)) (y_apply L (stored_doc L (findByDocumentId docId d)) u))"

definition size_key :: "string \<Rightarrow> string" where
  "size_key docId = tmpl ''doc:size:'' docId"

definition ap_size :: "env \<Rightarrow> string \<Rightarrow> int \<Rightarrow> api \<Rightarrow> api" where
  "ap_size E docId sizeBytes st =
     (let maxBytes = doc_max_state_bytes E;
          info = [(''documentId'', JStr docId), (''bytes'', JNum sizeBytes)]
      in if sizeBytes > maxBytes then
           with_redis (cache_setJson (size_key docId)
               (JObj [(''level'', JStr ''limit''), (''bytes'', JNum sizeBytes)]) 120)
             (audit E ''doc.size.limit'' info st)
         else if sizeBytes > maxBytes * 8 div 10 then
           with_redis (cache_setJson (size_key docId)
               (JObj [(''level'', JStr ''warn''), (''bytes'', JNum sizeBytes)]) 120)
             (audit E ''doc.size.warn'' info st)
         else with_redis (cache_del (size_key docId)) st)"

definition ap_write :: "env \<Rightarrow> 'y ylib \<Rightarrow> int \<Rightarrow> string \<Rightarrow> bytes \<Rightarrow> 'y \<Rightarrow> db \<Rightarrow> (int \<times> db) option" where
  "ap_write E L now docId u y d =
     (let gz = gzip L (y_encode L y);
          vector = y_vector L y;
          checksum = sha256 L (y_encode L y);
          (v, d1) = doc_incVersion now docId d;
          seq = (case v of Some n \<Rightarrow> n | None \<Rightarrow> 0)
      in case update_append docId seq (gzip L u) (int (length u)) d1 of
           None \<Rightarrow> None
         | Some d2 \<Rightarrow>
             let d3 = upsertState docId gz vector (Some checksum) d2;
                 takeEvery = doc_snapshot_every E;
                 d4 = (if takeEvery \<noteq> 0 \<and> seq mod takeEvery = 0
                       then snd (snap_create now docId seq gz vector (Some checksum) d3) else d3)
             in Some (seq, d4))"

definition ap_compact :: "env \<Rightarrow> string \<Rightarrow> int \<Rightarrow> db \<Rightarrow> db" where
  "ap_compact E docId seq d =
     (let keep = doc_update_keep E in if seq > keep then compactUpTo docId (seq - keep) d else d)"

definition ap_refresh :: "env \<Rightarrow> 'y ylib \<Rightarrow> string \<Rightarrow> bytes \<Rightarrow> 'y \<Rightarrow> api \<Rightarrow> api" where
  "ap_refresh E L docId u y st =
     (let total = countByDocument docId (a_db st);
          st1 = (if total > doc_update_alert_threshold E
                 then audit E ''doc.updatelog.threshold''
                        [(''documentId'', JStr docId), (''total'', JNum total)] st
                 else st);
          st2 = audit E ''doc.update.applied''
                  [(''documentId'', JStr docId), (''bytes'', JNum (int (length u)))] st1;
          st3 = st2\<lparr>a_mem := mc_del (y_key docId) (a_mem st2),
                    a_redis := cache_del (y_key docId) (a_redis st2)\<rparr>
      in cache_put E docId (y_out (y_encode L y) (y_vector L y)) st3)"

definition lock_key :: "string \<Rightarrow> string" where
  "lock_key docId = tmpl ''lock:doc:'' docId"

definition ap_commit ::
  "env \<Rightarrow> 'y ylib \<Rightarrow> string \<Rightarrow> string \<Rightarrow> bytes \<Rightarrow> 'y \<Rightarrow> api \<Rightarrow> (api_error + unit) \<times> api" where
  "ap_commit E L token docId u y st =
     (let st1 = ap_size E docId (int (length (y_encode L y))) st;
          (tok, r1) = acquire (lock_key docId) 5000 token (a_redis st1);
          st2 = st1\<lparr>a_redis := r1\<rparr>
      in case tok of
           None \<Rightarrow> (Inl (Conflict ''Document is busy, retry''), st2)
         | Some t \<Rightarrow>
             (case ap_write E L (api_clock st2) docId u y (a_db st2) of
                None \<Rightarrow> (Inl (Crash ''duplicate key''), with_redis (release (lock_key docId) t) st2)
              | Some (seq, d1) \<Rightarrow>
                  (Inr (), ap_refresh E L docId u y
                     (with_redis (release (lock_key docId) t)
                       (st2\<lparr>a_db := ap_compact E docId seq d1\<rparr>)))))"

definition applyYUpdate ::
  "env \<Rightarrow> 'y ylib \<Rightarrow> string \<Rightarrow> string \<Rightarrow> string \<Rightarrow> api \<Rightarrow> (api_error + unit) \<times> api" where
  "applyYUpdate E L token docId updateB64 st =
     (case ap_prepare L docId updateB64 (a_db st) of
        None \<Rightarrow> (Inl (Crash ''applyUpdate''), st)
      | Some (u, y) \<Rightarrow> ap_commit E L token docId u y st)"

section \<open>Rollback\<close>

definition rollbackToSnapshot ::
  "env \<Rightarrow> string \<Rightarrow> string \<Rightarrow> api \<Rightarrow> (api_error + unit) \<times> api" where
  "rollbackToSnapshot E docId snapshotId st =
     (case snap_findById snapshotId (a_db st) of
        None \<Rightarrow> (Inl (NotFound ''Snapshot not found''), st)
      | Some sn \<Rightarrow>
          if s_documentId sn \<noteq> docId then (Inl (NotFound ''Snapshot not found''), st)
          else
            let st1 = st\<lparr>a_db := upsertState docId (s_state sn) (s_vector sn) (s_checksum sn) (a_db st)\<rparr>;
                st2 = st1\<lparr>a_mem := mc_del (y_key docId) (a_mem st1),
                          a_redis := cache_del (y_key docId) (a_redis st1)\<rparr>
            in (Inr (), audit E ''doc.rollback''
                  [(''documentId'', JStr docId), (''snapshotId'', JStr snapshotId)] st2))"

section \<open>What the writes do to the collections\<close>

lemma api_simps [simp]:
  "a_db (audit E ev details st) = a_db st" "a_mem (audit E ev details st) = a_mem st"
  "a_db (with_redis f st) = a_db st" "a_mem (with_redis f st) = a_mem st"
  "a_redis (with_redis f st) = f (a_redis st)"
  "a_redis (audit E ev details st) = sec_log E ev details (a_redis st)"
  "a_db (mem_put E i out st) = a_db st" "a_redis (mem_put E i out st) = a_redis st"
  "a_db (cache_put E i out st) = a_db st" "a_db (count_hit k st) = a_db st"
  "a_mem (count_hit k st) = a_mem st"
  by (simp_all add: audit_def with_redis_def mem_put_def cache_put_def count_hit_def)

lemma findByDocumentId_upsert:
  "findByDocumentId i (upsertState j s v c d) =
     (if i = j then Some \<lparr>c_documentId = j, c_state = s, c_vector = v, c_checksum = c\<rparr>
      else findByDocumentId i d)"
proof (cases "i = j")
  case True
  have "find (\<lambda>c. c_documentId c = j) (upsert_row (\<lambda>c. c_documentId c = j)
      (\<lambda>c'. c'\<lparr>c_state := s, c_vector := v, c_checksum := c\<rparr>)
      \<lparr>c_documentId = j, c_state = s, c_vector = v, c_checksum = c\<rparr> (contents d))
    = Some \<lparr>c_documentId = j, c_state = s, c_vector = v, c_checksum = c\<rparr>"
    by (subst find_upsert) (auto split: option.split dest: find_Some_set)
  with True show ?thesis by (simp add: findByDocumentId_def upsertState_def)
next
  case False
  then show ?thesis
    by (auto simp: findByDocumentId_def upsertState_def intro!: find_upsert_other)
qed

lemma contents_frame [simp]:
  "contents (snd (doc_update now i f d)) = contents d"
  "contents (snd (doc_incVersion now i d)) = contents d"
  "update_append i seq u n d = Some d' \<Longrightarrow> contents d' = contents d"
  "contents (snd (snap_create now i seq s v c d)) = contents d"
  "contents (compactUpTo i seq d) = contents d"
  "contents (ap_compact E i seq d) = contents d"
  by (auto simp: doc_update_def doc_incVersion_def update_append_def snap_create_def compactUpTo_def
      ap_compact_def Let_def split: if_splits prod.splits)

lemma findByDocumentId_cong: "contents d = contents d' \<Longrightarrow> findByDocumentId i d = findByDocumentId i d'"
  by (simp add: findByDocumentId_def)

lemma ap_write_content:
  assumes "ap_write E L now docId u y d = Some (seq, d')"
  shows "findByDocumentId i d' =
    (if i = docId then Some \<lparr>c_documentId = docId, c_state = gzip L (y_encode L y),
        c_vector = y_vector L y, c_checksum = Some (sha256 L (y_encode L y))\<rparr>
     else findByDocumentId i d)"
proof -
  obtain v d1 where v: "doc_incVersion now docId d = (v, d1)" by (cases "doc_incVersion now docId d")
  have d1: "contents d1 = contents d" using v contents_frame(2) [of now docId d] by simp
  obtain d2 where d2: "update_append docId (case v of Some n \<Rightarrow> n | None \<Rightarrow> 0) (gzip L u) (int (length u)) d1
      = Some d2"
    using assms v by (auto simp: ap_write_def Let_def split: option.splits)
  have "contents d' = contents (upsertState docId (gzip L (y_encode L y)) (y_vector L y)
      (Some (sha256 L (y_encode L y))) d2)"
    using assms v d2 by (auto simp: ap_write_def Let_def)
  then have "findByDocumentId i d' = findByDocumentId i (upsertState docId (gzip L (y_encode L y))
      (y_vector L y) (Some (sha256 L (y_encode L y))) d2)"
    by (rule findByDocumentId_cong)
  moreover have "findByDocumentId i d2 = findByDocumentId i d"
    using contents_frame(3) [OF d2] d1 by (auto intro: findByDocumentId_cong)
  ultimately show ?thesis by (simp add: findByDocumentId_upsert)
qed

section \<open>The stored document and the updates\<close>

text \<open>The document a database holds for an identifier.\<close>

definition doc_state :: "'y ylib \<Rightarrow> string \<Rightarrow> db \<Rightarrow> 'y" where
  "doc_state L docId d = stored_doc L (findByDocumentId docId d)"

lemma stored_doc_encoded:
  assumes "yjs_laws L join dec" and "zip_laws L"
  shows "stored_doc L (Some \<lparr>c_documentId = i, c_state = gzip L (y_encode L y), c_vector = v, c_checksum = c\<rparr>) = y"
  using assms(2)
  by (simp add: stored_doc_def zip_laws_def yjs_apply [OF assms(1)] yjs_dec_encode [OF assms(1)]
      yjs_ac [OF assms(1)])

lemma ap_commit_db:
  assumes "ap_commit E L token docId u y st = (Inr (), st')"
  obtains seq d1 where "ap_write E L (api_clock st) docId u y (a_db st) = Some (seq, d1)"
    "a_db st' = ap_compact E docId seq d1"
proof -
  let ?st1 = "ap_size E docId (int (length (y_encode L y))) st"
  have db: "a_db ?st1 = a_db st" by (simp add: ap_size_def Let_def)
  have clk: "clock (a_redis ?st1) = clock (a_redis st)" by (simp add: ap_size_def Let_def)
  obtain tok r1 where l: "acquire (lock_key docId) 5000 token (a_redis ?st1) = (tok, r1)"
    by (cases "acquire (lock_key docId) 5000 token (a_redis ?st1)")
  have r1: "clock r1 = clock (a_redis st)"
    using lock_frame(3) [of "lock_key docId" 5000 token "a_redis ?st1"] l clk by simp
  show ?thesis
    using assms l db r1 that
    by (auto simp: ap_commit_def Let_def api_clock_def ap_refresh_def split: option.splits)
qed

lemma doc_state_compact [simp]: "doc_state L i (ap_compact E docId seq d) = doc_state L i d"
  by (simp add: doc_state_def findByDocumentId_def)

lemma ap_commit_state:
  assumes "yjs_laws L join dec" and "zip_laws L"
    and "ap_commit E L token docId u y st = (Inr (), st')"
  shows "doc_state L i (a_db st') = (if i = docId then y else doc_state L i (a_db st))"
proof -
  obtain seq d1 where w: "ap_write E L (api_clock st) docId u y (a_db st) = Some (seq, d1)"
    and d: "a_db st' = ap_compact E docId seq d1"
    using assms(3) by (rule ap_commit_db)
  show ?thesis
    unfolding d doc_state_compact
    using ap_write_content [OF w, of i] stored_doc_encoded [OF assms(1,2)]
    by (simp add: doc_state_def)
qed

lemma applyYUpdate_cases:
  assumes "applyYUpdate E L token docId b64 st = (Inr (), st')"
  obtains y where "y_apply L (doc_state L docId (a_db st)) (payload_update L b64) = Some y"
    "ap_commit E L token docId (payload_update L b64) y st = (Inr (), st')"
  using assms
  by (auto simp: applyYUpdate_def ap_prepare_def Let_def doc_state_def split: option.splits)

lemma applyYUpdate_state:
  assumes "yjs_laws L join dec" and "zip_laws L"
    and "applyYUpdate E L token docId b64 st = (Inr (), st')"
  shows "\<exists>v. dec (payload_update L b64) = Some v
    \<and> doc_state L docId (a_db st') = join (doc_state L docId (a_db st)) v
    \<and> (\<forall>i. i \<noteq> docId \<longrightarrow> doc_state L i (a_db st') = doc_state L i (a_db st))"
proof -
  obtain y where y: "y_apply L (doc_state L docId (a_db st)) (payload_update L b64) = Some y"
    and c: "ap_commit E L token docId (payload_update L b64) y st = (Inr (), st')"
    using assms(3) by (rule applyYUpdate_cases)
  show ?thesis
    using y ap_commit_state [OF assms(1,2) c] by (auto simp: yjs_apply [OF assms(1)])
qed

text \<open>A run of calls of \<open>applyYUpdate\<close> on one document; \<open>None\<close> when one of them fails.\<close>

fun apply_run :: "env \<Rightarrow> 'y ylib \<Rightarrow> string \<Rightarrow> (string \<times> string) list \<Rightarrow> api \<Rightarrow> api option" where
  "apply_run E L docId [] st = Some st"
| "apply_run E L docId ((token, b64) # us) st =
     (case applyYUpdate E L token docId b64 st of
        (Inl _, _) \<Rightarrow> None
      | (Inr _, st') \<Rightarrow> apply_run E L docId us st')"

lemma apply_run_state:
  assumes "yjs_laws L join dec" and "zip_laws L" and "apply_run E L docId us st = Some st'"
  shows "doc_state L docId (a_db st') =
    joined join dec (map (payload_update L \<circ> snd) us) (doc_state L docId (a_db st))"
  using assms(3)
proof (induction us arbitrary: st)
  case (Cons p us)
  obtain token b64 where p: "p = (token, b64)" by (cases p)
  from Cons.prems p obtain x st1 where a: "applyYUpdate E L token docId b64 st = (Inr x, st1)"
    and r: "apply_run E L docId us st1 = Some st'"
    by (auto split: prod.splits sum.splits)
  have "applyYUpdate E L token docId b64 st = (Inr (), st1)" using a by simp
  from applyYUpdate_state [OF assms(1,2) this] Cons.IH [OF r] p show ?case by auto
qed simp

section \<open>When an update is accepted\<close>

text \<open>
  The invariant of the update log: the document exists and its version is at least every sequence
  number in the log, so the next append does not collide.
\<close>

definition log_inv :: "string \<Rightarrow> db \<Rightarrow> bool" where
  "log_inv docId d \<longleftrightarrow>
     (case doc_findById docId d of
        None \<Rightarrow> False
      | Some x \<Rightarrow> \<forall>u \<in> set (updates d). u_documentId u = docId \<longrightarrow> u_seq u \<le> d_version x)"

lemma doc_findById_update:
  "doc_findById i (snd (doc_update now i f d)) =
     map_option (\<lambda>x. (f x)\<lparr>d_id := d_id x, d_updatedAt := now\<rparr>) (doc_findById i d)"
  unfolding doc_findById_def doc_update_def Let_def by (simp add: find_update)

lemma doc_incVersion_eq:
  "doc_findById i d = Some x \<Longrightarrow> fst (doc_incVersion now i d) = Some (d_version x + 1)
     \<and> doc_findById i (snd (doc_incVersion now i d)) = Some (x\<lparr>d_version := d_version x + 1, d_updatedAt := now\<rparr>)
     \<and> updates (snd (doc_incVersion now i d)) = updates d"
  using doc_findById_update [of i now "\<lambda>x. x\<lparr>d_version := d_version x + 1\<rparr>" d]
  by (auto simp: doc_incVersion_def doc_update_def Let_def)

lemma doc_frame [simp]:
  "doc_findById i (upsertState j s v c d) = doc_findById i d"
  "doc_findById i (snd (snap_create now j n s v c d)) = doc_findById i d"
  "doc_findById i (compactUpTo j n d) = doc_findById i d"
  "updates (upsertState j s v c d) = updates d"
  "updates (snd (snap_create now j n s v c d)) = updates d"
  by (simp_all add: doc_findById_def upsertState_def snap_create_def compactUpTo_def Let_def)

lemma ap_write_succeeds:
  assumes "doc_findById docId d = Some x"
    and "\<forall>u \<in> set (updates d). u_documentId u = docId \<longrightarrow> u_seq u \<le> d_version x"
  shows "\<exists>d'. ap_write E L now docId u y d = Some (d_version x + 1, d')
    \<and> doc_findById docId d' = Some (x\<lparr>d_version := d_version x + 1, d_updatedAt := now\<rparr>)
    \<and> updates d' = updates d @ [\<lparr>u_documentId = docId, u_seq = d_version x + 1,
        u_update = gzip L u, u_sizeBytes = int (length u)\<rparr>]"
proof -
  obtain v d1 where v: "doc_incVersion now docId d = (v, d1)" by (cases "doc_incVersion now docId d")
  from doc_incVersion_eq [OF assms(1), of now] v
  have 1: "v = Some (d_version x + 1)"
    "doc_findById docId d1 = Some (x\<lparr>d_version := d_version x + 1, d_updatedAt := now\<rparr>)"
    "updates d1 = updates d" by simp_all
  have "\<not> (\<exists>w \<in> set (updates d1). u_documentId w = docId \<and> u_seq w = d_version x + 1)"
    using assms(2) 1(3) by force
  then obtain d2 where 2: "update_append docId (d_version x + 1) (gzip L u) (int (length u)) d1 = Some d2"
    "updates d2 = updates d1 @ [\<lparr>u_documentId = docId, u_seq = d_version x + 1,
        u_update = gzip L u, u_sizeBytes = int (length u)\<rparr>]" "docs d2 = docs d1"
    by (auto simp: update_append_def)
  have "doc_findById docId d2 = doc_findById docId d1" using 2(3) by (simp add: doc_findById_def)
  with 1 2 v show ?thesis by (simp add: ap_write_def Let_def)
qed

lemma ap_compact_frame:
  "doc_findById i (ap_compact E j n d) = doc_findById i d"
  "set (updates (ap_compact E j n d)) \<subseteq> set (updates d)"
  by (auto simp: ap_compact_def Let_def compactUpTo_def doc_findById_def)

text \<open>The lock of a document is touched by nothing but \<open>acquire\<close> and \<open>release\<close>.\<close>

lemma doc_keys [simp]:
  "\<not> log_key (y_key i)" "\<not> log_key (lock_key i)" "\<not> log_key (size_key i)"
  "y_key i \<noteq> lock_key j" "y_key i \<noteq> size_key j" "lock_key j \<noteq> y_key i" "lock_key i \<noteq> size_key j"
  "y_key i = y_key j \<longleftrightarrow> i = j" "y_key i \<noteq> []"
  "y_key i \<noteq> ''cache:y:mem:hits''" "y_key i \<noteq> ''cache:y:redis:hits''" "y_key i \<noteq> ''cache:y:miss''"
  by (simp_all add: y_key_def lock_key_def size_key_def log_key_def) (simp add: tmpl_def)

lemma ap_size_frame [simp]:
  "k \<noteq> size_key docId \<Longrightarrow> \<not> log_key k \<Longrightarrow> entry (a_redis (ap_size E docId n st)) k = entry (a_redis st) k"
  "clock (a_redis (ap_size E docId n st)) = clock (a_redis st)"
  "a_db (ap_size E docId n st) = a_db st" "a_mem (ap_size E docId n st) = a_mem st"
  by (simp_all add: ap_size_def Let_def key_simps entry_sec_log)

lemma ap_refresh_frame [simp]:
  "k \<noteq> y_key docId \<Longrightarrow> \<not> log_key k \<Longrightarrow>
     entry (a_redis (ap_refresh E L docId u y st)) k = entry (a_redis st) k"
  "clock (a_redis (ap_refresh E L docId u y st)) = clock (a_redis st)"
  "a_db (ap_refresh E L docId u y st) = a_db st"
  by (simp_all add: ap_refresh_def Let_def cache_put_def key_simps entry_sec_log)

lemma ap_commit_accepted:
  assumes "log_inv docId (a_db st)" and "entry (a_redis st) (lock_key docId) = None"
  shows "fst (ap_commit E L token docId u y st) = Inr ()
    \<and> log_inv docId (a_db (snd (ap_commit E L token docId u y st)))
    \<and> entry (a_redis (snd (ap_commit E L token docId u y st))) (lock_key docId) = None
    \<and> map_option d_version (doc_findById docId (a_db (snd (ap_commit E L token docId u y st)))) =
        map_option (\<lambda>x. d_version x + 1) (doc_findById docId (a_db st))"
proof -
  obtain x where x: "doc_findById docId (a_db st) = Some x"
    and inv: "\<forall>w \<in> set (updates (a_db st)). u_documentId w = docId \<longrightarrow> u_seq w \<le> d_version x"
    using assms(1) by (auto simp: log_inv_def split: option.splits)
  let ?st1 = "ap_size E docId (int (length (y_encode L y))) st"
  have "entry (a_redis ?st1) (lock_key docId) = None" using assms(2) by simp
  then have l: "acquire (lock_key docId) 5000 token (a_redis ?st1) =
      (Some token, put (lock_key docId) (RText (Txt token)) (Some (clock (a_redis ?st1) + 5000)) (a_redis ?st1))"
    (is "_ = (_, ?r1)") by (rule acquire_free)
  obtain d' where w: "ap_write E L (clock (a_redis st)) docId u y (a_db st) = Some (d_version x + 1, d')"
    and d': "doc_findById docId d' = Some (x\<lparr>d_version := d_version x + 1, d_updatedAt := clock (a_redis st)\<rparr>)"
    "updates d' = updates (a_db st) @ [\<lparr>u_documentId = docId, u_seq = d_version x + 1,
        u_update = gzip L u, u_sizeBytes = int (length u)\<rparr>]"
    using ap_write_succeeds [OF x inv, of E L "clock (a_redis st)" u y] by auto
  let ?st2 = "with_redis (release (lock_key docId) token)
    (?st1\<lparr>a_redis := ?r1, a_db := ap_compact E docId (d_version x + 1) d'\<rparr>)"
  have r: "ap_commit E L token docId u y st = (Inr (), ap_refresh E L docId u y ?st2)"
    using l w by (simp add: ap_commit_def Let_def api_clock_def)
  have "r_get (lock_key docId) ?r1 = Some (Txt token)" by (simp add: r_get_def key_simps)
  then have free: "entry (a_redis ?st2) (lock_key docId) = None"
    by (simp add: release_def key_simps)
  have "\<forall>w \<in> set (updates d'). u_documentId w = docId \<longrightarrow> u_seq w \<le> d_version x + 1"
    using inv unfolding d'(2) by (auto intro: add_increasing2)
  then have "\<forall>w \<in> set (updates (ap_compact E docId (d_version x + 1) d')).
      u_documentId w = docId \<longrightarrow> u_seq w \<le> d_version x + 1"
    using ap_compact_frame(2) [of E docId "d_version x + 1" d'] by blast
  then have "log_inv docId (ap_compact E docId (d_version x + 1) d')"
    by (simp add: log_inv_def ap_compact_frame(1) d'(1))
  with r free d' x show ?thesis by (simp add: ap_compact_frame(1))
qed

lemma applyYUpdate_commit:
  assumes "yjs_laws L join dec" and "dec (payload_update L b64) = Some v"
  shows "applyYUpdate E L token docId b64 st =
    ap_commit E L token docId (payload_update L b64) (join (doc_state L docId (a_db st)) v) st"
  using assms(2)
  by (simp add: applyYUpdate_def ap_prepare_def Let_def yjs_apply [OF assms(1)] doc_state_def)

text \<open>C4: an update that decodes is accepted when the document exists, its log is in order and nobody
  holds its lock; afterwards the document's version is one higher, the update is the last entry of
  the log under that number, the log is still in order and the lock is free again.\<close>

theorem update_accepted:
  assumes "yjs_laws L join dec" and "dec (payload_update L b64) = Some v"
    and "log_inv docId (a_db st)" and "entry (a_redis st) (lock_key docId) = None"
  shows "fst (applyYUpdate E L token docId b64 st) = Inr ()
    \<and> log_inv docId (a_db (snd (applyYUpdate E L token docId b64 st)))
    \<and> entry (a_redis (snd (applyYUpdate E L token docId b64 st))) (lock_key docId) = None
    \<and> map_option d_version (doc_findById docId (a_db (snd (applyYUpdate E L token docId b64 st)))) =
        map_option (\<lambda>x. d_version x + 1) (doc_findById docId (a_db st))"
  using ap_commit_accepted [OF assms(3,4)] by (simp add: applyYUpdate_commit [OF assms(1,2)])

definition demo_api :: api where
  "demo_api = \<lparr>a_redis = empty_redis 0, a_mem = empty_mc 0, a_db = demo_db\<rparr>"

lemma demo_api_ok: "log_inv ''d'' (a_db demo_api)" "entry (a_redis demo_api) k = None"
  by (simp_all add: log_inv_def demo_api_def demo_db_def demo_doc_def empty_db_def doc_findById_def
      entry_def empty_redis_def)

lemma update_accepted_witness:
  "fst (applyYUpdate default_env byte_lib ''t'' ''d'' (b64_encode [1, 2]) demo_api) = Inr ()"
  using update_accepted [OF byte_lib_laws(1) refl demo_api_ok, of default_env "''t''" "b64_encode [1, 2]"] by simp

lemma apply_run_accepted:
  assumes "yjs_laws L join dec" and "\<forall>u. dec u \<noteq> None"
    and "log_inv docId (a_db st)" and "entry (a_redis st) (lock_key docId) = None"
  shows "apply_run E L docId us st \<noteq> None"
  using assms(3,4)
proof (induction us arbitrary: st)
  case (Cons p us)
  obtain token b64 where p: "p = (token, b64)" by (cases p)
  obtain v where v: "dec (payload_update L b64) = Some v" using assms(2) by blast
  obtain r st1 where a: "applyYUpdate E L token docId b64 st = (r, st1)"
    by (cases "applyYUpdate E L token docId b64 st")
  have "r = Inr () \<and> log_inv docId (a_db st1) \<and> entry (a_redis st1) (lock_key docId) = None"
    using ap_commit_accepted [OF Cons.prems] a applyYUpdate_commit [OF assms(1) v] by (metis fst_conv snd_conv)
  with a p Cons.IH [of st1] show ?case by simp
qed simp

text \<open>C2: convergence: whatever the order in which updates are applied to a document, and however
  often each, the document stored is the same, as long as the same updates are applied; and it is
  the join of the document there was with all of them.\<close>

theorem updates_converge:
  assumes "yjs_laws L join dec" and "zip_laws L"
    and "apply_run E L docId us st = Some st1" and "apply_run E L docId vs st = Some st2"
    and "set (map (payload_update L \<circ> snd) us) = set (map (payload_update L \<circ> snd) vs)"
  shows "doc_state L docId (a_db st1) = doc_state L docId (a_db st2)
    \<and> doc_state L docId (a_db st1) =
        joined join dec (map (payload_update L \<circ> snd) us) (doc_state L docId (a_db st))"
  using apply_run_state [OF assms(1,2,3)] apply_run_state [OF assms(1,2,4)]
    joined_set [OF assms(1,5)] by simp

lemma updates_converge_witness:
  "\<exists>st1 st2. apply_run default_env byte_lib ''d'' [(''t'', b64_encode [1]), (''u'', b64_encode [2])] demo_api = Some st1
    \<and> apply_run default_env byte_lib ''d'' [(''u'', b64_encode [2]), (''t'', b64_encode [1]), (''v'', b64_encode [1])] demo_api = Some st2
    \<and> doc_state byte_lib ''d'' (a_db st1) = doc_state byte_lib ''d'' (a_db st2)"
proof -
  note ok = apply_run_accepted [OF byte_lib_laws(1) _ demo_api_ok, of default_env, simplified]
  obtain st1 st2 where r: "apply_run default_env byte_lib ''d'' [(''t'', b64_encode [1]), (''u'', b64_encode [2])] demo_api = Some st1"
    "apply_run default_env byte_lib ''d'' [(''u'', b64_encode [2]), (''t'', b64_encode [1]), (''v'', b64_encode [1])] demo_api = Some st2"
    using ok by blast
  from updates_converge [OF byte_lib_laws r] r show ?thesis by auto
qed

section \<open>The caches\<close>

text \<open>What a reader should see: the stored state, as \<open>getYState\<close> builds it from the collection.\<close>

definition shown :: "'y ylib \<Rightarrow> string \<Rightarrow> db \<Rightarrow> json option" where
  "shown L docId d = (case findByDocumentId docId d of
     None \<Rightarrow> Some (y_out (y_encode L (y_empty L)) (y_vector L (y_empty L)))
   | Some rec \<Rightarrow> map_option (\<lambda>raw. y_out raw (c_vector rec)) (gunzip L (c_state rec)))"

text \<open>
  Both caches hold, for every document but those of \<open>X\<close>, nothing or what is stored. The documents
  in \<open>X\<close> are those an operation is in the middle of changing.
\<close>

definition coherent_but :: "string set \<Rightarrow> 'y ylib \<Rightarrow> api \<Rightarrow> bool" where
  "coherent_but X L st \<longleftrightarrow> mc_ok (a_mem st) \<and>
     (\<forall>i j. i \<notin> X \<longrightarrow>
        fst (mc_get (y_key i) (a_mem st)) = Some j \<or> cache_getJson (y_key i) (a_redis st) = Some j
        \<longrightarrow> shown L i (a_db st) = Some j)"

abbreviation coherent :: "'y ylib \<Rightarrow> api \<Rightarrow> bool" where
  "coherent \<equiv> coherent_but {}"

definition env_ok :: "env \<Rightarrow> bool" where
  "env_ok E \<longleftrightarrow> 0 < mem_cache_y_ttl E \<and> 0 < redis_cache_y_ttl E"

lemma coherent_redis:
  assumes "coherent_but X L st" and "\<And>i. entry (a_redis st') (y_key i) = entry (a_redis st) (y_key i)"
    and "a_mem st' = a_mem st" and "a_db st' = a_db st"
  shows "coherent_but X L st'"
proof -
  have "cache_getJson (y_key i) (a_redis st') = cache_getJson (y_key i) (a_redis st)" for i
    using assms(2) by (rule cache_getJson_cong)
  with assms show ?thesis by (simp add: coherent_but_def)
qed

lemma coherent_db:
  assumes "coherent_but X L st" and "a_redis st' = a_redis st" and "a_mem st' = a_mem st"
    and "\<And>i. i \<notin> Y \<Longrightarrow> shown L i (a_db st') = shown L i (a_db st)" and "X \<subseteq> Y"
  shows "coherent_but Y L st'"
  using assms by (auto simp: coherent_but_def)

lemma coherent_weaken: "coherent_but X L st \<Longrightarrow> X \<subseteq> Y \<Longrightarrow> coherent_but Y L st"
  by (auto simp: coherent_but_def)

lemma coherent_put:
  assumes "coherent_but X L st" and "X \<subseteq> {docId}" and "env_ok E" and "shown L docId (a_db st) = Some out"
  shows "coherent_but {} L (cache_put E docId out st)"
proof -
  let ?m = "mc_set E (y_key docId) out (mem_cache_y_ttl E) (a_mem st)"
  let ?r = "cache_setJson (y_key docId) out (redis_cache_y_ttl E) (a_redis st)"
  have ok: "mc_ok (a_mem st)" and ttl: "0 < mem_cache_y_ttl E" "0 < redis_cache_y_ttl E"
    using assms(1,3) by (simp_all add: coherent_but_def env_ok_def)
  have mok: "mc_ok ?m" using ok ttl(1) by (intro memory.set_ok) simp_all
  have m: "fst (mc_get (y_key i) ?m) = Some j \<Longrightarrow>
      if i = docId then j = out else fst (mc_get (y_key i) (a_mem st)) = Some j" for i j
    using memory.get_set [OF ok _ ttl(1), of "y_key docId" "y_key i" E out j] by simp
  have r: "cache_getJson (y_key i) ?r = (if i = docId then Some out else cache_getJson (y_key i) (a_redis st))" for i
  proof (cases "i = docId")
    case True
    with ttl show ?thesis by (simp add: key_simps)
  next
    case False
    then have "entry ?r (y_key i) = entry (a_redis st) (y_key i)" by (simp add: key_simps)
    from cache_getJson_cong [OF this] False show ?thesis by simp
  qed
  show ?thesis
    unfolding coherent_but_def
  proof (intro conjI allI impI)
    show "mc_ok (a_mem (cache_put E docId out st))" using mok by (simp add: cache_put_def mem_put_def)
    fix i j
    assume h: "fst (mc_get (y_key i) (a_mem (cache_put E docId out st))) = Some j \<or>
      cache_getJson (y_key i) (a_redis (cache_put E docId out st)) = Some j"
    show "shown L i (a_db (cache_put E docId out st)) = Some j"
    proof (cases "i = docId")
      case True
      with h m [of i j] r [of i] assms(4) show ?thesis
        by (auto simp: cache_put_def mem_put_def with_redis_def)
    next
      case False
      with h m [of i j] r [of i] assms(1,2) show ?thesis
        by (auto simp: cache_put_def mem_put_def with_redis_def coherent_but_def)
    qed
  qed
qed

lemma coherent_drop:
  assumes "coherent_but X L st" and "X \<subseteq> {docId}"
  shows "coherent_but {} L (st\<lparr>a_mem := mc_del (y_key docId) (a_mem st),
     a_redis := cache_del (y_key docId) (a_redis st)\<rparr>)"
proof -
  have ok: "mc_ok (a_mem st)" using assms(1) by (simp add: coherent_but_def)
  have m: "fst (mc_get (y_key i) (mc_del (y_key docId) (a_mem st))) = Some j \<Longrightarrow>
      i \<noteq> docId \<and> fst (mc_get (y_key i) (a_mem st)) = Some j" for i j
    using memory.get_del [OF ok, of "y_key i" "y_key docId" j] by auto
  have r: "cache_getJson (y_key i) (cache_del (y_key docId) (a_redis st)) =
      (if i = docId then None else cache_getJson (y_key i) (a_redis st))" for i
  proof (cases "i = docId")
    case False
    then have "entry (cache_del (y_key docId) (a_redis st)) (y_key i) = entry (a_redis st) (y_key i)"
      by (simp add: key_simps)
    from cache_getJson_cong [OF this] False show ?thesis by simp
  qed (simp add: key_simps)
  show ?thesis
    using assms ok m r mc_del_ok [OF ok] unfolding coherent_but_def
    by (simp split: if_splits) blast
qed

lemma entry_incr_other: "k' \<noteq> k \<Longrightarrow> entry (snd (cache_incr k t s)) k' = entry s k'"
  by (rule cache_other(3))

lemma shown_stored_cases:
  assumes "getYState_stored E L docId st = (r, st')"
  shows "(\<exists>out. r = Inr out \<and> shown L docId (a_db st) = Some out) \<or>
     ((\<exists>e. r = Inl e) \<and> shown L docId (a_db st) = None)"
  using assms by (auto simp: getYState_stored_def shown_def Let_def split: option.splits)

lemma coherent_audit: "coherent_but X L st \<Longrightarrow> coherent_but X L (audit E ev details st)"
  by (erule coherent_redis) (simp_all add: entry_sec_log)

lemma coherent_stored:
  assumes "coherent L st" and "env_ok E" and "getYState_stored E L docId st = (r, st')"
  shows "coherent L st'"
proof (cases "findByDocumentId docId (a_db st)")
  case None
  then have "shown L docId (a_db st) = Some (y_out (y_encode L (y_empty L)) (y_vector L (y_empty L)))"
    by (simp add: shown_def)
  with coherent_put [OF assms(1) _ assms(2) this] None assms(3) show ?thesis
    by (simp add: getYState_stored_def Let_def)
next
  case (Some rec)
  show ?thesis
  proof (cases "gunzip L (c_state rec)")
    case None
    with Some assms show ?thesis by (simp add: getYState_stored_def)
  next
    case (Some raw)
    let ?out = "y_out raw (c_vector rec)"
    have sh: "shown L docId (a_db st) = Some ?out"
      using Some \<open>findByDocumentId docId (a_db st) = Some rec\<close> by (simp add: shown_def)
    define st1 where "st1 = (case c_checksum rec of
       Some c \<Rightarrow> if c \<noteq> [] \<and> sha256 L raw \<noteq> c
         then audit E ''doc.integrity.mismatch'' [(''documentId'', JStr docId)] st else st
       | None \<Rightarrow> st)"
    define st2 where "st2 = audit E ''doc.state.get'' [(''documentId'', JStr docId)] st1"
    have c1: "coherent L st1 \<and> a_db st1 = a_db st"
      using assms(1) coherent_audit by (auto simp: st1_def split: option.split)
    then have "coherent L st2" "a_db st2 = a_db st" by (simp_all add: st2_def coherent_audit)
    then have "coherent L (cache_put E docId ?out st2)"
      using sh by (intro coherent_put [where X = "{}", OF _ _ assms(2)]) simp_all
    moreover have "st' = cache_put E docId ?out st2"
      using assms(3) Some \<open>findByDocumentId docId (a_db st) = Some rec\<close>
      by (auto simp: getYState_stored_def Let_def st1_def st2_def)
    ultimately show ?thesis by simp
  qed
qed

lemma coherent_mem_put:
  assumes "coherent L st" and "env_ok E" and "shown L docId (a_db st) = Some out"
  shows "coherent L (mem_put E docId out st)"
proof -
  have ok: "mc_ok (a_mem st)" and ttl: "0 < mem_cache_y_ttl E"
    using assms(1,2) by (simp_all add: coherent_but_def env_ok_def)
  have mok: "mc_ok (mc_set E (y_key docId) out (mem_cache_y_ttl E) (a_mem st))"
    using ok ttl by (intro memory.set_ok) simp_all
  have m: "fst (mc_get (y_key i) (mc_set E (y_key docId) out (mem_cache_y_ttl E) (a_mem st))) = Some j \<Longrightarrow>
      if i = docId then j = out else fst (mc_get (y_key i) (a_mem st)) = Some j" for i j
    using memory.get_set [OF ok _ ttl, of "y_key docId" "y_key i" E out j] by simp
  show ?thesis
    unfolding coherent_but_def
  proof (intro conjI allI impI)
    show "mc_ok (a_mem (mem_put E docId out st))" using mok by (simp add: mem_put_def)
    fix i j
    assume "fst (mc_get (y_key i) (a_mem (mem_put E docId out st))) = Some j \<or>
      cache_getJson (y_key i) (a_redis (mem_put E docId out st)) = Some j"
    with m [of i j] assms(1,3) show "shown L i (a_db (mem_put E docId out st)) = Some j"
      by (cases "i = docId") (auto simp: mem_put_def coherent_but_def)
  qed
qed

text \<open>Reading: what is returned is what is stored, and the caches stay coherent.\<close>

lemma getYState_coherent:
  assumes "coherent L st" and "env_ok E" and "getYState E L docId st = (r, st')"
  shows "coherent L st' \<and> a_db st' = a_db st \<and>
    (case r of Inr out \<Rightarrow> shown L docId (a_db st) = Some out | Inl _ \<Rightarrow> shown L docId (a_db st) = None)"
proof -
  obtain hit mem1 where g: "mc_get (y_key docId) (a_mem st) = (hit, mem1)"
    by (cases "mc_get (y_key docId) (a_mem st)")
  let ?st0 = "st\<lparr>a_mem := mem1\<rparr>"
  have ok: "mc_ok (a_mem st)" using assms(1) by (simp add: coherent_but_def)
  have c0: "coherent L ?st0"
    using assms(1) memory.get_ok [OF ok, of "y_key docId"] memory.get_get [OF ok, of _ "y_key docId"] g
    unfolding coherent_but_def by auto
  have count: "coherent L (count_hit k ?st0)" if "\<And>i. y_key i \<noteq> k" for k
    using c0 by (rule coherent_redis) (simp_all add: count_hit_def entry_incr_other that)
  show ?thesis
  proof (cases hit)
    case (Some j)
    then have "shown L docId (a_db st) = Some j"
      using assms(1) g by (simp add: coherent_but_def)
    with Some g assms(3) count [of "''cache:y:mem:hits''"] show ?thesis
      by (auto simp: getYState_def Let_def)
  next
    case None
    show ?thesis
    proof (cases "cache_getJson (y_key docId) (a_redis st)")
      case (Some j)
      then have sh: "shown L docId (a_db st) = Some j" using assms(1) by (simp add: coherent_but_def)
      have "coherent L (mem_put E docId j (count_hit ''cache:y:redis:hits'' ?st0))"
        using sh by (intro coherent_mem_put assms(2) count) simp_all
      with None Some sh g assms(3) show ?thesis by (auto simp: getYState_def Let_def)
    next
      case n: None
      let ?st1 = "count_hit ''cache:y:miss'' ?st0"
      have s: "getYState_stored E L docId ?st1 = (r, st')"
        using None n g assms(3) by (simp add: getYState_def Let_def)
      have db: "a_db st' = a_db st"
        using s by (auto simp: getYState_stored_def Let_def split: option.splits if_splits)
      have "coherent L st'"
        by (rule coherent_stored [OF _ assms(2) s]) (intro count, simp)
      with db shown_stored_cases [OF s] show ?thesis by (auto split: sum.split)
    qed
  qed
qed

lemma shown_upsert_other:
  "i \<noteq> docId \<Longrightarrow> shown L i (upsertState docId s v c d) = shown L i d"
  by (simp add: shown_def findByDocumentId_upsert)

lemma shown_cong: "contents d = contents d' \<Longrightarrow> shown L i d = shown L i d'"
  by (simp add: shown_def findByDocumentId_def)

lemma ap_write_shown:
  assumes "zip_laws L" and "ap_write E L now docId u y d = Some (seq, d')"
  shows "shown L i d' = (if i = docId then Some (y_out (y_encode L y) (y_vector L y)) else shown L i d)"
  using ap_write_content [OF assms(2), of i] assms(1) by (simp add: shown_def zip_laws_def)

lemma ap_size_coherent: "coherent_but X L st \<Longrightarrow> coherent_but X L (ap_size E docId n st)"
  by (erule coherent_redis) (simp_all add: key_simps)

lemma ap_refresh_coherent:
  assumes "coherent_but {docId} L st" and "env_ok E"
    and "shown L docId (a_db st) = Some (y_out (y_encode L y) (y_vector L y))"
  shows "coherent L (ap_refresh E L docId u y st)"
proof -
  define st1 where "st1 = (if countByDocument docId (a_db st) > doc_update_alert_threshold E
    then audit E ''doc.updatelog.threshold''
      [(''documentId'', JStr docId), (''total'', JNum (countByDocument docId (a_db st)))] st else st)"
  define st2 where "st2 = audit E ''doc.update.applied''
      [(''documentId'', JStr docId), (''bytes'', JNum (int (length u)))] st1"
  define st3 where "st3 = st2\<lparr>a_mem := mc_del (y_key docId) (a_mem st2),
      a_redis := cache_del (y_key docId) (a_redis st2)\<rparr>"
  have "coherent_but {docId} L st1 \<and> a_db st1 = a_db st"
    using assms(1) by (auto simp: st1_def intro: coherent_audit)
  then have "coherent_but {docId} L st2" "a_db st2 = a_db st" by (simp_all add: st2_def coherent_audit)
  then have "coherent L st3" "a_db st3 = a_db st"
    unfolding st3_def by (simp_all add: coherent_drop [where X = "{docId}"])
  then have "coherent L (cache_put E docId (y_out (y_encode L y) (y_vector L y)) st3)"
    using assms(3) by (intro coherent_put [where X = "{}", OF _ _ assms(2)]) simp_all
  moreover have "ap_refresh E L docId u y st = cache_put E docId (y_out (y_encode L y) (y_vector L y)) st3"
    by (simp add: ap_refresh_def Let_def st1_def st2_def st3_def)
  ultimately show ?thesis by simp
qed

lemma ap_commit_coherent:
  assumes "coherent L st" and "env_ok E" and "zip_laws L" and "ap_commit E L token docId u y st = (r, st')"
  shows "coherent L st'"
proof -
  let ?st1 = "ap_size E docId (int (length (y_encode L y))) st"
  obtain tok r1 where l: "acquire (lock_key docId) 5000 token (a_redis ?st1) = (tok, r1)"
    by (cases "acquire (lock_key docId) 5000 token (a_redis ?st1)")
  let ?st2 = "?st1\<lparr>a_redis := r1\<rparr>"
  have c1: "coherent L ?st1" using assms(1) by (rule ap_size_coherent)
  have "entry r1 (y_key i) = entry (a_redis ?st1) (y_key i)" for i
    using lock_frame(1) [of "y_key i" "lock_key docId" 5000 token "a_redis ?st1"] l by simp
  then have c2: "coherent L ?st2" using c1 by (intro coherent_redis [OF c1]) simp_all
  have rel: "coherent_but X L (with_redis (release (lock_key docId) t) st)" if "coherent_but X L st" for X t st
    using that by (rule coherent_redis) (simp_all add: lock_frame)
  show ?thesis
  proof (cases tok)
    case None
    with l assms(4) c2 show ?thesis by (simp add: ap_commit_def Let_def)
  next
    case (Some t)
    show ?thesis
    proof (cases "ap_write E L (api_clock ?st2) docId u y (a_db ?st2)")
      case None
      with Some l assms(4) rel [OF c2] show ?thesis by (auto simp: ap_commit_def Let_def)
    next
      case w: (Some p)
      obtain seq d1 where p: "p = (seq, d1)" by (cases p)
      let ?d2 = "ap_compact E docId seq d1"
      let ?st3 = "with_redis (release (lock_key docId) t) (?st2\<lparr>a_db := ?d2\<rparr>)"
      have sh: "shown L i ?d2 = (if i = docId then Some (y_out (y_encode L y) (y_vector L y))
          else shown L i (a_db ?st2))" for i
        using ap_write_shown [OF assms(3) w [unfolded p], of i] shown_cong [OF contents_frame(6)] by metis
      have "coherent_but {docId} L (?st2\<lparr>a_db := ?d2\<rparr>)"
        using c2 by (rule coherent_db) (simp_all add: sh)
      then have "coherent_but {docId} L ?st3" by (rule rel)
      then have "coherent L (ap_refresh E L docId u y ?st3)"
        by (rule ap_refresh_coherent [OF _ assms(2)]) (simp add: sh)
      moreover have "st' = ap_refresh E L docId u y ?st3"
        using Some w p l assms(4) by (auto simp: ap_commit_def Let_def)
      ultimately show ?thesis by simp
    qed
  qed
qed

lemma applyYUpdate_coherent:
  "coherent L st \<Longrightarrow> env_ok E \<Longrightarrow> zip_laws L \<Longrightarrow> coherent L (snd (applyYUpdate E L token docId b64 st))"
  unfolding applyYUpdate_def
  by (auto split: option.split intro: ap_commit_coherent prod.collapse [symmetric])

lemma rollback_coherent:
  assumes "coherent L st"
  shows "coherent L (snd (rollbackToSnapshot E docId snapId st))"
proof (cases "snap_findById snapId (a_db st)")
  case (Some sn)
  let ?st1 = "st\<lparr>a_db := upsertState docId (s_state sn) (s_vector sn) (s_checksum sn) (a_db st)\<rparr>"
  have "coherent_but {docId} L ?st1"
    using assms by (rule coherent_db) (simp_all add: shown_upsert_other)
  from coherent_audit [OF coherent_drop [OF this order_refl]] Some assms show ?thesis
    by (simp add: rollbackToSnapshot_def Let_def)
qed (simp add: rollbackToSnapshot_def assms)

lemma coherent_tick: "coherent L st \<Longrightarrow> 0 \<le> t \<Longrightarrow> coherent L (api_tick t st)"
  using memory.get_pass [where s = "a_mem st" and d = t] memory.pass_ok [where s = "a_mem st" and d = t]
    shared.get_pass [where s = "a_redis st" and d = t]
  unfolding coherent_but_def api_tick_def redis_cache_get_def by auto

text \<open>The operations of one server on document states, and time.\<close>

datatype y_op = YGet string | YApply string string string | YRollback string string | YPass int

fun y_step :: "env \<Rightarrow> 'y ylib \<Rightarrow> y_op \<Rightarrow> api \<Rightarrow> api" where
  "y_step E L (YGet docId) st = snd (getYState E L docId st)"
| "y_step E L (YApply token docId b64) st = snd (applyYUpdate E L token docId b64 st)"
| "y_step E L (YRollback docId snapId) st = snd (rollbackToSnapshot E docId snapId st)"
| "y_step E L (YPass t) st = api_tick (max 0 t) st"

lemma y_step_coherent: "coherent L st \<Longrightarrow> env_ok E \<Longrightarrow> zip_laws L \<Longrightarrow> coherent L (y_step E L p st)"
proof (cases p)
  case (YGet docId)
  assume "coherent L st" "env_ok E"
  then show ?thesis using YGet getYState_coherent [of L st E docId] by (metis prod.collapse y_step.simps(1))
qed (simp_all add: applyYUpdate_coherent rollback_coherent coherent_tick)

lemma y_steps_coherent:
  "coherent L st \<Longrightarrow> env_ok E \<Longrightarrow> zip_laws L \<Longrightarrow> coherent L (fold (y_step E L) ops st)"
  by (induction ops arbitrary: st) (simp_all add: y_step_coherent)



section \<open>Two writers\<close>

text \<open>the lock does not serialise writers: \<open>applyYUpdate\<close> reads the stored state before it takes the
  lock, so when two calls have both read the same state and then commit one after the other, both
  are accepted and the document stored is as if the first update had never been made (it is in the
  log, with the cached and stored state without it).\<close>

theorem concurrent_update_lost:
  assumes "yjs_laws L join dec" and "zip_laws L"
    and "ap_prepare L docId b1 (a_db st) = Some (u1, y1)" and "ap_prepare L docId b2 (a_db st) = Some (u2, y2)"
    and "log_inv docId (a_db st)" and "entry (a_redis st) (lock_key docId) = None"
    and "ap_commit E L t1 docId u1 y1 st = (r1, st1)" and "ap_commit E L t2 docId u2 y2 st1 = (r2, st2)"
  shows "r1 = Inr () \<and> r2 = Inr ()
    \<and> doc_state L docId (a_db st2) = join (doc_state L docId (a_db st)) (the (dec (payload_update L b2)))"
proof -
  have 1: "r1 = Inr ()" "log_inv docId (a_db st1)" "entry (a_redis st1) (lock_key docId) = None"
    using ap_commit_accepted [OF assms(5,6), of E L t1 u1 y1] assms(7) by simp_all
  have 2: "r2 = Inr ()"
    using ap_commit_accepted [OF 1(2,3), of E L t2 u2 y2] assms(8) by simp
  have "y2 = join (doc_state L docId (a_db st)) (the (dec (payload_update L b2)))"
    using assms(4) by (auto simp: ap_prepare_def Let_def yjs_apply [OF assms(1)] doc_state_def)
  with ap_commit_state [OF assms(1,2), of E t2 docId u2 y2 st1 st2 docId] assms(8) 1 2 show ?thesis by simp
qed

lemma concurrent_update_lost_witness:
  "doc_state byte_lib ''d'' (a_db (snd (ap_commit default_env byte_lib ''t'' ''d'' [2] {2}
     (snd (ap_commit default_env byte_lib ''s'' ''d'' [1] {1} demo_api))))) = {2}"
proof -
  have b: "payload_update byte_lib (b64_encode [1]) = [1]" "payload_update byte_lib (b64_encode [2]) = [2]"
    by (simp_all add: payload_update_def byte_lib_def)
  have e: "doc_state byte_lib ''d'' (a_db demo_api) = {}"
    by (simp add: doc_state_def stored_doc_def findByDocumentId_def demo_api_def demo_db_def empty_db_def byte_lib_def)
  have p: "ap_prepare byte_lib ''d'' (b64_encode [1]) (a_db demo_api) = Some ([1], {1})"
    "ap_prepare byte_lib ''d'' (b64_encode [2]) (a_db demo_api) = Some ([2], {2})"
    using e by (simp_all add: ap_prepare_def b doc_state_def yjs_apply [OF byte_lib_laws(1)])
  from concurrent_update_lost [OF byte_lib_laws p demo_api_ok prod.collapse [symmetric] prod.collapse [symmetric],
      of default_env "''s''" "''t''"] e
  show ?thesis by (simp add: b)
qed

end
