(* ===== verification/UpdateLog.thy ===== *)
theory UpdateLog
  imports Documents
begin

text \<open>
  Rebuilding a document from its update log, as \<open>validateAndRepair\<close>
  (\<open>api/src/documents/documents.service.ts\<close>) and the job \<open>doc.snapshot\<close>
  (\<open>api/src/jobs/document-jobs.service.ts\<close>) do it: pages of a thousand rows above a cursor that
  moves to the last row that could be applied. The loop may not end, so it is a partial function
  whose value is \<open>None\<close> then; \<open>rebuild_ends\<close> gives the condition under which it ends, with its
  result, and \<open>rebuild_stuck\<close> the one under which it does not.
\<close>

section \<open>The loop\<close>

definition rebuild_row :: "'y ylib \<Rightarrow> int \<times> 'y \<Rightarrow> upd \<Rightarrow> int \<times> 'y" where
  "rebuild_row L s u =
     (case gunzip L (u_update u) of
        None \<Rightarrow> s
      | Some raw \<Rightarrow> (case y_apply L (snd s) raw of None \<Rightarrow> s | Some y \<Rightarrow> (u_seq u, y)))"

definition rebuild_batch :: "'y ylib \<Rightarrow> upd list \<Rightarrow> int \<times> 'y \<Rightarrow> int \<times> 'y" where
  "rebuild_batch L batch s = foldl (rebuild_row L) s batch"

partial_function (option) rebuild_loop ::
  "'y ylib \<Rightarrow> string \<Rightarrow> db \<Rightarrow> int \<times> 'y \<Rightarrow> (int \<times> 'y) option" where
  "rebuild_loop L docId d s =
     (let batch = listAsc docId (fst s) 1000 d
      in if batch = [] then Some s
         else let s1 = rebuild_batch L batch s
              in if length batch < 1000 then Some s1 else rebuild_loop L docId d s1)"

section \<open>When it ends, and with what\<close>

text \<open>The rows of a document above a cursor, in order.\<close>

definition rows_above :: "string \<Rightarrow> int \<Rightarrow> db \<Rightarrow> upd list" where
  "rows_above docId c d = sort_key u_seq (filter (\<lambda>x. u_documentId x = docId \<and> u_seq x > c) (updates d))"

definition row_dec :: "'y ylib \<Rightarrow> (bytes \<Rightarrow> 'y option) \<Rightarrow> bytes \<Rightarrow> 'y option" where
  "row_dec L dec b = Option.bind (gunzip L b) dec"

definition bad_row :: "'y ylib \<Rightarrow> (bytes \<Rightarrow> 'y option) \<Rightarrow> upd \<Rightarrow> bool" where
  "bad_row L dec u \<longleftrightarrow> row_dec L dec (u_update u) = None"

definition seqs_distinct :: "string \<Rightarrow> db \<Rightarrow> bool" where
  "seqs_distinct docId d \<longleftrightarrow> distinct (map u_seq (filter (\<lambda>x. u_documentId x = docId) (updates d)))"

lemma listAsc_rows: "listAsc docId c n d = take n (rows_above docId c d)"
  by (simp add: listAsc_def rows_above_def)

lemma rebuild_row_eq:
  assumes "yjs_laws L join dec"
  shows "rebuild_row L s u = (case row_dec L dec (u_update u) of
     None \<Rightarrow> s | Some v \<Rightarrow> (u_seq u, join (snd s) v))"
  by (auto simp: rebuild_row_def row_dec_def yjs_apply [OF assms] split: option.splits)

lemma rebuild_batch_doc:
  assumes "yjs_laws L join dec"
  shows "snd (rebuild_batch L us s) = joined join (row_dec L dec) (map u_update us) (snd s)"
  unfolding rebuild_batch_def
  by (induction us arbitrary: s) (simp_all add: rebuild_row_eq [OF assms] split: option.split)

lemma rebuild_batch_bad:
  assumes "yjs_laws L join dec" and "\<forall>u \<in> set us. bad_row L dec u"
  shows "rebuild_batch L us s = s"
  using assms(2) unfolding rebuild_batch_def
  by (induction us arbitrary: s) (simp_all add: rebuild_row_eq [OF assms(1)] bad_row_def)

lemma rebuild_batch_cursor:
  assumes "yjs_laws L join dec" and "\<not> bad_row L dec u" and "\<forall>w \<in> set post. bad_row L dec w"
  shows "fst (rebuild_batch L (pre @ u # post) s) = u_seq u"
proof -
  have "rebuild_batch L (pre @ u # post) s = rebuild_batch L post (rebuild_row L (rebuild_batch L pre s) u)"
    by (simp add: rebuild_batch_def)
  then have "rebuild_batch L (pre @ u # post) s = rebuild_row L (rebuild_batch L pre s) u"
    by (simp add: rebuild_batch_bad [OF assms(1,3)])
  with assms(2) show ?thesis by (auto simp: rebuild_row_eq [OF assms(1)] bad_row_def)
qed

lemma joined_bad:
  "\<forall>u \<in> set us. bad_row L dec u \<Longrightarrow> joined join (row_dec L dec) (map u_update us) y = y"
  by (induction us) (simp_all add: bad_row_def)

lemma rows_sorted: "sorted (map u_seq (rows_above docId c d))"
  by (simp add: rows_above_def)

lemma rows_distinct:
  assumes "seqs_distinct docId d"
  shows "distinct (map u_seq (rows_above docId c d))"
proof -
  let ?P = "\<lambda>x. u_documentId x = docId" and ?Q = "\<lambda>x. u_seq x > c"
  have "distinct (map u_seq (filter ?Q (filter ?P (updates d))))"
    using assms unfolding seqs_distinct_def by (rule distinct_map_filter)
  then have "distinct (map u_seq (filter (\<lambda>x. ?P x \<and> ?Q x) (updates d)))"
    by (simp add: conj_commute)
  then show ?thesis by (simp add: rows_above_def distinct_map)
qed

lemma rows_above_later:
  "c \<le> c' \<Longrightarrow> rows_above docId c' d = filter (\<lambda>x. u_seq x > c') (rows_above docId c d)"
  unfolding rows_above_def filter_sort
  by (simp add: conj_assoc) (metis (no_types, lifting) order.strict_trans1)

lemma filter_after:
  assumes "sorted (map u_seq (pre @ u # post))" and "distinct (map u_seq (pre @ u # post))"
  shows "filter (\<lambda>x. u_seq x > u_seq u) (pre @ u # post) = post"
proof -
  have "\<forall>x \<in> set pre. u_seq x \<le> u_seq u" using assms(1) by (auto simp: sorted_append)
  then have "filter (\<lambda>x. u_seq x > u_seq u) pre = []" by (auto simp: filter_empty_conv)
  moreover have "\<forall>x \<in> set post. u_seq x > u_seq u"
    using assms by (fastforce simp: sorted_append le_less)
  then have "filter (\<lambda>x. u_seq x > u_seq u) post = post" by simp
  ultimately show ?thesis by simp
qed

lemma last_good:
  assumes "\<exists>u \<in> set us. \<not> P u"
  shows "\<exists>pre u post. us = pre @ u # post \<and> \<not> P u \<and> (\<forall>w \<in> set post. P w)"
  using assms
proof (induction us rule: rev_induct)
  case (snoc x us)
  show ?case
  proof (cases "P x")
    case True
    with snoc obtain pre u post where "us = pre @ u # post" "\<not> P u" "\<forall>w \<in> set post. P w" by auto
    with True show ?thesis by (intro exI [of _ pre] exI [of _ u] exI [of _ "post @ [x]"]) auto
  next
    case False
    then show ?thesis by (intro exI [of _ us] exI [of _ x] exI [of _ "[]"]) simp
  qed
qed simp

lemma rebuild_ends:
  assumes "yjs_laws L join dec" and "seqs_distinct docId d"
    and "length (filter (bad_row L dec) (rows_above docId c d)) < 1000"
  shows "\<exists>c'. rebuild_loop L docId d (c, y) =
    Some (c', joined join (row_dec L dec) (map u_update (rows_above docId c d)) y)"
  using assms(3)
proof (induction "length (rows_above docId c d)" arbitrary: c y rule: less_induct)
  case less
  let ?R = "rows_above docId c d"
  let ?B = "take 1000 ?R"
  obtain c1 y1 where b: "rebuild_batch L ?B (c, y) = (c1, y1)" by (cases "rebuild_batch L ?B (c, y)")
  have y1: "y1 = joined join (row_dec L dec) (map u_update ?B) y"
    using rebuild_batch_doc [OF assms(1), of ?B "(c, y)"] b by simp
  show ?case
  proof (cases "length ?R < 1000")
    case True
    then have "?B = ?R" by simp
    with True b y1 show ?thesis
      by (subst rebuild_loop.simps) (auto simp: listAsc_rows Let_def)
  next
    case False
    then have len: "length ?B = 1000" by simp
    have "\<exists>u \<in> set ?B. \<not> bad_row L dec u"
    proof (rule ccontr)
      assume "\<not> ?thesis"
      then have "filter (bad_row L dec) ?B = ?B" by simp
      moreover have "length (filter (bad_row L dec) ?B) \<le> length (filter (bad_row L dec) ?R)"
        by (metis append_take_drop_id filter_append length_append le_add1)
      ultimately show False using less.prems len by simp
    qed
    then obtain pre u post where B: "?B = pre @ u # post" "\<not> bad_row L dec u" "\<forall>w \<in> set post. bad_row L dec w"
      using last_good [of ?B "bad_row L dec"] by metis
    have R: "?R = pre @ u # (post @ drop 1000 ?R)"
      using B(1) by (metis append_Cons append_assoc append_take_drop_id)
    have c1: "c1 = u_seq u" using rebuild_batch_cursor [OF assms(1) B(2,3), of pre "(c, y)"] b B(1) by simp
    have "u \<in> set ?R" by (subst R) simp
    then have "c < u_seq u" by (simp add: rows_above_def)
    then have later: "rows_above docId c1 d = filter (\<lambda>x. u_seq x > u_seq u) ?R"
      unfolding c1 by (intro rows_above_later) simp
    also have "\<dots> = post @ drop 1000 ?R"
      using filter_after [of pre u "post @ drop 1000 ?R"] rows_sorted [of docId c d]
        rows_distinct [OF assms(2), of c] R by metis
    finally have R1: "rows_above docId c1 d = post @ drop 1000 ?R" .
    have "length (rows_above docId c1 d) < length ?R" unfolding R1 by (subst (2) R) simp
    moreover have "length (filter (bad_row L dec) (rows_above docId c1 d)) < 1000"
      unfolding R1 using less.prems by (subst (asm) R) (auto split: if_splits)
    ultimately obtain c' where "rebuild_loop L docId d (c1, y1) =
        Some (c', joined join (row_dec L dec) (map u_update (rows_above docId c1 d)) y1)"
      using less.hyps by blast
    moreover have "joined join (row_dec L dec) (map u_update (rows_above docId c1 d)) y1 =
        joined join (row_dec L dec) (map u_update ?R) y"
    proof -
      have "joined join (row_dec L dec) (map u_update ?R) y =
          joined join (row_dec L dec) (map u_update (drop 1000 ?R)) y1"
        unfolding y1 by (metis append_take_drop_id joined_simps(3) map_append)
      then show ?thesis unfolding R1 by (simp add: joined_bad [OF B(3)])
    qed
    moreover have "rebuild_loop L docId d (c, y) = rebuild_loop L docId d (c1, y1)"
      using len b by (subst rebuild_loop.simps) (auto simp: listAsc_rows Let_def)
    ultimately show ?thesis by auto
  qed
qed

text \<open>A full page of rows none of which can be applied is read again and again.\<close>

definition stuck_page :: "'y ylib \<Rightarrow> (bytes \<Rightarrow> 'y option) \<Rightarrow> string \<Rightarrow> db \<Rightarrow> int \<Rightarrow> bool" where
  "stuck_page L dec docId d c \<longleftrightarrow>
     length (listAsc docId c 1000 d) = 1000 \<and> (\<forall>u \<in> set (listAsc docId c 1000 d). bad_row L dec u)"

lemma rebuild_stuck:
  assumes "yjs_laws L join dec" and "stuck_page L dec docId d c"
  shows "rebuild_loop L docId d (c, y) = None"
proof (rule ccontr)
  assume "rebuild_loop L docId d (c, y) \<noteq> None"
  then obtain r where r: "rebuild_loop L docId d (c, y) = Some r" by auto
  have "yjs_laws L join dec \<longrightarrow> \<not> stuck_page L dec docId d (fst (c, y))"
  proof (rule rebuild_loop.raw_induct [OF _ r,
        where P = "\<lambda>L docId d s r. yjs_laws L join dec \<longrightarrow> \<not> stuck_page L dec docId d (fst s)"],
      intro impI notI)
    fix f L' i d' s r
    assume ih: "\<And>(L :: 'a ylib) i d s r. f L i d s = Some r \<Longrightarrow>
        yjs_laws L join dec \<longrightarrow> \<not> stuck_page L dec i d (fst s)"
      and step: "(let batch = listAsc i (fst s) 1000 d'
        in if batch = [] then Some s
           else let s1 = rebuild_batch L' batch s
                in if length batch < 1000 then Some s1 else f L' i d' s1) = Some r"
      and laws: "yjs_laws L' join dec" and st: "stuck_page L' dec i d' (fst s)"
    have len: "length (listAsc i (fst s) 1000 d') = 1000"
      and bad: "\<forall>u \<in> set (listAsc i (fst s) 1000 d'). bad_row L' dec u"
      using st by (simp_all add: stuck_page_def)
    have "listAsc i (fst s) 1000 d' \<noteq> []" using len by auto
    with step len have "f L' i d' s = Some r"
      using rebuild_batch_bad [OF laws bad] by (simp add: Let_def)
    from ih [OF this] laws st show False by simp
  qed
  with assms show False by simp
qed

end
