(* ===== verification/DocumentOps.thy ===== *)
theory DocumentOps
  imports UpdateLog
begin

text \<open>
  The rest of \<open>DocumentsService\<close> (\<open>api/src/documents/documents.service.ts\<close>): creating, listing,
  changing and deleting documents, their permissions, manual snapshots with their metadata, the
  difference of two snapshots, and the repair from the update log.
\<close>

section \<open>Documents of a workspace\<close>

definition list_key :: "string \<Rightarrow> string" where
  "list_key ws = tmpl ''docs:ws:'' ws"

fun status_text :: "doc_status \<Rightarrow> string" where
  "status_text Active = ''active''"
| "status_text Archived = ''archived''"
| "status_text Deleted = ''deleted''"

text \<open>What a listed document shows (it is not deleted, so it has no deletion date).\<close>

definition doc_json :: "doc \<Rightarrow> json" where
  "doc_json x = JObj [(''_id'', JStr (d_id x)), (''workspaceId'', JStr (d_workspaceId x)),
     (''title'', JStr (d_title x)), (''ownerId'', JStr (d_ownerId x)),
     (''tags'', JArr (map JStr (d_tags x))), (''status'', JStr (status_text (d_status x))),
     (''version'', JNum (d_version x)), (''views'', JNum (d_views x)), (''clicks'', JNum (d_clicks x)),
     (''lastActivityAt'', (case d_lastActivityAt x of None \<Rightarrow> JNull | Some t \<Rightarrow> JNum t)),
     (''updatedAt'', JNum (d_updatedAt x))]"

definition workspace_limit :: "string \<Rightarrow> db \<Rightarrow> int" where
  "workspace_limit ws d = (case workspace_findById ws d of Some w \<Rightarrow> w_maxDocuments w | None \<Rightarrow> 0)"

definition svc_create :: "string \<Rightarrow> string \<Rightarrow> string \<Rightarrow> api \<Rightarrow> (api_error + doc) \<times> api" where
  "svc_create ws owner title st =
     (let maxDocs = workspace_limit ws (a_db st)
      in if maxDocs \<noteq> 0 \<and> countByWorkspace ws (a_db st) \<ge> maxDocs
         then (Inl (Forbidden ''Workspace document limit reached''), st)
         else
           let (doc, d) = doc_create (api_clock st) ws title owner (a_db st)
           in (Inr doc, with_redis (cache_del (list_key ws)) (st\<lparr>a_db := d\<rparr>)))"

definition svc_list :: "(string \<Rightarrow> string \<Rightarrow> bool) \<Rightarrow> string \<Rightarrow> string \<Rightarrow> string \<Rightarrow> api \<Rightarrow> json \<times> api" where
  "svc_list rx ws q tag st =
     (let key = list_key ws; plain = (q = [] \<and> tag = []);
          cached = (if plain then cache_getJson key (a_redis st) else None)
      in case cached of
           Some j \<Rightarrow> (j, st)
         | None \<Rightarrow>
             let list = JArr (map doc_json (listByWorkspace rx ws q tag (a_db st)))
             in (list, if plain then with_redis (cache_setJson key list 30) st else st))"

record doc_patch =
  dp_title :: "string option"
  dp_status :: "doc_status option"
  dp_tags :: "string list option"

definition patch_doc :: "doc_patch \<Rightarrow> doc \<Rightarrow> doc" where
  "patch_doc p x = x\<lparr>
     d_title := (case dp_title p of Some t \<Rightarrow> t | None \<Rightarrow> d_title x),
     d_status := (case dp_status p of Some s \<Rightarrow> s | None \<Rightarrow> d_status x),
     d_tags := (case dp_tags p of Some ts \<Rightarrow> ts | None \<Rightarrow> d_tags x)\<rparr>"

definition after_change :: "doc option \<times> db \<Rightarrow> api \<Rightarrow> (api_error + doc) \<times> api" where
  "after_change r st = (case fst r of
     None \<Rightarrow> (Inl (NotFound ''Document not found''), st\<lparr>a_db := snd r\<rparr>)
   | Some x \<Rightarrow> (Inr x, with_redis (cache_del (list_key (d_workspaceId x))) (st\<lparr>a_db := snd r\<rparr>)))"

definition svc_update :: "string \<Rightarrow> doc_patch \<Rightarrow> api \<Rightarrow> (api_error + doc) \<times> api" where
  "svc_update i p st = after_change (doc_update (api_clock st) i (patch_doc p) (a_db st)) st"

definition svc_softDelete :: "string \<Rightarrow> api \<Rightarrow> (api_error + doc) \<times> api" where
  "svc_softDelete i st =
     after_change (doc_update (api_clock st) i
       (\<lambda>x. x\<lparr>d_status := Deleted, d_deletedAt := Some (api_clock st)\<rparr>) (a_db st)) st"

section \<open>Permissions\<close>

definition addPermission ::
  "string \<Rightarrow> string option \<Rightarrow> string option \<Rightarrow> string \<Rightarrow> db \<Rightarrow> (api_error + unit) \<times> db" where
  "addPermission docId bodyUser bodyEmail role d =
     (let given = (case bodyUser of Some u \<Rightarrow> if u \<noteq> [] then Some u else None | None \<Rightarrow> None);
          email = (case bodyEmail of Some e \<Rightarrow> if e \<noteq> [] then Some e else None | None \<Rightarrow> None)
      in case given of
           Some u \<Rightarrow> (Inr (), perm_upsert docId u role d)
         | None \<Rightarrow>
             (case email of
                None \<Rightarrow> (Inl (NotFound ''User not specified''), d)
              | Some e \<Rightarrow>
                  (case user_findByEmail (js_trim (to_lower e)) d of
                     None \<Rightarrow> (Inl (NotFound ''User not found''), d)
                   | Some u \<Rightarrow> (Inr (), perm_upsert docId (us_id u) role d))))"

definition removePermission :: "string \<Rightarrow> string \<Rightarrow> db \<Rightarrow> db" where
  "removePermission docId userId d = perm_remove docId userId d"

section \<open>Snapshots\<close>

definition listSnapshots :: "string \<Rightarrow> nat \<Rightarrow> db \<Rightarrow> snap list" where
  "listSnapshots docId limit d = snap_list docId limit d"

record snap_meta =
  sm_label :: "string option"
  sm_description :: "string option"
  sm_tags :: "string list option"
  sm_category :: "string option"
  sm_isMilestone :: "bool option"

text \<open>\<open>x || ''\<close>.\<close>

definition or_else :: "string option \<Rightarrow> string \<Rightarrow> string" where
  "or_else v dflt = (case v of Some s \<Rightarrow> if s \<noteq> [] then s else dflt | None \<Rightarrow> dflt)"

definition createManualSnapshot ::
  "string \<Rightarrow> string \<Rightarrow> snap_meta \<Rightarrow> api \<Rightarrow> (api_error + snap) \<times> api" where
  "createManualSnapshot docId userId meta st =
     (case findByDocumentId docId (a_db st) of
        None \<Rightarrow> (Inl (NotFound ''No state to snapshot''), st)
      | Some rec \<Rightarrow>
          let (v, d1) = doc_incVersion (api_clock st) docId (a_db st);
              seq = (case v of Some n \<Rightarrow> n | None \<Rightarrow> 0);
              (created, d2) = snap_create (api_clock st) docId seq (c_state rec) (c_vector rec) (c_checksum rec) d1;
              f = (\<lambda>x. x\<lparr>s_label := or_else (sm_label meta) '''',
                     s_description := or_else (sm_description meta) '''',
                     s_tags := take 20 (case sm_tags meta of Some ts \<Rightarrow> ts | None \<Rightarrow> []),
                     s_category := or_else (sm_category meta) ''manual'',
                     s_isMilestone := (sm_isMilestone meta = Some True),
                     s_createdBy := Some userId,
                     s_createdReason := ''manual''\<rparr>)
          in (Inr (f created), st\<lparr>a_db := snd (snap_updateMeta (s_id created) f d2)\<rparr>))"

record snap_diff =
  df_from :: "string \<times> int \<times> nat"
  df_to :: "string \<times> int \<times> nat"
  df_deltaBytes :: int
  df_patch :: string

definition snap_doc :: "'y ylib \<Rightarrow> snap \<Rightarrow> 'y" where
  "snap_doc L s = (case gunzip L (s_state s) of
     None \<Rightarrow> y_empty L
   | Some raw \<Rightarrow> (case y_apply L (y_empty L) raw of Some y \<Rightarrow> y | None \<Rightarrow> y_empty L))"

definition diffSnapshots ::
  "'y ylib \<Rightarrow> string \<Rightarrow> string \<Rightarrow> string \<Rightarrow> db \<Rightarrow> api_error + snap_diff" where
  "diffSnapshots L docId fromId toId d =
     (case (snap_findById fromId d, snap_findById toId d) of
        (Some a, Some b) \<Rightarrow>
          if s_documentId a \<noteq> docId \<or> s_documentId b \<noteq> docId
          then Inl (NotFound ''Snapshot does not belong to document'')
          else
            (case y_diff L (snap_doc L b) (y_vector L (snap_doc L a)) of
               None \<Rightarrow> Inl (Crash ''encodeStateAsUpdate'')
             | Some patch \<Rightarrow>
                 let na = length (s_state a); nb = length (s_state b)
                 in Inr \<lparr>df_from = (s_id a, s_seq a, na), df_to = (s_id b, s_seq b, nb),
                         df_deltaBytes = int nb - int na, df_patch = b64_encode patch\<rparr>)
      | _ \<Rightarrow> Inl (NotFound ''Snapshot not found''))"

definition updateSnapshotMeta ::
  "string \<Rightarrow> string \<Rightarrow> snap_meta \<Rightarrow> db \<Rightarrow> (api_error + snap option) \<times> db" where
  "updateSnapshotMeta userId snapshotId data d =
     (case snap_findById snapshotId d of
        None \<Rightarrow> (Inl (NotFound ''Snapshot not found''), d)
      | Some sn \<Rightarrow>
          let docId = s_documentId sn in
          (case doc_findById docId d of
             None \<Rightarrow> (Inl (NotFound ''Document not found''), d)
           | Some doc \<Rightarrow>
               let owner = (d_ownerId doc = userId);
                   role = map_option p_role (perm_find docId userId d)
               in if \<not> (owner \<or> role = Some ''editor'')
                  then (Inl (Forbidden ''Insufficient permissions''), d)
                  else
                    let f = (\<lambda>x. x\<lparr>
                          s_label := (case sm_label data of Some s \<Rightarrow> take 200 s | None \<Rightarrow> s_label x),
                          s_description := (case sm_description data of Some s \<Rightarrow> take 1000 s | None \<Rightarrow> s_description x),
                          s_tags := (case sm_tags data of Some ts \<Rightarrow> map (take 32) (take 20 ts) | None \<Rightarrow> s_tags x),
                          s_category := (case sm_category data of Some s \<Rightarrow> take 64 s | None \<Rightarrow> s_category x),
                          s_isMilestone := (case sm_isMilestone data of Some b \<Rightarrow> b | None \<Rightarrow> s_isMilestone x)\<rparr>);
                        (r, d') = snap_updateMeta snapshotId f d
                    in (Inr r, d')))"

section \<open>Repair\<close>

datatype repair_result = NoContent | Intact | Repaired

text \<open>Storing a rebuilt document.\<close>

definition store_rebuilt :: "'y ylib \<Rightarrow> string \<Rightarrow> 'y \<Rightarrow> db \<Rightarrow> db" where
  "store_rebuilt L docId y d =
     (let merged = y_encode L y
      in upsertState docId (gzip L merged) (y_vector L y) (Some (sha256 L merged)) d)"

definition validateAndRepair ::
  "env \<Rightarrow> 'y ylib \<Rightarrow> string \<Rightarrow> api \<Rightarrow> (repair_result \<times> api) option" where
  "validateAndRepair E L docId st =
     (case findByDocumentId docId (a_db st) of
        None \<Rightarrow> Some (NoContent, st)
      | Some rec \<Rightarrow>
          let raw = (case gunzip L (c_state rec) of Some r \<Rightarrow> r | None \<Rightarrow> []);
              sum = sha256 L raw
          in if (case c_checksum rec of Some c \<Rightarrow> c \<noteq> [] \<and> sum = c | None \<Rightarrow> False)
             then Some (Intact, st)
             else
               (case rebuild_loop L docId (a_db st) (0, y_empty L) of
                  None \<Rightarrow> None
                | Some (cursor, y) \<Rightarrow>
                    let st1 = st\<lparr>a_db := store_rebuilt L docId y (a_db st)\<rparr>;
                        st2 = audit E ''doc.repair'' [(''documentId'', JStr docId), (''cursor'', JNum cursor)] st1
                    in Some (Repaired, cache_put E docId (y_out (y_encode L y) (y_vector L y)) st2)))"

section \<open>The document limit of a workspace\<close>

lemma countByWorkspace_create:
  "countByWorkspace ws (snd (doc_create now ws' title owner d)) =
     countByWorkspace ws d + (if ws = ws' then 1 else 0)"
  by (simp add: countByWorkspace_def doc_create_def Let_def)

fun create_run :: "(string \<times> string \<times> string) list \<Rightarrow> api \<Rightarrow> api" where
  "create_run [] st = st"
| "create_run ((ws, owner, title) # cs) st = create_run cs (snd (svc_create ws owner title st))"

lemma svc_create_cases:
  assumes "svc_create ws owner title st = (r, st')"
  obtains (full) "workspace_limit ws (a_db st) \<noteq> 0"
      "countByWorkspace ws (a_db st) \<ge> workspace_limit ws (a_db st)"
      "r = Inl (Forbidden ''Workspace document limit reached'')" "st' = st"
  | (made) doc where "workspace_limit ws (a_db st) = 0 \<or>
        countByWorkspace ws (a_db st) < workspace_limit ws (a_db st)"
      "r = Inr doc" "doc \<in> set (docs (a_db st'))" "d_workspaceId doc = ws" "d_title doc = title"
      "d_ownerId doc = owner" "d_status doc = Active"
      "a_db st' = snd (doc_create (api_clock st) ws title owner (a_db st))"
      "cache_getJson (list_key ws) (a_redis st') = None"
  using assms
  by (auto simp: svc_create_def Let_def doc_create_def key_simps not_le with_redis_def split: if_splits)

text \<open>C28: a workspace with a document limit never exceeds it through \<open>create\<close>: whatever documents are
  created in whatever workspaces, the number of documents of a workspace that are not deleted stays
  within its limit if it was, and a workspace at its limit refuses.\<close>

theorem workspace_limit_kept:
  assumes "workspace_limit ws (a_db st) = m" and "0 < m" and "countByWorkspace ws (a_db st) \<le> m"
  shows "countByWorkspace ws (a_db (create_run cs st)) \<le> m"
  using assms
proof (induction cs arbitrary: st)
  case (Cons c cs)
  obtain ws' owner title where c: "c = (ws', owner, title)" by (cases c)
  obtain r st1 where s: "svc_create ws' owner title st = (r, st1)"
    by (cases "svc_create ws' owner title st")
  from s have "workspace_limit ws (a_db st1) = m \<and> countByWorkspace ws (a_db st1) \<le> m"
  proof (cases rule: svc_create_cases)
    case full
    with Cons.prems show ?thesis by simp
  next
    case (made doc)
    have "workspaces (a_db st1) = workspaces (a_db st)" by (simp add: made(8) doc_create_def Let_def)
    then have "workspace_limit ws (a_db st1) = m"
      using Cons.prems(1) by (simp add: workspace_limit_def workspace_findById_def)
    with made(1) Cons.prems show ?thesis by (auto simp: made(8) countByWorkspace_create)
  qed
  with Cons.IH [of st1] Cons.prems(2) c s show ?case by simp
qed simp

definition limited_api :: api where
  "limited_api = demo_api\<lparr>a_db := demo_db\<lparr>workspaces := [\<lparr>w_id = ''w'', w_name = ''n'', w_slug = ''n'',
     w_ownerId = ''o'', w_description = None, w_maxDocuments = 2, w_defaultRole = None\<rparr>]\<rparr>\<rparr>"

lemma workspace_limit_kept_witness:
  "countByWorkspace ''w'' (a_db (create_run [(''w'', ''o'', ''a''), (''w'', ''o'', ''b'')] limited_api)) \<le> 2"
proof (rule workspace_limit_kept)
  show "workspace_limit ''w'' (a_db limited_api) = 2"
    by (simp add: limited_api_def workspace_limit_def workspace_findById_def)
  show "countByWorkspace ''w'' (a_db limited_api) \<le> 2"
    by (simp add: limited_api_def countByWorkspace_def demo_db_def demo_doc_def)
qed simp

section \<open>Permissions and access\<close>

lemma perm_find_upsert:
  "perm_find i u (perm_upsert j v role d) =
     (if i = j \<and> u = v then
        Some (case perm_find i u d of None \<Rightarrow> \<lparr>p_documentId = i, p_userId = u, p_role = role\<rparr>
              | Some p \<Rightarrow> p\<lparr>p_role := role\<rparr>)
      else perm_find i u d)"
proof (cases "i = j \<and> u = v")
  case True
  then show ?thesis by (auto simp: perm_find_def perm_upsert_def find_upsert)
next
  case False
  then show ?thesis by (auto simp: perm_find_def perm_upsert_def intro!: find_upsert_other)
qed

lemma perm_frame [simp]:
  "doc_findById i (perm_upsert j v role d) = doc_findById i d"
  "findRole w u (perm_upsert j v role d) = findRole w u d"
  "doc_findById i (perm_remove j v d) = doc_findById i d"
  "findRole w u (perm_remove j v d) = findRole w u d"
  by (simp_all add: doc_findById_def findRole_def perm_upsert_def perm_remove_def)

lemma perm_remove_other: "i \<noteq> j \<or> u \<noteq> v \<Longrightarrow> perm_find i u (perm_remove j v d) = perm_find i u d"
  unfolding perm_find_def perm_remove_def by (auto intro!: find_delete_other)

lemma hasDocAccess_cong:
  "doc_findById i d' = doc_findById i d \<Longrightarrow> perm_find i u d' = perm_find i u d \<Longrightarrow>
     (\<And>w. findRole w u d' = findRole w u d) \<Longrightarrow> hasDocAccess d' u i role = hasDocAccess d u i role"
  unfolding hasDocAccess_def by (auto split: option.split)

text \<open>C26: a permission takes effect and only where it is given: after \<open>addPermission\<close> for a user that
  user can do everything the role allows on that document, everything else that anybody could do
  on any document is as before, and \<open>removePermission\<close> changes nobody else's access.\<close>

theorem permission_takes_effect:
  assumes "addPermission docId (Some u) em role d = (Inr (), d')" and "u \<noteq> []"
    and "route_role role" and "route_role required"
    and "doc_findById docId d \<noteq> None"
  shows "(js_ge (doc_rank role) (doc_rank required) \<longrightarrow> hasDocAccess d' u docId required)
    \<and> (\<forall>v i. i \<noteq> docId \<or> v \<noteq> u \<longrightarrow>
          hasDocAccess d' v i required = hasDocAccess d v i required
        \<and> hasDocAccess (removePermission docId u d') v i required = hasDocAccess d v i required)"
proof -
  have d': "d' = perm_upsert docId u role d"
    using assms(1,2) by (simp add: addPermission_def Let_def)
  have "p_role (the (perm_find docId u d')) = role \<and> perm_find docId u d' \<noteq> None"
    by (auto simp: d' perm_find_upsert split: option.split)
  then have "js_ge (doc_rank role) (doc_rank required) \<longrightarrow> hasDocAccess d' u docId required"
    using assms(5) by (auto simp: hasDocAccess_def d' split: option.split)
  moreover have "hasDocAccess d' v i required = hasDocAccess d v i required"
    "hasDocAccess (removePermission docId u d') v i required = hasDocAccess d v i required"
    if "i \<noteq> docId \<or> v \<noteq> u" for v i
    unfolding d' removePermission_def
    by (rule hasDocAccess_cong; use that in \<open>auto simp: perm_remove_other perm_find_upsert\<close>)+
  ultimately show ?thesis by blast
qed

lemma permission_takes_effect_witness:
  "hasDocAccess (snd (addPermission ''d'' (Some ''z'') None ''editor'' demo_db)) ''z'' ''d'' ''viewer''"
proof -
  obtain d' where d: "addPermission ''d'' (Some ''z'') None ''editor'' demo_db = (Inr (), d')"
    by (simp add: addPermission_def)
  have "js_ge (doc_rank ''editor'') (doc_rank ''viewer'')" by (simp add: doc_rank_def)
  with permission_takes_effect [OF d, of "''viewer''"] d show ?thesis
    by (simp add: route_role_def demo_db_def demo_doc_def empty_db_def doc_findById_def)
qed

text \<open>only the owner or the holder of an \<open>editor\<close> permission can change a snapshot's metadata: the
  holder of an \<open>owner\<close> permission on the document, who outranks an editor everywhere else, and the
  members of its workspace are refused.\<close>

theorem snapshot_meta_refuses_owner_role:
  assumes "snap_findById snapshotId d = Some sn" and "doc_findById (s_documentId sn) d = Some x"
    and "d_ownerId x \<noteq> u" and "map_option p_role (perm_find (s_documentId sn) u d) \<noteq> Some ''editor''"
  shows "updateSnapshotMeta u snapshotId data d = (Inl (Forbidden ''Insufficient permissions''), d)"
  using assms by (simp add: updateSnapshotMeta_def Let_def)

definition snap_db :: db where
  "snap_db = demo_db\<lparr>snaps := [fst (snap_create 0 ''d'' 1 [31, 1] [] None demo_db)],
     perms := [\<lparr>p_documentId = ''d'', p_userId = ''z'', p_role = ''owner''\<rparr>]\<rparr>"

lemma snapshot_meta_refuses_owner_role_witness:
  "fst (updateSnapshotMeta ''z'' (fresh_id demo_db) \<lparr>sm_label = None, sm_description = None, sm_tags = None,
     sm_category = None, sm_isMilestone = None\<rparr> snap_db) = Inl (Forbidden ''Insufficient permissions'')
   \<and> hasDocAccess snap_db ''z'' ''d'' ''owner''"
proof
  show "hasDocAccess snap_db ''z'' ''d'' ''owner''"
    by (simp add: hasDocAccess_def snap_db_def demo_db_def empty_db_def demo_doc_def doc_findById_def
        perm_find_def doc_rank_def)
  show "fst (updateSnapshotMeta ''z'' (fresh_id demo_db) \<lparr>sm_label = None, sm_description = None, sm_tags = None,
     sm_category = None, sm_isMilestone = None\<rparr> snap_db) = Inl (Forbidden ''Insufficient permissions'')"
    by (subst snapshot_meta_refuses_owner_role [of _ _ "hd (snaps snap_db)" "demo_doc ''d'' ''w'' ''o''"])
      (simp_all add: snap_db_def demo_db_def empty_db_def demo_doc_def snap_findById_def snap_create_def
        doc_findById_def perm_find_def fresh_id_def Let_def)
qed

section \<open>Repair from the log\<close>

lemma doc_state_store_rebuilt:
  assumes "yjs_laws L join dec" and "zip_laws L"
  shows "doc_state L i (store_rebuilt L docId y d) = (if i = docId then y else doc_state L i d)"
  using stored_doc_encoded [OF assms]
  by (simp add: doc_state_def store_rebuilt_def Let_def findByDocumentId_upsert)

definition intact :: "'y ylib \<Rightarrow> content \<Rightarrow> bool" where
  "intact L rec \<longleftrightarrow> (case c_checksum rec of
     Some c \<Rightarrow> c \<noteq> [] \<and> sha256 L (case gunzip L (c_state rec) of Some r \<Rightarrow> r | None \<Rightarrow> []) = c
   | None \<Rightarrow> False)"

lemma validateAndRepair_eq:
  "findByDocumentId docId (a_db st) = Some rec \<Longrightarrow> validateAndRepair E L docId st =
     (if intact L rec then Some (Intact, st)
      else map_option (\<lambda>(cursor, y).
        (Repaired, cache_put E docId (y_out (y_encode L y) (y_vector L y))
          (audit E ''doc.repair'' [(''documentId'', JStr docId), (''cursor'', JNum cursor)]
            (st\<lparr>a_db := store_rebuilt L docId y (a_db st)\<rparr>))))
        (rebuild_loop L docId (a_db st) (0, y_empty L)))"
  by (auto simp: validateAndRepair_def intact_def Let_def split: option.splits)


definition torn_content :: content where
  "torn_content = \<lparr>c_documentId = ''d'', c_state = [0], c_vector = [], c_checksum = Some ''x''\<rparr>"

definition torn_api :: api where
  "torn_api = demo_api\<lparr>a_db := demo_db\<lparr>contents := [torn_content],
     updates := [\<lparr>u_documentId = ''d'', u_seq = 1, u_update = [31, 7], u_sizeBytes = 1\<rparr>]\<rparr>\<rparr>"

lemma torn_content_bad: "\<not> intact byte_lib torn_content"
  by (simp add: intact_def byte_lib_def torn_content_def)


text \<open>the rebuilding loop does not always end: when the next thousand rows of the log are all
  unreadable the cursor stays where it is and the same page is read for ever, so \<open>validateAndRepair\<close>
  never answers for a document that is not intact.\<close>

theorem repair_may_not_end:
  assumes "yjs_laws L join dec" and "findByDocumentId docId (a_db st) = Some rec" and "\<not> intact L rec"
    and "length (listAsc docId 0 1000 (a_db st)) = 1000"
    and "\<forall>u \<in> set (listAsc docId 0 1000 (a_db st)). gunzip L (u_update u) = None"
  shows "validateAndRepair E L docId st = None"
proof -
  have "stuck_page L dec docId (a_db st) 0"
    using assms(4,5) by (simp add: stuck_page_def bad_row_def row_dec_def)
  from rebuild_stuck [OF assms(1) this] assms(3) show ?thesis
    by (simp add: validateAndRepair_eq [OF assms(2)])
qed

definition corrupt_api :: api where
  "corrupt_api = demo_api\<lparr>a_db := demo_db\<lparr>contents := [torn_content],
     updates := map (\<lambda>n. \<lparr>u_documentId = ''d'', u_seq = int n, u_update = [0], u_sizeBytes = 1\<rparr>) [1..<1001]\<rparr>\<rparr>"

lemma repair_may_not_end_witness: "validateAndRepair default_env byte_lib ''d'' corrupt_api = None"
proof (rule repair_may_not_end [OF byte_lib_laws(1) _ torn_content_bad])
  show "findByDocumentId ''d'' (a_db corrupt_api) = Some torn_content"
    by (simp add: corrupt_api_def findByDocumentId_def torn_content_def)
  let ?F = "filter (\<lambda>x. u_documentId x = ''d'' \<and> 0 < u_seq x) (updates (a_db corrupt_api))"
  have "?F = updates (a_db corrupt_api)"
    by (rule filter_True) (auto simp: corrupt_api_def)
  then have "length ?F = 1000" by (simp add: corrupt_api_def)
  then show "length (listAsc ''d'' 0 1000 (a_db corrupt_api)) = 1000" by (simp add: listAsc_def)
  show "\<forall>u \<in> set (listAsc ''d'' 0 1000 (a_db corrupt_api)). gunzip byte_lib (u_update u) = None"
    by (auto simp: listAsc_def corrupt_api_def byte_lib_def dest!: in_set_takeD)
qed

section \<open>Snapshots and rollback\<close>

definition ids_ok :: "db \<Rightarrow> bool" where
  "ids_ok d \<longleftrightarrow> (\<forall>s \<in> set (snaps d). \<exists>n < next_id d. s_id s = show_nat n)"

lemma snaps_frame [simp]:
  "snaps (snd (doc_incVersion now i d)) = snaps d"
  "snaps (upsertState j s v c d) = snaps d"
  "snaps (ap_compact E j n d) = snaps d"
  "next_id (snd (doc_incVersion now i d)) = next_id d"
  by (simp_all add: doc_incVersion_def doc_update_def upsertState_def ap_compact_def compactUpTo_def Let_def)

lemma snap_create_simps:
  "snaps (snd (snap_create now i seq s v c d)) = snaps d @ [fst (snap_create now i seq s v c d)]"
  by (simp add: snap_create_def Let_def)

lemma ap_write_snaps: "ap_write E L now docId u y d = Some (seq, d') \<Longrightarrow> \<exists>r. snaps d' = snaps d @ r"
proof -
  assume w: "ap_write E L now docId u y d = Some (seq, d')"
  obtain v d1 where v: "doc_incVersion now docId d = (v, d1)" by (cases "doc_incVersion now docId d")
  have s1: "snaps d1 = snaps d" using v snaps_frame(1) [of now docId d] by simp
  have "update_append i n g k d1 = Some d2 \<Longrightarrow> snaps d2 = snaps d1" for i n g k d2
    by (auto simp: update_append_def split: if_splits)
  with w v s1 show ?thesis
    by (auto simp: ap_write_def Let_def snap_create_simps split: option.splits if_splits)
qed

lemma apply_run_snaps: "apply_run E L docId us st = Some st' \<Longrightarrow> \<exists>r. snaps (a_db st') = snaps (a_db st) @ r"
proof (induction us arbitrary: st)
  case (Cons p us)
  obtain token b64 where p: "p = (token, b64)" by (cases p)
  from Cons.prems p obtain x st1 where a: "applyYUpdate E L token docId b64 st = (Inr x, st1)"
    and r: "apply_run E L docId us st1 = Some st'"
    by (auto split: prod.splits sum.splits)
  have "applyYUpdate E L token docId b64 st = (Inr (), st1)" using a by simp
  then obtain y where "ap_commit E L token docId (payload_update L b64) y st = (Inr (), st1)"
    by (rule applyYUpdate_cases)
  then obtain seq d1 where "ap_write E L (api_clock st) docId (payload_update L b64) y (a_db st) = Some (seq, d1)"
    "a_db st1 = ap_compact E docId seq d1"
    by (rule ap_commit_db)
  with ap_write_snaps Cons.IH [OF r] show ?case by fastforce
qed simp

lemma find_append_Some: "find P xs = Some x \<Longrightarrow> find P (xs @ ys) = Some x"
  by (induction xs) (auto split: if_splits)

lemma find_new: "\<forall>x \<in> set xs. \<not> P x \<Longrightarrow> P y \<Longrightarrow> find P (xs @ [y]) = Some y"
  by (induction xs) auto

text \<open>The metadata that \<open>createManualSnapshot\<close> sets.\<close>

definition manual_meta :: "string \<Rightarrow> snap_meta \<Rightarrow> snap \<Rightarrow> snap" where
  "manual_meta userId meta x = x\<lparr>s_label := or_else (sm_label meta) '''',
     s_description := or_else (sm_description meta) '''',
     s_tags := take 20 (case sm_tags meta of Some ts \<Rightarrow> ts | None \<Rightarrow> []),
     s_category := or_else (sm_category meta) ''manual'',
     s_isMilestone := (sm_isMilestone meta = Some True),
     s_createdBy := Some userId, s_createdReason := ''manual''\<rparr>"

lemma createManualSnapshot_snap:
  assumes "createManualSnapshot docId userId meta st = (Inr sn, st1)" and "ids_ok (a_db st)"
  shows "snap_findById (s_id sn) (a_db st1) = Some sn \<and> s_documentId sn = docId
    \<and> (\<exists>rec. findByDocumentId docId (a_db st) = Some rec \<and> s_state sn = c_state rec)"
proof -
  obtain rec where rec: "findByDocumentId docId (a_db st) = Some rec"
    using assms(1) by (auto simp: createManualSnapshot_def split: option.splits)
  obtain v d1 where v: "doc_incVersion (api_clock st) docId (a_db st) = (v, d1)"
    by (cases "doc_incVersion (api_clock st) docId (a_db st)")
  have d1: "snaps d1 = snaps (a_db st)" "next_id d1 = next_id (a_db st)"
    using v snaps_frame(1,4) [of "api_clock st" docId "a_db st"] by simp_all
  let ?seq = "case v of Some n \<Rightarrow> n | None \<Rightarrow> 0"
  obtain cr d2 where c: "snap_create (api_clock st) docId ?seq (c_state rec) (c_vector rec) (c_checksum rec) d1 = (cr, d2)"
    by (cases "snap_create (api_clock st) docId ?seq (c_state rec) (c_vector rec) (c_checksum rec) d1")
  have cr: "s_id cr = show_nat (next_id d1)" "s_documentId cr = docId" "s_state cr = c_state rec"
    "snaps d2 = snaps d1 @ [cr]"
    using c by (auto simp: snap_create_def Let_def fresh_id_def)
  let ?f = "manual_meta userId meta"
  have sn: "sn = ?f cr" and st1: "st1 = st\<lparr>a_db := snd (snap_updateMeta (s_id cr) ?f d2)\<rparr>"
    using assms(1) rec v c by (auto simp: createManualSnapshot_def manual_meta_def [abs_def])
  have new: "\<forall>x \<in> set (snaps d1). s_id x \<noteq> s_id cr"
    using assms(2) d1 cr(1) by (auto simp: ids_ok_def)
  have fid: "s_id (?f cr) = s_id cr" "(?f cr)\<lparr>s_id := s_id cr\<rparr> = ?f cr" by (simp_all add: manual_meta_def)
  have "find (\<lambda>x. s_id x = s_id cr) (snaps d2) = Some cr"
    unfolding cr(4) using new by (intro find_new) auto
  then have "snap_findById (s_id sn) (a_db st1) = Some (?f cr)"
    by (simp add: st1 sn fid snap_findById_def snap_updateMeta_def Let_def find_update)
  with sn cr rec show ?thesis by (simp add: manual_meta_def)
qed

text \<open>C5: rollback undoes: after a manual snapshot, any further updates that are accepted, and a rollback
  to that snapshot, the document stored is the one there was when the snapshot was taken.\<close>

theorem rollback_restores_snapshot:
  assumes "createManualSnapshot docId userId meta st = (Inr sn, st1)" and "ids_ok (a_db st)"
    and "apply_run E L docId us st1 = Some st2"
  shows "fst (rollbackToSnapshot E docId (s_id sn) st2) = Inr ()
    \<and> doc_state L docId (a_db (snd (rollbackToSnapshot E docId (s_id sn) st2))) = doc_state L docId (a_db st)"
proof -
  note c = createManualSnapshot_snap [OF assms(1,2)]
  then obtain rec where rec: "findByDocumentId docId (a_db st) = Some rec" "s_state sn = c_state rec" by blast
  have "snap_findById (s_id sn) (a_db st2) = Some sn"
    using c apply_run_snaps [OF assms(3)] by (auto simp: snap_findById_def find_append_Some)
  with c rec show ?thesis
    by (simp add: rollbackToSnapshot_def Let_def doc_state_def findByDocumentId_upsert stored_doc_def)
qed

definition saved_api :: api where
  "saved_api = demo_api\<lparr>a_db := demo_db\<lparr>contents := [\<lparr>c_documentId = ''d'', c_state = [31, 7],
     c_vector = [7], c_checksum = None\<rparr>]\<rparr>\<rparr>"

definition no_meta :: snap_meta where
  "no_meta = \<lparr>sm_label = None, sm_description = None, sm_tags = None, sm_category = None, sm_isMilestone = None\<rparr>"

lemma saved_snapshot_ok:
  "\<exists>sn st1. createManualSnapshot ''d'' ''o'' no_meta saved_api = (Inr sn, st1)
     \<and> log_inv ''d'' (a_db st1) \<and> entry (a_redis st1) (lock_key ''d'') = None"
proof -
  obtain r st1 where c: "createManualSnapshot ''d'' ''o'' no_meta saved_api = (r, st1)"
    by (cases "createManualSnapshot ''d'' ''o'' no_meta saved_api")
  have "(\<exists>sn. r = Inr sn) \<and> log_inv ''d'' (a_db st1) \<and> entry (a_redis st1) (lock_key ''d'') = None"
    using c
    by (auto simp: createManualSnapshot_def saved_api_def demo_api_def demo_db_def empty_db_def demo_doc_def
        findByDocumentId_def doc_incVersion_def doc_update_def doc_findById_def snap_create_def
        snap_updateMeta_def log_inv_def entry_def empty_redis_def Let_def)
  with c show ?thesis by blast
qed

lemma rollback_restores_snapshot_witness:
  "\<exists>sn st1 st2. createManualSnapshot ''d'' ''o'' no_meta saved_api = (Inr sn, st1)
     \<and> apply_run default_env byte_lib ''d'' [(''t'', b64_encode [8])] st1 = Some st2
     \<and> doc_state byte_lib ''d'' (a_db (snd (rollbackToSnapshot default_env ''d'' (s_id sn) st2))) = {7}"
proof -
  obtain sn st1 where c: "createManualSnapshot ''d'' ''o'' no_meta saved_api = (Inr sn, st1)"
    and ok: "log_inv ''d'' (a_db st1)" "entry (a_redis st1) (lock_key ''d'') = None"
    using saved_snapshot_ok by blast
  obtain st2 where r: "apply_run default_env byte_lib ''d'' [(''t'', b64_encode [8])] st1 = Some st2"
    using apply_run_accepted [OF byte_lib_laws(1) _ ok] by blast
  have i: "ids_ok (a_db saved_api)" by (simp add: ids_ok_def saved_api_def demo_db_def empty_db_def)
  have "doc_state byte_lib ''d'' (a_db saved_api) = {7}"
    by (simp add: doc_state_def stored_doc_def findByDocumentId_def saved_api_def byte_lib_def)
  with rollback_restores_snapshot [OF c i r] c r show ?thesis by metis
qed

end
