(* ===== verification/RateLimit.thy ===== *)
theory RateLimit
  imports SecurityLog
begin

text \<open>
  The rate limits: \<open>allowWsMessage\<close> (\<open>api/src/common/ws-rate.ts\<close>), the middleware of
  \<open>api/src/common/rate-limit.middleware.ts\<close> and the word filter of \<open>api/src/common/profanity.ts\<close>.
  The middleware runs as one atomic step per request on its state: Redis and the in-process
  \<open>inflight\<close> counters; \<open>rl_finish\<close> is its callback for the end of a response. Each counter is an
  interpretation of \<open>fixed_window\<close>.
\<close>

section \<open>Counters\<close>

definition ws_rate_key :: "string \<Rightarrow> string" where
  "ws_rate_key keyId = tmpl ''ws:'' (keyId @ '':1s'')"

definition allowWsMessage :: "env \<Rightarrow> string \<Rightarrow> redis \<Rightarrow> bool \<times> redis" where
  "allowWsMessage E keyId s =
     (let key = ws_rate_key keyId;
          (val, s1) = r_incr key s;
          s2 = (if val = 1 then r_expire key 1 s1 else s1)
      in (val \<le> ws_msgs_per_sec E, s2))"

definition bump :: "string \<Rightarrow> int \<Rightarrow> redis \<Rightarrow> int \<times> redis" where
  "bump key windowSec s =
     (let (val, s1) = r_incr key s
      in if val = 1 then (val, r_expire key windowSec s1) else (val, s1))"

text \<open>The comparison every user of \<open>bump\<close> makes.\<close>

definition within_limit :: "string \<Rightarrow> int \<Rightarrow> int \<Rightarrow> redis \<Rightarrow> bool \<times> redis" where
  "within_limit key windowSec limit s =
     (let (val, s1) = bump key windowSec s in (\<not> val > limit, s1))"

lemma bump_entry: "k \<noteq> key \<Longrightarrow> entry (snd (bump key w s)) k = entry s k"
  by (auto simp: bump_def redis_defs key_simps Let_def split: option.splits rval.splits rtext.splits)

lemma bump_clock [simp]: "clock (snd (bump key w s)) = clock s"
  by (auto simp: bump_def redis_defs Let_def split: option.splits rval.splits rtext.splits)

lemma bump_val: "fst (bump key w s) = r_num key s + 1"
  by (auto simp: bump_def redis_defs Let_def split: option.splits rval.splits rtext.splits)

lemma bump_self:
  "0 < w \<Longrightarrow> entry s key = None \<Longrightarrow>
     entry (snd (bump key w s)) key = Some (RText (Num 1), Some (clock s + 1000 * w))"
  "entry s key = Some (RText (Num n), e) \<Longrightarrow> 1 \<le> n \<Longrightarrow>
     entry (snd (bump key w s)) key = Some (RText (Num (n + 1)), e)"
  by (auto simp: bump_def redis_defs key_simps dest: entry_live)

lemma r_num_entry:
  "entry s k = None \<Longrightarrow> r_num k s = 0"
  "entry s k = Some (RText (Num n), e) \<Longrightarrow> r_num k s = n"
  by (simp_all add: r_num_def r_get_def)

lemma fixed_window_bump:
  assumes "0 < w" and "\<And>s. f s = (fst (bump key w s) \<le> limit, snd (bump key w s))"
  shows "fixed_window f key limit w"
  by unfold_locales (auto simp: assms bump_self bump_val r_num_entry)

lemma within_limit_eq:
  "within_limit key w limit s = (fst (bump key w s) \<le> limit, snd (bump key w s))"
  by (auto simp: within_limit_def split: prod.split)

lemma allowWsMessage_eq:
  "allowWsMessage E keyId s =
     (fst (bump (ws_rate_key keyId) 1 s) \<le> ws_msgs_per_sec E, snd (bump (ws_rate_key keyId) 1 s))"
  by (auto simp: allowWsMessage_def bump_def Let_def split: prod.split)

interpretation per_minute: fixed_window "within_limit key 60 limit" key limit 60 for key limit
  by (rule fixed_window_bump) (simp_all add: within_limit_eq)

interpretation ws_rate: fixed_window "allowWsMessage E keyId" "ws_rate_key keyId" "ws_msgs_per_sec E" 1
  for E keyId
  by (rule fixed_window_bump) (simp_all add: allowWsMessage_eq)

text \<open>\<open>CacheService.incr\<close> with an expiry is the same counter.\<close>

lemma cache_incr_bump: "0 < ttl \<Longrightarrow> cache_incr k (Some ttl) s = bump k ttl s"
  by (simp add: cache_incr_def bump_def Let_def split: prod.split)

definition cache_within :: "string \<Rightarrow> int \<Rightarrow> int \<Rightarrow> redis \<Rightarrow> bool \<times> redis" where
  "cache_within key ttl limit s = (let (n, s1) = cache_incr key (Some ttl) s in (n \<le> limit, s1))"

interpretation cache_counter: fixed_window "cache_within key 60 limit" key limit 60 for key limit
  by (rule fixed_window_bump) (auto simp: cache_within_def cache_incr_bump split: prod.split)

text \<open>the chat of a connection is limited to \<open>WS_MSGS_PER_SEC\<close> messages a second: of the messages
  of one key within a second, exactly the first ones up to the limit are let through.\<close>

theorem ws_rate_admits_prefix:
  assumes "entry s (ws_rate_key keyId) = None" and "0 \<le> d" and "\<forall>x \<in> set ds. 0 \<le> x"
    and "sum_list ds < 1000"
  shows "fst (window_run (allowWsMessage E keyId) (d # ds) s) =
    map (\<lambda>i. int i < ws_msgs_per_sec E) [0..<Suc (length ds)]"
  using assms by (intro ws_rate.run_fresh) simp_all

lemma ws_rate_admits_prefix_witness:
  "fst (window_run (allowWsMessage (default_env\<lparr>ws_msgs_per_sec := 2\<rparr>) ''u1'') [0, 10, 20] (empty_redis 0)) =
    [True, True, False]"
  using ws_rate_admits_prefix [of "empty_redis 0" "''u1''" 0 "[10, 20]"
      "default_env\<lparr>ws_msgs_per_sec := 2\<rparr>"]
  by (simp add: empty_redis_def entry_def default_env_def upt_rec)

section \<open>Words and mentions\<close>

definition defaultWords :: "string list" where
  "defaultWords = [''foo'', ''bar'']"

definition getProfanityList :: "env \<Rightarrow> string list" where
  "getProfanityList E =
     (if profanity_words E \<noteq> [] then
        filter (\<lambda>w. w \<noteq> []) (map (\<lambda>w. to_lower (js_trim w)) (split_on (CHR '','') (profanity_words E)))
      else defaultWords)"

definition containsProfanity :: "env \<Rightarrow> string \<Rightarrow> bool" where
  "containsProfanity E text =
     (if text = [] then False
      else let lower = to_lower text
           in \<exists>w \<in> set (getProfanityList E). w \<noteq> [] \<and> has_sub lower w)"

definition mention_char :: "char \<Rightarrow> bool" where
  "mention_char c \<longleftrightarrow>
     (CHR ''a'' \<le> c \<and> c \<le> CHR ''z'') \<or> (CHR ''A'' \<le> c \<and> c \<le> CHR ''Z'')
     \<or> (CHR ''0'' \<le> c \<and> c \<le> CHR ''9'') \<or> c \<in> {CHR ''_'', CHR ''-'', CHR ''.''}"

text \<open>\<open>text.match(/@([a-zA-Z0-9_\-.]+)/g)\<close>, the matches with their \<open>@\<close>.\<close>

function mention_matches :: "string \<Rightarrow> string list" where
  "mention_matches [] = []"
| "mention_matches (c # t) =
     (if c = CHR ''@'' \<and> takeWhile mention_char t \<noteq> []
      then (c # takeWhile mention_char t) # mention_matches (dropWhile mention_char t)
      else mention_matches t)"
  by pat_completeness auto
termination
  by (relation "measure length") (auto simp: length_dropWhile_le le_imp_less_Suc)

definition distinct_mentions :: "string \<Rightarrow> nat" where
  "distinct_mentions text = length (js_set (map to_lower (mention_matches text)))"

section \<open>The middleware\<close>

record request =
  xff :: "string option"
  remote_addr :: "string option"
  rq_user_id :: "string option"
  rq_user_email :: "string option"
  rq_path :: string
  rq_method :: string
  rq_body :: json

datatype response = Rejected (rsp_status: int) (rsp_error: string) (retry_after: "int option")

record rl_state =
  rl_redis :: redis
  inflight :: "string \<Rightarrow> int"

definition getIp :: "request \<Rightarrow> string" where
  "getIp req =
     js_trim (case xff req of
        Some h \<Rightarrow> (if hd (split_on (CHR '','') h) \<noteq> [] then hd (split_on (CHR '','') h)
                   else case remote_addr req of Some a \<Rightarrow> a | None \<Rightarrow> [])
      | None \<Rightarrow> (case remote_addr req of Some a \<Rightarrow> a | None \<Rightarrow> []))"

definition adminEmails :: "env \<Rightarrow> string list" where
  "adminEmails E =
     filter (\<lambda>e. e \<noteq> []) (map (\<lambda>e. to_lower (js_trim e)) (split_on (CHR '','') (admin_emails E)))"

definition is_admin :: "env \<Rightarrow> request \<Rightarrow> bool" where
  "is_admin E req = (case rq_user_email req of
     None \<Rightarrow> False
   | Some e \<Rightarrow> e \<noteq> [] \<and> to_lower e \<in> set (adminEmails E))"

text \<open>\<open>userId ? ... : ...\<close>.\<close>

definition user_of :: "request \<Rightarrow> string option" where
  "user_of req = (case rq_user_id req of Some u \<Rightarrow> if u \<noteq> [] then Some u else None | None \<Rightarrow> None)"

definition opt_field :: "string \<Rightarrow> string option \<Rightarrow> (string \<times> json) list" where
  "opt_field f v = (case v of None \<Rightarrow> [] | Some s \<Rightarrow> [(f, JStr s)])"

text \<open>A stage of the middleware answers the request or lets it go on.\<close>

type_synonym stage = "redis \<Rightarrow> response option \<times> redis"

definition then_stage :: "stage \<Rightarrow> stage \<Rightarrow> stage" where
  "then_stage f g s = (case f s of (Some r, s1) \<Rightarrow> (Some r, s1) | (None, s1) \<Rightarrow> g s1)"

definition rl_baseline_ip :: "env \<Rightarrow> request \<Rightarrow> stage" where
  "rl_baseline_ip E req s =
     (let ip = getIp req; (ipCount, s1) = bump (tmpl ''rate:any:ip:'' ip) 60 s
      in if ipCount > rate_ip_per_min_default E then
           (Some (Rejected 429 ''Too many requests from this IP'' (Some 60)),
            sec_log E ''abuse.rate.ip'' [(''ip'', JStr ip), (''path'', JStr (rq_path req))] s1)
         else (None, s1))"

definition rl_baseline_user :: "env \<Rightarrow> request \<Rightarrow> stage" where
  "rl_baseline_user E req s = (case user_of req of
     None \<Rightarrow> (None, s)
   | Some userId \<Rightarrow>
       (let (userCount, s1) = bump (tmpl ''rate:any:user:'' userId) 60 s
        in if userCount > rate_user_per_min_default E then
             (Some (Rejected 429 ''Too many requests for user'' (Some 60)),
              sec_log E ''abuse.rate.user'' [(''userId'', JStr userId), (''path'', JStr (rq_path req))] s1)
           else (None, s1)))"

text \<open>\<open>bump(`abuse:ip:${ip}`, 600)\<close> and the block of an address that goes on.\<close>

definition auto_block :: "string \<Rightarrow> int \<Rightarrow> redis \<Rightarrow> redis" where
  "auto_block ip bound s =
     (let (b, s1) = bump (tmpl ''abuse:ip:'' ip) 600 s
      in if b > bound then r_setex (block_key ip) (Txt ''1'') 900 s1 else s1)"

definition rl_docs :: "env \<Rightarrow> request \<Rightarrow> stage" where
  "rl_docs E req s =
     (let ip = getIp req in
      if starts_with (rq_path req) ''/api/docs'' then
        (let key = (case user_of req of Some u \<Rightarrow> tmpl ''rate:docs:user:'' u | None \<Rightarrow> tmpl ''rate:docs:ip:'' ip);
             (val, s1) = bump key 60 s
         in if val > rate_docs_per_min E then
              (Some (Rejected 429 ''Rate limit exceeded for documents'' (Some 60)),
               auto_block ip 50
                 (sec_log E ''abuse.rate.docs''
                    ([(''ip'', JStr ip)] @ opt_field ''userId'' (rq_user_id req)
                     @ [(''path'', JStr (rq_path req))]) s1))
            else (None, s1))
      else (None, s))"

text \<open>\<open>/\/comments(\/|$)/.test(path)\<close>.\<close>

definition comments_path :: "string \<Rightarrow> bool" where
  "comments_path p \<longleftrightarrow> has_sub p ''/comments/'' \<or> starts_with (rev p) (rev ''/comments'')"

definition body_text :: "json \<Rightarrow> string" where
  "body_text b =
     (if jstr ''comment'' b \<noteq> [] then jstr ''comment'' b
      else if jstr ''text'' b \<noteq> [] then jstr ''text'' b
      else jstr ''content'' b)"

definition rl_comment_text :: "env \<Rightarrow> request \<Rightarrow> stage" where
  "rl_comment_text E req s =
     (let ip = getIp req;
          text = body_text (rq_body req);
          who = [(''ip'', JStr ip)] @ opt_field ''userId'' (rq_user_id req);
          n = int (distinct_mentions text)
      in if text = [] then (None, s)
         else if n > mention_max_per_comment E then
           (Some (Rejected 400 ''Too many mentions in a single comment'' None),
            sec_log E ''abuse.comment.mentions'' (who @ [(''count'', JNum n)]) s)
         else if containsProfanity E text then
           (Some (Rejected 400 ''Profanity is not allowed'' None),
            sec_log E ''abuse.comment.profanity'' who s)
         else (None, s))"

definition rl_comments :: "env \<Rightarrow> request \<Rightarrow> stage" where
  "rl_comments E req s =
     (let ip = getIp req in
      if comments_path (rq_path req) \<and> rq_method req = ''POST'' then
        (let key = (case user_of req of Some u \<Rightarrow> tmpl ''rate:comment:user:'' u | None \<Rightarrow> tmpl ''rate:comment:ip:'' ip);
             (val, s1) = bump key 60 s
         in if val > comment_rate_per_min E then
              (Some (Rejected 429 ''Too many comments'' None),
               auto_block ip 20
                 (sec_log E ''abuse.comment.flood''
                    ([(''ip'', JStr ip)] @ opt_field ''userId'' (rq_user_id req)) s1))
            else rl_comment_text E req s1)
      else (None, s))"

definition tooManyDistinctPaths :: "env \<Rightarrow> string \<Rightarrow> redis \<Rightarrow> bool \<times> redis" where
  "tooManyDistinctPaths E ip s =
     (let key = tmpl ''paths:'' ip;
          (_, s1) = r_sadd key (show_int (clock s)) s;
          s2 = r_expire key 60 s1
      in (int (r_scard key s2) > bot_path_variety_threshold E, s2))"

definition rl_bot :: "env \<Rightarrow> request \<Rightarrow> stage" where
  "rl_bot E req s =
     (let ip = getIp req; (many, s1) = tooManyDistinctPaths E ip s
      in if many then
           (Some (Rejected 429 ''Blocked due to suspicious activity'' None),
            r_setex (block_key ip) (Txt ''1'') 600 (sec_log E ''abuse.bot.pattern'' [(''ip'', JStr ip)] s1))
         else (None, s1))"

definition rl_blocked :: "request \<Rightarrow> stage" where
  "rl_blocked req s =
     (if r_get (block_key (getIp req)) s \<noteq> None then (Some (Rejected 429 ''Temporarily blocked'' None), s)
      else (None, s))"

definition rl_emergency :: "env \<Rightarrow> request \<Rightarrow> stage" where
  "rl_emergency E req s =
     (let ip = getIp req in
      if emergency_rate_limit_per_ip E > 0 then
        (let (val, s1) = bump (tmpl ''rate:ip:'' (ip @ '':global'')) 60 s
         in if val > emergency_rate_limit_per_ip E then
              (Some (Rejected 429 ''Too many requests'' (Some 60)),
               sec_log E ''abuse.rate.emergency'' [(''ip'', JStr ip)] s1)
            else (None, s1))
      else (None, s))"

definition rl_limits :: "env \<Rightarrow> request \<Rightarrow> stage" where
  "rl_limits E req =
     (if is_admin E req then (\<lambda>s. (None, s))
      else then_stage (rl_baseline_ip E req) (then_stage (rl_baseline_user E req)
             (then_stage (rl_docs E req) (rl_comments E req))))"

text \<open>
  The middleware. The second component says that the \<open>finish\<close> callback was registered, the last
  that \<open>next()\<close> is called (\<open>None\<close>) or which response ends the request.
\<close>

definition rateLimit :: "env \<Rightarrow> request \<Rightarrow> rl_state \<Rightarrow> rl_state \<times> bool \<times> response option" where
  "rateLimit E req st =
     (let ip = getIp req in
      case then_stage (rl_blocked req) (rl_emergency E req) (rl_redis st) of
        (Some r, s1) \<Rightarrow> (st\<lparr>rl_redis := s1\<rparr>, False, Some r)
      | (None, s1) \<Rightarrow>
          let n = inflight st ip + 1 in
          if n > max_concurrent_per_ip E then
            (st\<lparr>rl_redis := s1, inflight := (inflight st)(ip := n - 1)\<rparr>, False,
             Some (Rejected 429 ''Too many concurrent requests'' None))
          else
            let (r, s2) = then_stage (rl_limits E req) (rl_bot E req) s1
            in (st\<lparr>rl_redis := s2, inflight := (inflight st)(ip := n)\<rparr>, True, r))"

text \<open>The \<open>finish\<close> callback of a request of address \<open>ip\<close>.\<close>

definition rl_finish :: "string \<Rightarrow> rl_state \<Rightarrow> rl_state" where
  "rl_finish ip st =
     st\<lparr>inflight := (inflight st)(ip :=
          max 0 ((if inflight st ip = 0 then 1 else inflight st ip) - 1))\<rparr>"

section \<open>What a stage leaves alone\<close>

lemma then_stage_None:
  "then_stage f g s = (None, s') \<longleftrightarrow> (\<exists>s1. f s = (None, s1) \<and> g s1 = (None, s'))"
  by (auto simp: then_stage_def split: prod.splits option.splits)

definition keeps :: "string \<Rightarrow> stage \<Rightarrow> bool" where
  "keeps k f \<longleftrightarrow> (\<forall>s. entry (snd (f s)) k = entry s k \<and> clock (snd (f s)) = clock s)"

lemma keepsI: "(\<And>s. entry (snd (f s)) k = entry s k) \<Longrightarrow> (\<And>s. clock (snd (f s)) = clock s) \<Longrightarrow> keeps k f"
  by (simp add: keeps_def)

lemma keeps_then: "keeps k f \<Longrightarrow> keeps k g \<Longrightarrow> keeps k (then_stage f g)"
  by (simp add: keeps_def then_stage_def split: prod.splits option.splits) (metis snd_conv)

lemma auto_block_frame:
  "k \<noteq> tmpl ''abuse:ip:'' ip \<Longrightarrow> k \<noteq> block_key ip \<Longrightarrow> entry (auto_block ip n s) k = entry s k"
  "clock (auto_block ip n s) = clock s"
  by (auto simp: auto_block_def key_simps bump_entry case_prod_beta Let_def)

lemmas stage_frame = Let_def case_prod_beta bump_entry bump_clock entry_sec_log sec_log_clock
  auto_block_frame key_simps

text \<open>The counter of an address, which only \<open>rl_baseline_ip\<close> changes.\<close>

definition ip_key :: "string \<Rightarrow> string" where
  "ip_key ip = tmpl ''rate:any:ip:'' ip"

lemma ip_key_differs [simp]:
  "\<not> log_key (ip_key ip)" "ip_key ip \<noteq> tmpl ''abuse:ip:'' x" "ip_key ip \<noteq> block_key x"
  "ip_key ip \<noteq> tmpl ''paths:'' x" "ip_key ip \<noteq> tmpl ''rate:any:user:'' x"
  "ip_key ip \<noteq> tmpl ''rate:docs:user:'' x" "ip_key ip \<noteq> tmpl ''rate:docs:ip:'' x"
  "ip_key ip \<noteq> tmpl ''rate:comment:user:'' x" "ip_key ip \<noteq> tmpl ''rate:comment:ip:'' x"
  "ip_key ip \<noteq> tmpl ''rate:ip:'' x"
  by (simp_all add: ip_key_def log_key_def block_key_def)

lemma keeps_ip_key:
  "keeps (ip_key ip) (rl_blocked req)" "keeps (ip_key ip) (rl_emergency E req)"
  "keeps (ip_key ip) (rl_baseline_user E req)" "keeps (ip_key ip) (rl_docs E req)"
  "keeps (ip_key ip) (rl_comments E req)" "keeps (ip_key ip) (rl_bot E req)"
proof -
  show "keeps (ip_key ip) (rl_blocked req)" by (simp add: keeps_def rl_blocked_def)
  show "keeps (ip_key ip) (rl_emergency E req)"
    by (rule keepsI) (simp_all add: rl_emergency_def stage_frame)
  show "keeps (ip_key ip) (rl_baseline_user E req)"
    by (rule keepsI) (simp_all add: rl_baseline_user_def stage_frame split: option.split)
  show "keeps (ip_key ip) (rl_docs E req)"
    by (rule keepsI) (simp_all add: rl_docs_def stage_frame split: option.split)
  have "keeps (ip_key ip) (rl_comment_text E req)"
    by (rule keepsI) (simp_all add: rl_comment_text_def stage_frame)
  then show "keeps (ip_key ip) (rl_comments E req)"
    unfolding keeps_def by (simp add: rl_comments_def stage_frame split: option.split)
  show "keeps (ip_key ip) (rl_bot E req)"
    by (rule keepsI) (simp_all add: rl_bot_def tooManyDistinctPaths_def stage_frame)
qed

section \<open>What gets past the middleware\<close>

lemma rl_limits_pass:
  assumes "rl_limits E req s = (None, s')" and "\<not> is_admin E req"
  obtains s1 s2 s3 where "rl_baseline_ip E req s = (None, s1)" "rl_baseline_user E req s1 = (None, s2)"
    "rl_docs E req s2 = (None, s3)" "rl_comments E req s3 = (None, s')"
  using assms by (auto simp: rl_limits_def then_stage_None)

lemma rateLimit_pass:
  assumes "rateLimit E req st = (st', tr, None)"
  obtains s1 s2 where "then_stage (rl_blocked req) (rl_emergency E req) (rl_redis st) = (None, s1)"
    "rl_limits E req s1 = (None, s2)" "rl_bot E req s2 = (None, rl_redis st')"
    "inflight st (getIp req) + 1 \<le> max_concurrent_per_ip E" "tr"
  using assms
  by (auto simp: rateLimit_def Let_def then_stage_None split: prod.splits option.splits if_splits)

text \<open>a comment that reaches the controllers, from anyone but an administrator, has at most
  \<open>MENTION_MAX_PER_COMMENT\<close> distinct mentions and no listed word.\<close>

theorem comment_filter_enforced:
  assumes "rateLimit E req st = (st', tr, None)" and "\<not> is_admin E req"
    and "rq_method req = ''POST''" and "comments_path (rq_path req)"
  shows "int (distinct_mentions (body_text (rq_body req))) \<le> max 0 (mention_max_per_comment E)
    \<and> \<not> containsProfanity E (body_text (rq_body req))"
proof -
  obtain s1 s2 where l: "rl_limits E req s1 = (None, s2)" using assms(1) by (rule rateLimit_pass)
  obtain s3 where "rl_comments E req s3 = (None, s2)" using l assms(2) by (rule rl_limits_pass)
  with assms(3,4) obtain s4 where t: "rl_comment_text E req s4 = (None, s2)"
    by (auto simp: rl_comments_def Let_def split: prod.splits option.splits if_splits)
  show ?thesis
  proof (cases "body_text (rq_body req) = []")
    case True
    then show ?thesis by (simp add: distinct_mentions_def containsProfanity_def js_set_def)
  next
    case False
    with t show ?thesis by (auto simp: rl_comment_text_def Let_def split: if_splits)
  qed
qed

definition demo_request :: "string \<Rightarrow> string \<Rightarrow> json \<Rightarrow> request" where
  "demo_request m p b = \<lparr>xff = None, remote_addr = Some ''9'', rq_user_id = None,
     rq_user_email = None, rq_path = p, rq_method = m, rq_body = b\<rparr>"

definition empty_rl :: rl_state where
  "empty_rl = \<lparr>rl_redis = empty_redis 0, inflight = (\<lambda>_. 0)\<rparr>"

lemma demo_ip [simp]: "getIp (demo_request m p b) = ''9''"
  by (simp add: getIp_def demo_request_def js_trim_def is_ws_def)

lemma demo_admin [simp]: "\<not> is_admin E (demo_request m p b)"
  by (simp add: is_admin_def demo_request_def)

lemma comment_filter_enforced_witness:
  "int (distinct_mentions ''hi @ann'') \<le> max 0 (mention_max_per_comment default_env)
    \<and> \<not> containsProfanity default_env ''hi @ann''"
proof -
  let ?r = "demo_request ''POST'' ''/comments'' (JObj [(''text'', JStr ''hi @ann'')])"
  have "snd (snd (rateLimit default_env ?r empty_rl)) = None"
    by code_simp
  then obtain st' tr where "rateLimit default_env ?r empty_rl = (st', tr, None)"
    by (metis prod.collapse)
  from comment_filter_enforced [OF this demo_admin] show ?thesis
    by (simp add: demo_request_def comments_path_def body_text_def jstr_def starts_with_def)
qed

section \<open>The limit per address\<close>

text \<open>Requests with the time before each; the responses in order, \<open>None\<close> for one let through.\<close>

definition rl_tick :: "int \<Rightarrow> rl_state \<Rightarrow> rl_state" where
  "rl_tick d st = st\<lparr>rl_redis := tick d (rl_redis st)\<rparr>"

fun rl_run :: "env \<Rightarrow> (int \<times> request) list \<Rightarrow> rl_state \<Rightarrow> response option list" where
  "rl_run E [] st = []"
| "rl_run E ((d, req) # rs) st =
     (let (st', _, r) = rateLimit E req (rl_tick d st) in r # rl_run E rs st')"

definition passes :: "response option list \<Rightarrow> int" where
  "passes rs = int (length (filter (\<lambda>r. r = None) rs))"

lemma baseline_ip_split:
  "rl_baseline_ip E req s =
     (if fst (within_limit (ip_key (getIp req)) 60 (rate_ip_per_min_default E) s) then
        (None, snd (within_limit (ip_key (getIp req)) 60 (rate_ip_per_min_default E) s))
      else (Some (Rejected 429 ''Too many requests from this IP'' (Some 60)),
        sec_log E ''abuse.rate.ip'' [(''ip'', JStr (getIp req)), (''path'', JStr (rq_path req))]
          (snd (within_limit (ip_key (getIp req)) 60 (rate_ip_per_min_default E) s))))"
  by (simp add: rl_baseline_ip_def within_limit_def ip_key_def Let_def case_prod_beta not_less)

text \<open>What one request does to the counter of its address: nothing, or one count, and nothing gets
  past without a count within the limit.\<close>

lemma keepsD: "keeps k f \<Longrightarrow> f s = (r, s') \<Longrightarrow> entry s' k = entry s k \<and> clock s' = clock s"
  by (metis keeps_def snd_conv)

lemma rl_limits_counter:
  assumes "\<not> is_admin E req" and "rl_limits E req s = (r, s')" and "getIp req = ip"
  shows "clock s' = clock s \<and>
    entry s' (ip_key ip) = entry (snd (within_limit (ip_key ip) 60 (rate_ip_per_min_default E) s)) (ip_key ip)
    \<and> (r = None \<longrightarrow> fst (within_limit (ip_key ip) 60 (rate_ip_per_min_default E) s))"
proof -
  let ?w = "within_limit (ip_key ip) 60 (rate_ip_per_min_default E) s"
  let ?g = "then_stage (rl_baseline_user E req) (then_stage (rl_docs E req) (rl_comments E req))"
  have g: "keeps (ip_key ip) ?g" by (intro keeps_then keeps_ip_key)
  have c: "clock (snd ?w) = clock s" by (rule per_minute.admit_clock)
  show ?thesis
  proof (cases "fst ?w")
    case True
    with assms have "?g (snd ?w) = (r, s')"
      by (simp add: rl_limits_def then_stage_def baseline_ip_split)
    with keepsD [OF g] True c show ?thesis by metis
  next
    case False
    with assms c show ?thesis
      by (auto simp: rl_limits_def then_stage_def baseline_ip_split entry_sec_log)
  qed
qed

lemma rateLimit_counter:
  assumes "\<not> is_admin E req" and "rateLimit E req st = (st', tr, r)" and "getIp req = ip"
  shows "clock (rl_redis st') = clock (rl_redis st) \<and>
   ((r \<noteq> None \<and> entry (rl_redis st') (ip_key ip) = entry (rl_redis st) (ip_key ip)) \<or>
    (\<exists>s. entry s (ip_key ip) = entry (rl_redis st) (ip_key ip) \<and> clock s = clock (rl_redis st) \<and>
       entry (rl_redis st') (ip_key ip) =
         entry (snd (within_limit (ip_key ip) 60 (rate_ip_per_min_default E) s)) (ip_key ip)
       \<and> (r = None \<longrightarrow> fst (within_limit (ip_key ip) 60 (rate_ip_per_min_default E) s))))"
proof -
  let ?pre = "then_stage (rl_blocked req) (rl_emergency E req)"
  obtain r1 s1 where p: "?pre (rl_redis st) = (r1, s1)" by (cases "?pre (rl_redis st)")
  have "keeps (ip_key ip) ?pre" by (intro keeps_then keeps_ip_key)
  from keepsD [OF this p] have k1: "entry s1 (ip_key ip) = entry (rl_redis st) (ip_key ip)"
    "clock s1 = clock (rl_redis st)" by simp_all
  show ?thesis
  proof (cases "r1 = None \<and> \<not> inflight st ip + 1 > max_concurrent_per_ip E")
    case False
    with assms p k1 show ?thesis by (auto simp: rateLimit_def Let_def split: option.splits)
  next
    case True
    obtain r2 s2 where l: "rl_limits E req s1 = (r2, s2)" by (cases "rl_limits E req s1")
    note lc = rl_limits_counter [OF assms(1) l assms(3)]
    show ?thesis
    proof (cases r2)
      case (Some x)
      with True assms p l lc k1 show ?thesis
        by (intro conjI disjI2 exI [of _ s1]) (auto simp: rateLimit_def Let_def then_stage_def)
    next
      case None
      obtain s3 where b: "rl_bot E req s2 = (r, s3)" "rl_redis st' = s3"
        using True None assms p l by (auto simp: rateLimit_def Let_def then_stage_def split: prod.splits)
      from keepsD [OF keeps_ip_key(6) b(1)] b(2) lc k1 None show ?thesis
        by (intro conjI disjI2 exI [of _ s1]) auto
    qed
  qed
qed

lemma rl_run_counted:
  assumes "entry (rl_redis st) (ip_key ip) = Some (RText (Num n), Some t)" and "1 \<le> n"
    and "\<forall>(d, req) \<in> set rs. 0 \<le> d \<and> getIp req = ip \<and> \<not> is_admin E req"
    and "clock (rl_redis st) + sum_list (map fst rs) < t"
  shows "passes (rl_run E rs st) \<le> max 0 (rate_ip_per_min_default E - n)"
  using assms
proof (induction rs arbitrary: st n)
  case Nil
  then show ?case by (simp add: passes_def)
next
  case (Cons x rs)
  obtain d req where x: "x = (d, req)" by (cases x)
  obtain st' tr r where rl: "rateLimit E req (rl_tick d st) = (st', tr, r)"
    by (cases "rateLimit E req (rl_tick d st)")
  let ?l = "rate_ip_per_min_default E"
  have dr: "0 \<le> d" "getIp req = ip" "\<not> is_admin E req" using Cons.prems(3) x by auto
  have "0 \<le> sum_list (map fst rs)" using Cons.prems(3) by (intro sum_list_nonneg) auto
  with Cons.prems dr x have e: "entry (rl_redis (rl_tick d st)) (ip_key ip) = Some (RText (Num n), Some t)"
    by (simp add: rl_tick_def entry_tick)
  have c: "clock (rl_redis st') = clock (rl_redis st) + d"
    using rateLimit_counter [OF dr(3) rl dr(2)] by (simp add: rl_tick_def)
  have rest: "clock (rl_redis st') + sum_list (map fst rs) < t"
    using Cons.prems(4) c x by simp
  have q: "\<forall>(d, req) \<in> set rs. 0 \<le> d \<and> getIp req = ip \<and> \<not> is_admin E req"
    using Cons.prems(3) by simp
  consider "r \<noteq> None" "entry (rl_redis st') (ip_key ip) = Some (RText (Num n), Some t)"
    | "entry (rl_redis st') (ip_key ip) = Some (RText (Num (n + 1)), Some t)" "r = None \<longrightarrow> n + 1 \<le> ?l"
    using rateLimit_counter [OF dr(3) rl dr(2)] e per_minute.admit_next [OF _ Cons.prems(2)] by metis
  then show ?case
  proof cases
    case 1
    with Cons.IH [OF 1(2) Cons.prems(2) q rest] rl x show ?thesis by (auto simp: passes_def)
  next
    case 2
    have "1 \<le> n + 1" using Cons.prems(2) by simp
    from Cons.IH [OF 2(1) this q rest] rl x 2(2) show ?thesis by (auto simp: passes_def)
  qed
qed



section \<open>Concurrent requests of an address\<close>

text \<open>
  The interleaving of requests and the ends of their responses: the state with the addresses of
  the requests whose \<open>finish\<close> callback is still to come.
\<close>

inductive rl_step :: "env \<Rightarrow> rl_state \<times> string list \<Rightarrow> rl_state \<times> string list \<Rightarrow> bool" for E where
  arrive: "rateLimit E req st = (st', tr, r) \<Longrightarrow>
     rl_step E (st, op) (st', if tr then getIp req # op else op)"
| finished: "ip \<in> set op \<Longrightarrow> rl_step E (st, op) (rl_finish ip st, remove1 ip op)"
| passing: "0 \<le> d \<Longrightarrow> rl_step E (st, op) (rl_tick d st, op)"

inductive_cases rl_stepE: "rl_step E (st, op) c"

text \<open>The requests of an address under way.\<close>

definition under_way :: "string \<Rightarrow> string list \<Rightarrow> int" where
  "under_way ip op = int (length (filter (\<lambda>x. x = ip) op))"

definition inflight_ok :: "env \<Rightarrow> rl_state \<times> string list \<Rightarrow> bool" where
  "inflight_ok E c \<longleftrightarrow>
     (\<forall>ip. inflight (fst c) ip = under_way ip (snd c)
        \<and> under_way ip (snd c) \<le> max 0 (max_concurrent_per_ip E))"

lemma rateLimit_inflight:
  assumes "rateLimit E req st = (st', tr, r)"
  shows "inflight st' = (if tr then (inflight st)(getIp req := inflight st (getIp req) + 1) else inflight st)
    \<and> (tr \<longrightarrow> inflight st (getIp req) + 1 \<le> max_concurrent_per_ip E)"
  using assms by (auto simp: rateLimit_def Let_def split: prod.splits option.splits if_splits)

lemma under_way_remove1:
  "under_way ip (remove1 x op) = (if x = ip \<and> x \<in> set op then under_way ip op - 1 else under_way ip op)"
proof (induction op)
  case (Cons a op)
  then show ?case
    by (cases "x = a") (auto simp: under_way_def filter_empty_conv split: if_splits)
qed (simp add: under_way_def)

lemma inflight_ok_step: "rl_step E c c' \<Longrightarrow> inflight_ok E c \<Longrightarrow> inflight_ok E c'"
proof (induction rule: rl_step.induct)
  case (arrive req st st' tr r op)
  from rateLimit_inflight [OF arrive.hyps] arrive.prems show ?case
    by (auto simp: inflight_ok_def under_way_def)
next
  case (finished ip op st)
  then have "1 \<le> under_way ip op"
    by (auto simp: under_way_def filter_empty_conv Suc_le_eq length_greater_0_conv [symmetric] simp del: length_greater_0_conv)
  with finished show ?case
    by (auto simp: inflight_ok_def rl_finish_def under_way_remove1)
       (smt (verit))+
next
  case (passing d st op)
  then show ?case by (simp add: inflight_ok_def rl_tick_def)
qed

text \<open>whatever way requests and ends of responses interleave, the in-process counter of an
  address is the number of its requests under way, and that is never above
  \<open>MAX_CONCURRENT_PER_IP\<close>: no count leaks and none is lost.\<close>

theorem inflight_counts_requests:
  assumes "(rl_step E)\<^sup>*\<^sup>* (\<lparr>rl_redis = s, inflight = (\<lambda>_. 0)\<rparr>, []) (st, op)"
  shows "inflight st ip = under_way ip op \<and> under_way ip op \<le> max 0 (max_concurrent_per_ip E)"
proof -
  have "inflight_ok E (\<lparr>rl_redis = s, inflight = (\<lambda>_. 0)\<rparr>, [])"
    by (simp add: inflight_ok_def under_way_def)
  with assms have "inflight_ok E (st, op)"
    by (induction rule: rtranclp_induct) (auto intro: inflight_ok_step)
  then show ?thesis by (simp add: inflight_ok_def)
qed

lemma inflight_counts_requests_witness:
  "inflight (fst (rateLimit default_env (demo_request ''GET'' ''/a'' JNull) empty_rl)) ''9'' = 1"
proof -
  let ?r = "demo_request ''GET'' ''/a'' JNull"
  obtain st' tr r where rl: "rateLimit default_env ?r empty_rl = (st', tr, r)"
    by (cases "rateLimit default_env ?r empty_rl")
  have tr: "fst (snd (rateLimit default_env ?r empty_rl))" by code_simp
  have "rl_step default_env (empty_rl, []) (st', if tr then getIp ?r # [] else [])"
    by (rule rl_step.arrive [OF rl])
  then have "(rl_step default_env)\<^sup>*\<^sup>* (empty_rl, []) (st', [''9''])"
    using rl tr by (simp add: r_into_rtranclp)
  from inflight_counts_requests [OF this [unfolded empty_rl_def], of "''9''"] rl show ?thesis
    by (simp add: under_way_def)
qed

section \<open>Blocks\<close>

lemma rateLimit_blocked:
  "r_get (block_key (getIp req)) (rl_redis st) \<noteq> None \<Longrightarrow>
     rateLimit E req st = (st, False, Some (Rejected 429 ''Temporarily blocked'' None))"
  by (simp add: rateLimit_def then_stage_def rl_blocked_def Let_def)

text \<open>an address with more than \<open>AUTH_FAIL_BLOCK_THRESHOLD\<close> failed logins at one account within
  ten minutes is shut out: every request it makes in the next fifteen minutes is answered 429, and
  changes nothing.\<close>

theorem login_attack_shuts_out:
  assumes "entry s (attack_key email (getIp req)) = None"
    and "\<forall>d \<in> set ds. 0 \<le> d" and "sum_list ds < 600000"
    and "int (length ds) = auth_fail_block_threshold E + 1" and "1 \<le> auth_fail_block_threshold E"
    and "0 \<le> d" and "d < 900000"
    and "rl_redis st = tick d (fail_run E email (getIp req) ds s)"
  shows "rateLimit E req st = (st, False, Some (Rejected 429 ''Temporarily blocked'' None))"
proof (rule rateLimit_blocked)
  have "entry (fail_run E email (getIp req) ds s) (block_key (getIp req)) =
      Some (RText (Txt ''1''), Some (clock (fail_run E email (getIp req) ds s) + 900000))"
    using assms by (intro fail_run_blocks) simp_all
  with assms show "r_get (block_key (getIp req)) (rl_redis st) \<noteq> None"
    by (simp add: r_get_def entry_tick)
qed

lemma login_attack_shuts_out_witness:
  "snd (snd (rateLimit (default_env\<lparr>auth_fail_block_threshold := 1\<rparr>) (demo_request ''GET'' ''/a'' JNull)
     \<lparr>rl_redis = tick 5 (fail_run (default_env\<lparr>auth_fail_block_threshold := 1\<rparr>) ''e'' ''9'' [0, 7] (empty_redis 0)),
      inflight = (\<lambda>_. 0)\<rparr>)) = Some (Rejected 429 ''Temporarily blocked'' None)"
  using login_attack_shuts_out [of "empty_redis 0" "''e''" "demo_request ''GET'' ''/a'' JNull" "[0, 7]"
      "default_env\<lparr>auth_fail_block_threshold := 1\<rparr>" 5
      "\<lparr>rl_redis = tick 5 (fail_run (default_env\<lparr>auth_fail_block_threshold := 1\<rparr>) ''e'' ''9'' [0, 7] (empty_redis 0)),
      inflight = (\<lambda>_. 0)\<rparr>"]
  by (simp add: empty_redis_def entry_def default_env_def)

section \<open>The bot detector\<close>

text \<open>What the detector has stored after \<open>n\<close> calls: \<open>n\<close> time stamps, kept for a minute.\<close>

definition stamps :: "string \<Rightarrow> nat \<Rightarrow> redis \<Rightarrow> bool" where
  "stamps ip n s \<longleftrightarrow> 0 \<le> clock s \<and> (\<exists>ms.
     entry s (tmpl ''paths:'' ip) = Some (RSet ms, Some (clock s + 60000)) \<and> length ms = n
     \<and> (\<forall>m \<in> set ms. \<exists>t. 0 \<le> t \<and> t \<le> clock s \<and> m = show_int t))"

lemma stamps_first:
  assumes "entry s (tmpl ''paths:'' ip) = None" and "0 \<le> clock s"
  shows "fst (tooManyDistinctPaths E ip s) = (1 > bot_path_variety_threshold E)"
    and "stamps ip 1 (snd (tooManyDistinctPaths E ip s))"
  using assms
  by (auto simp: tooManyDistinctPaths_def Let_def redis_defs key_simps stamps_def)

lemma stamps_next:
  assumes "stamps ip n s" and "0 < d" and "d < 60000"
  shows "fst (tooManyDistinctPaths E ip (tick d s)) = (int n + 1 > bot_path_variety_threshold E)"
    and "stamps ip (Suc n) (snd (tooManyDistinctPaths E ip (tick d s)))"
proof -
  obtain ms where e: "entry s (tmpl ''paths:'' ip) = Some (RSet ms, Some (clock s + 60000))"
    and n: "length ms = n" and m: "\<forall>m \<in> set ms. \<exists>t. 0 \<le> t \<and> t \<le> clock s \<and> m = show_int t"
    and c: "0 \<le> clock s"
    using assms(1) by (auto simp: stamps_def)
  have new: "show_int (clock s + d) \<notin> set ms"
    using m c assms(2) by (fastforce simp: show_int_inj)
  have e1: "entry (tick d s) (tmpl ''paths:'' ip) = Some (RSet ms, Some (clock s + 60000))"
    using e assms by (simp add: entry_tick)
  have x: "snd (tooManyDistinctPaths E ip (tick d s)) =
      put (tmpl ''paths:'' ip) (RSet (ms @ [show_int (clock s + d)])) (Some (clock s + d + 60000))
       (put (tmpl ''paths:'' ip) (RSet (ms @ [show_int (clock s + d)])) (Some (clock s + 60000)) (tick d s))"
    using e1 new assms(3)
    by (simp add: tooManyDistinctPaths_def Let_def redis_defs key_simps)
  show "fst (tooManyDistinctPaths E ip (tick d s)) = (int n + 1 > bot_path_variety_threshold E)"
    using e1 new assms(3) n
    by (simp add: tooManyDistinctPaths_def Let_def redis_defs key_simps) linarith
  have "\<forall>m \<in> set (ms @ [show_int (clock s + d)]). \<exists>t. 0 \<le> t \<and> t \<le> clock s + d \<and> m = show_int t"
  proof
    fix m' assume "m' \<in> set (ms @ [show_int (clock s + d)])"
    then consider "m' \<in> set ms" | "m' = show_int (clock s + d)" by auto
    then show "\<exists>t. 0 \<le> t \<and> t \<le> clock s + d \<and> m' = show_int t"
    proof cases
      case 1
      with m assms(2) show ?thesis by (metis add_increasing2 less_imp_le order_trans)
    next
      case 2
      with c assms(2) show ?thesis by (intro exI [of _ "clock s + d"]) simp
    qed
  qed
  then show "stamps ip (Suc n) (snd (tooManyDistinctPaths E ip (tick d s)))"
    unfolding x stamps_def using c n assms(2) by (simp add: key_simps)
qed

lemma stamps_run:
  assumes "stamps ip n s" and "\<forall>d \<in> set ds. 0 < d \<and> d < 60000"
  shows "fst (window_run (tooManyDistinctPaths E ip) ds s) =
    map (\<lambda>i. int (n + i) + 1 > bot_path_variety_threshold E) [0..<length ds]"
  using assms
proof (induction ds arbitrary: s n)
  case (Cons d ds)
  have d: "0 < d" "d < 60000" using Cons.prems(2) by auto
  obtain b s1 where b: "tooManyDistinctPaths E ip (tick d s) = (b, s1)"
    by (cases "tooManyDistinctPaths E ip (tick d s)")
  note n = stamps_next [OF Cons.prems(1) d, of E]
  obtain bs s2 where r: "window_run (tooManyDistinctPaths E ip) ds s1 = (bs, s2)"
    by (cases "window_run (tooManyDistinctPaths E ip) ds s1")
  have "bs = map (\<lambda>i. int (n + Suc i) + 1 > bot_path_variety_threshold E) [0..<length ds]"
    using Cons.IH [of "Suc n" s1] n(2) b r Cons.prems(2) by simp
  moreover have "b = (int n + 1 > bot_path_variety_threshold E)" using n(1) b by simp
  ultimately show ?case
    by (simp only: window_run.simps b r Let_def split_conv fst_conv prod.case) (rule shift_run, simp_all)
qed simp

text \<open>the detector of \<open>tooManyDistinctPaths\<close> counts calls, not paths: of the requests of an address
  that are at most a minute apart (no two in the same millisecond), the one after the first
  \<open>BOT_PATH_VARIETY_THRESHOLD\<close> is taken for a bot, over however long a time and to however few paths
  they go.\<close>

theorem bot_detector_counts_requests:
  assumes "entry s (tmpl ''paths:'' ip) = None" and "0 \<le> clock s" and "0 \<le> d"
    and "\<forall>x \<in> set ds. 0 < x \<and> x < 60000"
  shows "fst (window_run (tooManyDistinctPaths E ip) (d # ds) s) =
    map (\<lambda>i. int i + 1 > bot_path_variety_threshold E) [0..<Suc (length ds)]"
proof -
  have e: "entry (tick d s) (tmpl ''paths:'' ip) = None" using assms by (simp add: entry_tick_None)
  have c: "0 \<le> clock (tick d s)" using assms by simp
  obtain b s1 where b: "tooManyDistinctPaths E ip (tick d s) = (b, s1)"
    by (cases "tooManyDistinctPaths E ip (tick d s)")
  obtain bs s2 where r: "window_run (tooManyDistinctPaths E ip) ds s1 = (bs, s2)"
    by (cases "window_run (tooManyDistinctPaths E ip) ds s1")
  note f = stamps_first [OF e c, of E]
  have "bs = map (\<lambda>i. int (Suc i) + 1 > bot_path_variety_threshold E) [0..<length ds]"
    using stamps_run [of ip 1 s1 ds E] f(2) b r assms(4) by simp
  moreover have "b = (int 0 + 1 > bot_path_variety_threshold E)" using f(1) b by simp
  ultimately have "b # bs = map (\<lambda>i. int i + 1 > bot_path_variety_threshold E) [0..<length (d # ds)]"
    by (intro shift_run)
  then show ?thesis by (simp add: b r del: upt_Suc)
qed

lemma bot_detector_counts_requests_witness:
  "fst (window_run (tooManyDistinctPaths (default_env\<lparr>bot_path_variety_threshold := 2\<rparr>) ''9'')
     [0, 50000, 50000] (empty_redis 0)) = [False, False, True]"
  using bot_detector_counts_requests [of "empty_redis 0" "''9''" 0 "[50000, 50000]"
      "default_env\<lparr>bot_path_variety_threshold := 2\<rparr>"]
  by (simp add: empty_redis_def entry_def default_env_def upt_rec)

end
