(* ===== verification/Sanitize.thy ===== *)
theory Sanitize
  imports Prelude
begin

text \<open>
  Cleaning of input: \<open>sanitizeHtml\<close> and \<open>stripHtml\<close> (\<open>api/src/common/sanitize.ts\<close>), and
  \<open>cleanObject\<close> of the request middleware (\<open>api/src/common/middleware/sanitize-requests.middleware.ts\<close>).
  A regular expression with the \<open>g\<close> flag is a function that says how long a match at the beginning
  of a text is, and \<open>replace\<close> works through the text with it, from left to right and without
  overlap. None of the expressions of the source backtracks into a different match: each class is
  followed by a character outside it.
\<close>

section \<open>Replacing\<close>

text \<open>What a match is replaced with: \<open>None\<close> where there is none, else its length and replacement.\<close>

type_synonym matcher = "string \<Rightarrow> (nat \<times> string) option"

function replace_all :: "matcher \<Rightarrow> string \<Rightarrow> string" where
  "replace_all m [] = []"
| "replace_all m (c # t) =
     (case m (c # t) of
        None \<Rightarrow> c # replace_all m t
      | Some (n, r) \<Rightarrow> r @ replace_all m (drop (n - 1) t))"
  by pat_completeness auto
termination
  by (relation "measure (length \<circ> snd)") auto

definition ci_starts :: "string \<Rightarrow> string \<Rightarrow> bool" where
  "ci_starts s p \<longleftrightarrow> starts_with (to_lower s) p"

definition is_letter :: "char \<Rightarrow> bool" where
  "is_letter c \<longleftrightarrow> (CHR ''a'' \<le> c \<and> c \<le> CHR ''z'') \<or> (CHR ''A'' \<le> c \<and> c \<le> CHR ''Z'')"

definition is_alnum :: "char \<Rightarrow> bool" where
  "is_alnum c \<longleftrightarrow> is_letter c \<or> (CHR ''0'' \<le> c \<and> c \<le> CHR ''9'')"

text \<open>\<open>X*d\<close> for a class \<open>X\<close> that excludes the character \<open>d\<close>: the length of the match.\<close>

definition upto_char :: "char \<Rightarrow> string \<Rightarrow> nat option" where
  "upto_char d s =
     (let p = takeWhile (\<lambda>c. c \<noteq> d) s in if length p < length s then Some (length p + 1) else None)"

section \<open>The expressions of sanitizeHtml\<close>

definition m_closer :: matcher where
  "m_closer s =
     (if ci_starts s ''</script>'' then Some (9, []) else if ci_starts s ''</style>'' then Some (8, []) else None)"

definition m_block_of :: "string \<Rightarrow> matcher" where
  "m_block_of tag s =
     (if ci_starts s (CHR ''<'' # tag) then
        (let n = length tag + 1 in
         case upto_char (CHR ''>'') (drop n s) of
           None \<Rightarrow> None
         | Some k \<Rightarrow>
             (case index_of (to_lower (drop (n + k) s)) (''</'' @ tag @ ''>'') of
                None \<Rightarrow> None
              | Some i \<Rightarrow> Some (n + k + i + length tag + 3, [])))
      else None)"

definition m_block :: matcher where
  "m_block s = (case m_block_of ''script'' s of Some x \<Rightarrow> Some x | None \<Rightarrow> m_block_of ''style'' s)"

definition m_handler :: "char \<Rightarrow> matcher" where
  "m_handler quote s =
     (if ci_starts s '' on'' then
        (let k = length (takeWhile is_letter (drop 3 s)) in
         if k > 0 \<and> starts_with (drop (3 + k) s) [CHR ''='', quote] then
           (case upto_char quote (drop (3 + k + 2) s) of
              None \<Rightarrow> None | Some j \<Rightarrow> Some (3 + k + 2 + j, []))
         else None)
      else None)"

definition m_jsurl :: "char \<Rightarrow> matcher" where
  "m_jsurl quote s =
     (if ci_starts s ''href'' then
        (let a = length (takeWhile is_ws (drop 4 s)) in
         if starts_with (drop (4 + a) s) ''='' then
           (let b = length (takeWhile is_ws (drop (4 + a + 1) s)); n = 4 + a + 1 + b in
            if ci_starts (drop n s) (quote # ''javascript:'') then
              (case upto_char quote (drop (n + 12) s) of
                 None \<Rightarrow> None | Some j \<Rightarrow> Some (n + 12 + j, []))
            else None)
         else None)
      else None)"

definition ALLOWED_TAGS :: "string list" where
  "ALLOWED_TAGS = [''b'', ''i'', ''em'', ''strong'', ''u'', ''p'', ''br'', ''ul'', ''ol'', ''li'', ''code'',
     ''pre'', ''span'', ''a'']"

definition m_tag :: matcher where
  "m_tag s =
     (if starts_with s ''<'' then
        (let a = (if starts_with (drop 1 s) ''/'' then 2 else 1);
             tag = takeWhile is_alnum (drop a s)
         in if tag = [] then None
            else case upto_char (CHR ''>'') (drop (a + length tag) s) of
                None \<Rightarrow> None
              | Some j \<Rightarrow>
                  let n = a + length tag + j
                  in Some (n, if to_lower tag \<in> set ALLOWED_TAGS then take n s else []))
      else None)"

definition sanitizeHtml :: "string \<Rightarrow> string" where
  "sanitizeHtml input =
     (if input = [] then input
      else
        (let o1 = replace_all m_closer input;
             o2 = replace_all m_block o1;
             o3 = replace_all (m_handler (CHR 0x22)) o2;
             o4 = replace_all (m_handler (CHR 0x27)) o3;
             o5 = replace_all (m_jsurl (CHR 0x22)) o4;
             o6 = replace_all (m_jsurl (CHR 0x27)) o5
         in replace_all m_tag o6))"

definition m_any_tag :: matcher where
  "m_any_tag s =
     (if starts_with s ''<'' then map_option (\<lambda>j. (1 + j, [])) (upto_char (CHR ''>'') (drop 1 s)) else None)"

definition stripHtml :: "string \<Rightarrow> string" where
  "stripHtml input = (if input = [] then input else replace_all m_any_tag input)"

section \<open>stripHtml\<close>

lemma replace_none: "(\<And>k. k < length s \<Longrightarrow> m (drop k s) = None) \<Longrightarrow> replace_all m s = s"
proof (induction s)
  case (Cons c t)
  have "m (c # t) = None" using Cons.prems [of 0] by simp
  moreover have "replace_all m t = t"
    by (rule Cons.IH) (use Cons.prems [of "Suc k" for k] in simp)
  ultimately show ?case by simp
qed simp

lemma upto_char_None: "upto_char d s = None \<longleftrightarrow> d \<notin> set s"
proof -
  have "length (takeWhile (\<lambda>c. c \<noteq> d) s) < length s \<longleftrightarrow> d \<in> set s"
    by (induction s) auto
  then show ?thesis by (auto simp: upto_char_def Let_def)
qed

lemma upto_char_Some:
  "upto_char d s = Some n \<Longrightarrow> 1 \<le> n \<and> n \<le> length s \<and> s = takeWhile (\<lambda>c. c \<noteq> d) s @ d # drop n s"
proof -
  assume h: "upto_char d s = Some n"
  let ?p = "takeWhile (\<lambda>c. c \<noteq> d) s"
  from h have l: "length ?p < length s" and n: "n = length ?p + 1"
    by (auto simp: upto_char_def Let_def split: if_splits)
  have "dropWhile (\<lambda>c. c \<noteq> d) s \<noteq> []" using l by (metis append_Nil2 less_irrefl takeWhile_dropWhile_id)
  then obtain x r where r: "dropWhile (\<lambda>c. c \<noteq> d) s = x # r" by (cases "dropWhile (\<lambda>c. c \<noteq> d) s") auto
  have "x = d" using r by (metis (mono_tags, lifting) hd_dropWhile list.discI list.sel(1))
  then have s: "s = ?p @ d # r" using r by (metis takeWhile_dropWhile_id)
  then have "drop n s = r" unfolding n by (metis append_Cons append_eq_conv_conj append_assoc append_Nil length_append_singleton Suc_eq_plus1)
  with s n l show ?thesis by simp
qed

text \<open>A tag in the sense of \<open>stripHtml\<close>: a \<open><\<close> with a \<open>></\<close> somewhere after it.\<close>

fun has_tag :: "string \<Rightarrow> bool" where
  "has_tag [] = False"
| "has_tag (c # t) = ((c = CHR ''<'' \<and> CHR ''>'' \<in> set t) \<or> has_tag t)"

lemma has_tag_iff: "has_tag s \<longleftrightarrow> (\<exists>k < length s. m_any_tag (drop k s) \<noteq> None)"
proof (induction s)
  case (Cons c t)
  have "m_any_tag (c # t) \<noteq> None \<longleftrightarrow> c = CHR ''<'' \<and> CHR ''>'' \<in> set t"
    using upto_char_None [of "CHR ''>''" t] by (cases "upto_char (CHR ''>'') t") (auto simp: m_any_tag_def)
  moreover have "(\<exists>k < length (c # t). m_any_tag (drop k (c # t)) \<noteq> None) \<longleftrightarrow>
      m_any_tag (c # t) \<noteq> None \<or> (\<exists>k < length t. m_any_tag (drop k t) \<noteq> None)"
    by (metis Suc_less_eq drop_Suc_Cons drop_0 length_Cons less_Suc_eq_0_disj)
  ultimately show ?case using Cons by simp
qed simp

lemma strip_gt: "CHR ''>'' \<notin> set s \<Longrightarrow> replace_all m_any_tag s = s"
proof (rule replace_none)
  fix k assume "CHR ''>'' \<notin> set s"
  then have "CHR ''>'' \<notin> set (drop 1 (drop k s))" by (meson in_set_dropD)
  then show "m_any_tag (drop k s) = None" by (simp add: m_any_tag_def upto_char_None)
qed

lemma strip_no_tag: "\<not> has_tag (replace_all m_any_tag s)"
proof (induction "length s" arbitrary: s rule: less_induct)
  case less
  show ?case
  proof (cases s)
    case (Cons c t)
    show ?thesis
    proof (cases "m_any_tag (c # t)")
      case None
      then have "\<not> (c = CHR ''<'' \<and> CHR ''>'' \<in> set t)"
        using has_tag_iff [of "c # t"] by (auto simp: m_any_tag_def upto_char_None)
      moreover have "c = CHR ''<'' \<Longrightarrow> replace_all m_any_tag t = t"
        using \<open>\<not> (c = CHR ''<'' \<and> CHR ''>'' \<in> set t)\<close> by (intro strip_gt) simp
      ultimately show ?thesis using None Cons less [of t] by auto
    next
      case (Some p)
      then obtain n where "p = (n, [])" by (auto simp: m_any_tag_def split: if_splits)
      with Some Cons less [of "drop (n - 1) t"] show ?thesis by simp
    qed
  qed simp
qed

text \<open>\<open>stripHtml\<close> leaves no tag behind (no \<open><\<close> with a \<open>></\<close> after it), changes nothing in a text
  without a tag, and so is idempotent.\<close>

theorem stripHtml_complete:
  "\<not> has_tag (stripHtml s) \<and> (\<not> has_tag s \<longrightarrow> stripHtml s = s) \<and> stripHtml (stripHtml s) = stripHtml s"
proof -
  have id: "replace_all m_any_tag x = x" if "\<not> has_tag x" for x
    using that has_tag_iff [of x] by (intro replace_none) blast
  have "\<not> has_tag (stripHtml s)" by (simp add: stripHtml_def strip_no_tag)
  moreover have "stripHtml s = s" if "\<not> has_tag s" using id [OF that] by (simp add: stripHtml_def)
  moreover have "stripHtml (stripHtml s) = stripHtml s"
    using id [OF \<open>\<not> has_tag (stripHtml s)\<close>] by (simp add: stripHtml_def [of "stripHtml s"])
  ultimately show ?thesis by blast
qed

section \<open>sanitizeHtml\<close>

lemma ci_starts_head: "ci_starts s (d # p) \<Longrightarrow> \<exists>c t. s = c # t \<and> lower_char c = d"
  by (cases s) (auto simp: ci_starts_def to_lower_def)

lemma lower_lt: "lower_char c = CHR ''<'' \<Longrightarrow> c = CHR ''<''"
proof (cases "CHR ''A'' \<le> c \<and> c \<le> CHR ''Z''")
  case True
  assume "lower_char c = CHR ''<''"
  with True have "(of_char (char_of (of_char c + 32 :: nat) :: char) :: nat) = 60"
    by (simp add: lower_char_def)
  moreover have "65 \<le> (of_char c :: nat)" "(of_char c :: nat) \<le> 90"
    using True by (simp_all add: less_eq_char_def)
  ultimately have False by (simp add: of_char_of)
  then show ?thesis ..
qed (auto simp: lower_char_def)

text \<open>A text that no expression can match: no \<open><\<close> and no quotation mark.\<close>

definition harmless :: "string \<Rightarrow> bool" where
  "harmless s \<longleftrightarrow> CHR ''<'' \<notin> set s \<and> CHR 0x22 \<notin> set s \<and> CHR 0x27 \<notin> set s"

lemma no_lt_match:
  assumes "CHR ''<'' \<notin> set s"
  shows "m_closer s = None" "m_block s = None" "m_tag s = None"
proof -
  have n: "\<not> ci_starts s (CHR ''<'' # p)" for p
  proof
    assume "ci_starts s (CHR ''<'' # p)"
    then obtain c t where "s = c # t" "lower_char c = CHR ''<''" using ci_starts_head by blast
    with lower_lt assms show False by auto
  qed
  have "\<not> starts_with s ''<''" using assms by (cases s) auto
  with n show "m_closer s = None" "m_block s = None" "m_tag s = None"
    by (simp_all add: m_closer_def m_block_def m_block_of_def m_tag_def)
qed

lemma no_quote_match:
  assumes "q \<notin> set s"
  shows "m_handler q s = None" "m_jsurl q s = None"
proof -
  have d: "q \<notin> set (drop n s)" for n using assms by (meson in_set_dropD)
  then have u: "upto_char q (drop n s) = None" for n by (simp add: upto_char_None)
  show "m_handler q s = None" "m_jsurl q s = None"
    by (simp_all add: m_handler_def m_jsurl_def Let_def u)
qed

lemma in_drop: "c \<notin> set s \<Longrightarrow> c \<notin> set (drop k s)"
  by (meson in_set_dropD)

text \<open>a text without \<open><\<close> and without quotation marks comes through \<open>sanitizeHtml\<close> unchanged.\<close>

theorem sanitizeHtml_keeps_text:
  assumes "harmless s"
  shows "sanitizeHtml s = s"
proof -
  have "replace_all m s = s" if "m \<in> {m_closer, m_block, m_tag, m_handler (CHR 0x22), m_handler (CHR 0x27),
      m_jsurl (CHR 0x22), m_jsurl (CHR 0x27)}" for m
    using that assms unfolding harmless_def
    by (intro replace_none) (auto simp: no_lt_match no_quote_match in_drop)
  then show ?thesis by (simp add: sanitizeHtml_def Let_def)
qed

lemma sanitizeHtml_keeps_text_witness: "sanitizeHtml ''a > b on c'' = ''a > b on c''"
  by (rule sanitizeHtml_keeps_text) (simp add: harmless_def)

text \<open>removing a tag can build one: a \<open><\<close> in front of a removed tag joins with the text after it,
  so a text of the shape \<open><<x>script>...\<close> comes out of \<open>sanitizeHtml\<close> with a \<open>script\<close> tag.\<close>

theorem sanitizeHtml_lets_script_through:
  assumes "harmless s"
  shows "sanitizeHtml (''<<x>script>'' @ s) = ''<script>'' @ s"
proof -
  let ?t = "''<<x>script>'' @ s"
  have "replace_all m ?t = ?t" if "m = m_closer \<or> m = m_block" for m
  proof -
    have "replace_all m s = s"
      using that assms unfolding harmless_def
      by (intro replace_none) (auto simp: no_lt_match in_drop)
    with that show ?thesis
      using assms
      by (auto simp: m_closer_def m_block_def m_block_of_def ci_starts_def to_lower_def lower_char_def)
  qed
  moreover have "replace_all m ?t = ?t" if "m \<in> {m_handler (CHR 0x22), m_handler (CHR 0x27),
      m_jsurl (CHR 0x22), m_jsurl (CHR 0x27)}" for m
    using that assms unfolding harmless_def
    by (intro replace_none) (auto intro!: no_quote_match in_drop)
  moreover have "replace_all m_tag ?t = ''<script>'' @ s"
  proof -
    have "replace_all m_tag s = s"
      using assms unfolding harmless_def by (intro replace_none) (simp add: no_lt_match in_drop)
    then show ?thesis
      by (simp add: m_tag_def is_alnum_def is_letter_def upto_char_def ALLOWED_TAGS_def to_lower_def
          lower_char_def Let_def)
  qed
  ultimately show ?thesis by (simp add: sanitizeHtml_def Let_def)
qed

lemma sanitizeHtml_lets_script_through_witness:
  "sanitizeHtml ''<<x>script>alert(1)'' = ''<script>alert(1)''"
  using sanitizeHtml_lets_script_through [of "''alert(1)''"] by (simp add: harmless_def)

section \<open>cleanObject\<close>

definition bad_key :: "string \<Rightarrow> bool" where
  "bad_key k \<longleftrightarrow> starts_with k ''$'' \<or> k = ''__proto__'' \<or> k = ''constructor'' \<or> k = ''prototype''"

function cleanObject :: "json \<Rightarrow> nat \<Rightarrow> json" where
  "cleanObject j depth =
     (if depth > 10 then j
      else case j of
          JArr vs \<Rightarrow> JArr (map (\<lambda>v. cleanObject v (depth + 1)) vs)
        | JObj kvs \<Rightarrow>
            JObj (map (\<lambda>(k, v). (k, cleanObject v (depth + 1))) (filter (\<lambda>(k, v). \<not> bad_key k) kvs))
        | _ \<Rightarrow> j)"
  by pat_completeness auto
termination
  by (relation "measure (\<lambda>(j, depth). 11 - depth)") auto

declare cleanObject.simps [simp del]

text \<open>Some object \<open>n\<close> levels down has a key of the given kind.\<close>

fun key_at :: "(string \<Rightarrow> bool) \<Rightarrow> nat \<Rightarrow> json \<Rightarrow> bool" where
  "key_at p 0 (JObj kvs) = (\<exists>(k, v) \<in> set kvs. p k)"
| "key_at p 0 _ = False"
| "key_at p (Suc n) (JObj kvs) = (\<exists>(k, v) \<in> set kvs. key_at p n v)"
| "key_at p (Suc n) (JArr vs) = (\<exists>v \<in> set vs. key_at p n v)"
| "key_at p (Suc n) _ = False"

lemma cleanObject_levels: "n + depth \<le> 10 \<Longrightarrow> \<not> key_at bad_key n (cleanObject j depth)"
proof (induction n arbitrary: j depth)
  case 0
  then show ?case by (subst cleanObject.simps) (cases j, auto)
next
  case (Suc n)
  then have "\<not> key_at bad_key n (cleanObject v (depth + 1))" for v by simp
  with Suc.prems show ?case by (subst cleanObject.simps) (cases j, auto)
qed

lemma cleanObject_deep: "cleanObject j 11 = j"
  by (subst cleanObject.simps) simp

text \<open>An array nested in \<open>n\<close> arrays.\<close>

fun nested :: "nat \<Rightarrow> json \<Rightarrow> json" where
  "nested 0 j = j"
| "nested (Suc n) j = JArr [nested n j]"

lemma cleanObject_nested: "n + depth = 11 \<Longrightarrow> cleanObject (nested n j) depth = nested n j"
proof (induction n arbitrary: depth)
  case 0
  then show ?case by (simp add: cleanObject_deep)
next
  case (Suc n)
  then show ?case by (subst cleanObject.simps) simp
qed

text \<open>the request cleaner removes every key that starts with \<open>$\<close> or names a prototype from the objects
  of the first eleven levels of a body; below that it removes nothing, so an operator wrapped in
  eleven arrays reaches the handlers.\<close>

theorem cleanObject_depth:
  "(n \<le> 10 \<longrightarrow> \<not> key_at bad_key n (cleanObject j 0)) \<and> cleanObject (nested 11 j) 0 = nested 11 j"
  using cleanObject_levels [of n 0 j] cleanObject_nested [of 11 0 j] by simp

lemma cleanObject_depth_witness:
  "\<not> key_at bad_key 0 (cleanObject (JObj [(''$gt'', JNum 1), (''a'', JNull)]) 0)"
  using cleanObject_depth [of 0 "JObj [(''$gt'', JNum 1), (''a'', JNull)]" ] by simp

definition sanitizeRequests :: "json \<times> json \<times> json \<Rightarrow> json \<times> json \<times> json" where
  "sanitizeRequests req = (case req of (body, query, params) \<Rightarrow>
     (cleanObject body 0, cleanObject query 0, cleanObject params 0))"

lemma stripHtml_complete_witness: "stripHtml ''1 > 0'' = ''1 > 0''"
  using stripHtml_complete [of "''1 > 0''"] by simp

end
