(* ===== verification/Gateway.thy ===== *)
theory Gateway
  imports DocumentOps RateLimit Sanitize
begin

unbundle bit_operations_syntax

text \<open>
  The WebSocket gateway (\<open>api/src/ws/ws.gateway.ts\<close>): the state of one instance (its sockets with
  the rooms they are in, the batches of updates waiting to be written, its channel subscriptions,
  the presence throttle) on top of the API's state, and one definition per handler. What an
  instance sends is the list \<open>g_out\<close>, with its target; what it publishes to the other instances is
  in the Redis state. A handler that throws a \<open>WsException\<close> returns its message. Random values
  (claim identifiers, lock tokens) and the outcome of the chaos experiment's dice are arguments, as
  are the verification of a token and the Yjs functions. Timers are calls: \<open>flushDoc\<close> is the call
  of an update batch's timer, \<open>pruneIdle\<close> that of the prune timer, \<open>beat\<close> of the heartbeat.
\<close>

section \<open>State\<close>

record sock =
  so_user :: "(string \<times> string) option"
  so_docs :: "string list"
  so_rooms :: "string list"

datatype target =
    ToSocket string
  | ToRoom string
  | ToRoomBut string string

record batch =
  ba_updates :: "bytes list"
  ba_timer :: bool
  ba_last :: int

record gateway =
  g_api :: api
  g_instance :: string
  g_socks :: "(string \<times> sock) list"
  g_batches :: "(string \<times> batch) list"
  g_subRefs :: "(string \<times> int) list"
  g_channels :: "string list"
  g_presenceLast :: "(string \<times> int) list"
  g_out :: "(target \<times> string \<times> json) list"

datatype ws_result = Done | WsError string

definition g_now :: "gateway \<Rightarrow> int" where
  "g_now g = api_clock (g_api g)"

definition g_redis :: "(redis \<Rightarrow> redis) \<Rightarrow> gateway \<Rightarrow> gateway" where
  "g_redis f g = g\<lparr>g_api := with_redis f (g_api g)\<rparr>"

definition g_store :: "gateway \<Rightarrow> redis" where
  "g_store g = a_redis (g_api g)"

definition g_db :: "gateway \<Rightarrow> db" where
  "g_db g = a_db (g_api g)"

definition g_audit :: "env \<Rightarrow> string \<Rightarrow> (string \<times> json) list \<Rightarrow> gateway \<Rightarrow> gateway" where
  "g_audit E ev details g = g\<lparr>g_api := audit E ev details (g_api g)\<rparr>"

definition emit :: "target \<Rightarrow> string \<Rightarrow> json \<Rightarrow> gateway \<Rightarrow> gateway" where
  "emit t ev payload g = g\<lparr>g_out := g_out g @ [(t, ev, payload)]\<rparr>"

definition no_sock :: sock where
  "no_sock = \<lparr>so_user = None, so_docs = [], so_rooms = []\<rparr>"

definition sock_of :: "string \<Rightarrow> gateway \<Rightarrow> sock" where
  "sock_of sid g = (case map_of (g_socks g) sid of Some k \<Rightarrow> k | None \<Rightarrow> no_sock)"

definition set_sock :: "string \<Rightarrow> sock \<Rightarrow> gateway \<Rightarrow> gateway" where
  "set_sock sid k g = g\<lparr>g_socks := map_put sid k (g_socks g)\<rparr>"

definition drop_sock :: "string \<Rightarrow> gateway \<Rightarrow> gateway" where
  "drop_sock sid g = g\<lparr>g_socks := map_del sid (g_socks g)\<rparr>"

definition room_of :: "string \<Rightarrow> string" where
  "room_of documentId = tmpl ''doc:'' documentId"

definition room_size :: "string \<Rightarrow> gateway \<Rightarrow> nat" where
  "room_size room g = length (filter (\<lambda>(sid, k). room \<in> set (so_rooms k)) (g_socks g))"

section \<open>Keys\<close>

definition online_key :: "string \<Rightarrow> string" where
  "online_key d = tmpl ''ws:online:doc:'' d"

definition presence_users_key :: "string \<Rightarrow> string" where
  "presence_users_key d = tmpl ''ws:presence:doc:'' (d @ '':users'')"

definition presence_key :: "string \<Rightarrow> string \<Rightarrow> string" where
  "presence_key d u = tmpl ''ws:presence:doc:'' (d @ '':'' @ u)"

definition queue_key :: "string \<Rightarrow> string \<Rightarrow> string" where
  "queue_key d u = tmpl ''ws:queue:'' (d @ '':'' @ u)"

definition claims_key :: "string \<Rightarrow> string" where
  "claims_key d = tmpl ''ws:section:doc:'' d"

definition claim_key :: "string \<Rightarrow> string \<Rightarrow> string" where
  "claim_key d c = tmpl ''ws:section:doc:'' (d @ '':'' @ c)"

definition dedup_key :: "string \<Rightarrow> string" where
  "dedup_key d = tmpl ''ws:dedup:'' d"

definition lastseq_key :: "string \<Rightarrow> string \<Rightarrow> string" where
  "lastseq_key d u = tmpl ''ws:lastseq:'' (d @ '':'' @ u)"

definition channel_of :: "string \<Rightarrow> string" where
  "channel_of d = tmpl ''ws:room:'' d"

section \<open>Small helpers\<close>

definition decodeUpdate :: "'y ylib \<Rightarrow> string \<Rightarrow> bytes" where
  "decodeUpdate L b64 = (let raw = b64_decode b64 in case gunzip L raw of Some u \<Rightarrow> u | None \<Rightarrow> raw)"

definition maybeGzip :: "env \<Rightarrow> 'y ylib \<Rightarrow> bytes \<Rightarrow> string \<times> bool" where
  "maybeGzip E L buf =
     (if int (length buf) \<ge> ws_compress_threshold E then (b64_encode (gzip L buf), True)
      else (b64_encode buf, False))"

text \<open>The arithmetic of \<open>pickLeader\<close>: \<open><<\<close> and \<open>^\<close> work on 32 bits, \<open>+\<close> does not wrap.\<close>

definition shl32 :: "int \<Rightarrow> nat \<Rightarrow> int" where
  "shl32 x k = toInt32 (toInt32 x * 2 ^ k)"

definition leader_hash :: "string \<Rightarrow> int" where
  "leader_hash key = foldl (\<lambda>hash c.
     let h = toInt32 hash XOR of_char c
     in h + (shl32 h 1 + shl32 h 4 + shl32 h 7 + shl32 h 8 + shl32 h 24)) 2166136261 key"

definition pickLeader :: "string list \<Rightarrow> string \<Rightarrow> string option" where
  "pickLeader instances key =
     (if instances = [] then None
      else Some (instances ! nat (\<bar>leader_hash key\<bar> mod int (length instances))))"

definition publishFanout :: "string \<Rightarrow> string \<Rightarrow> json \<Rightarrow> gateway \<Rightarrow> gateway" where
  "publishFanout documentId type payload g =
     g_redis (r_publish (channel_of documentId)
       (JObj [(''origin'', JStr (g_instance g)), (''documentId'', JStr documentId),
              (''type'', JStr type), (''payload'', payload)])) g"

definition subscribeDocChannel :: "string \<Rightarrow> gateway \<Rightarrow> gateway" where
  "subscribeDocChannel d g =
     (let n = (case map_of (g_subRefs g) d of Some k \<Rightarrow> k | None \<Rightarrow> 0) + 1;
          g1 = g\<lparr>g_subRefs := map_put d n (g_subRefs g)\<rparr>
      in if n = 1 then g1\<lparr>g_channels := add_new (channel_of d) (g_channels g1)\<rparr> else g1)"

definition unsubscribeDocChannel :: "string \<Rightarrow> gateway \<Rightarrow> gateway" where
  "unsubscribeDocChannel d g =
     (let n = (case map_of (g_subRefs g) d of Some k \<Rightarrow> k | None \<Rightarrow> 0) - 1
      in if n \<le> 0 then g\<lparr>g_subRefs := map_del d (g_subRefs g),
                         g_channels := filter (\<lambda>c. c \<noteq> channel_of d) (g_channels g)\<rparr>
         else g\<lparr>g_subRefs := map_put d n (g_subRefs g)\<rparr>)"

section \<open>The offline queue\<close>

definition intended_users :: "string \<Rightarrow> gateway \<Rightarrow> string list" where
  "intended_users documentId g = (case doc_findById documentId (g_db g) of
     None \<Rightarrow> []
   | Some d \<Rightarrow>
       filter (\<lambda>u. u \<notin> set (r_smembers (online_key documentId) (g_store g)))
         (js_set (d_ownerId d # map p_userId (perm_list documentId (g_db g))
                  @ map m_userId (listMembers (d_workspaceId d) (g_db g)))))"

definition queue_push :: "string \<Rightarrow> rtext \<Rightarrow> redis \<Rightarrow> redis" where
  "queue_push key e s = r_expire key 86400 (r_ltrim key 1000 (r_lpush key e s))"

definition queueForOffline :: "string \<Rightarrow> string \<Rightarrow> json \<Rightarrow> gateway \<Rightarrow> gateway" where
  "queueForOffline documentId event payload g =
     g_redis (fold (\<lambda>uid. queue_push (queue_key documentId uid)
                            (Js (JObj [(''event'', JStr event), (''payload'', payload)])))
                (intended_users documentId g)) g"

text \<open>The loop of \<open>flushOfflineQueue\<close>: at most \<open>n\<close> entries, oldest first.\<close>

fun drain_queue :: "nat \<Rightarrow> string \<Rightarrow> redis \<Rightarrow> rtext list \<times> redis" where
  "drain_queue 0 key s = ([], s)"
| "drain_queue (Suc n) key s =
     (case r_rpop key s of
        (None, s1) \<Rightarrow> ([], s1)
      | (Some t, s1) \<Rightarrow> let (ts, s2) = drain_queue n key s1 in (t # ts, s2))"

fun queued_event :: "string \<Rightarrow> rtext \<Rightarrow> (target \<times> string \<times> json) option" where
  "queued_event sid (Js e) =
     Some (ToSocket sid, jstr ''event'' e, (case jfield ''payload'' e of Some p \<Rightarrow> p | None \<Rightarrow> JNull))"
| "queued_event sid _ = None"

definition flushOfflineQueue :: "string \<Rightarrow> string \<Rightarrow> string \<Rightarrow> gateway \<Rightarrow> gateway" where
  "flushOfflineQueue documentId userId sid g =
     (let (ts, s1) = drain_queue 1000 (queue_key documentId userId) (g_store g)
      in (g_redis (\<lambda>_. s1) g)\<lparr>g_out := g_out g @ List.map_filter (queued_event sid) ts\<rparr>)"

section \<open>Connection\<close>

definition allowed_origins :: "env \<Rightarrow> string list" where
  "allowed_origins E =
     map js_trim (split_on (CHR '','') (if cors_origin E \<noteq> [] then cors_origin E else ''http://localhost:3000''))"

text \<open>
  \<open>verify\<close> gives the \<open>sub\<close> and \<open>email\<close> of a token's payload; \<open>roll\<close> says that the chaos
  configuration is on and its dice disconnect this client.
\<close>

definition handleConnection ::
  "env \<Rightarrow> (string \<Rightarrow> (string \<times> string) option) \<Rightarrow> bool \<Rightarrow> string \<Rightarrow> string \<Rightarrow> string option \<Rightarrow> string \<Rightarrow>
   gateway \<Rightarrow> gateway" where
  "handleConnection E verify roll sid token origin address g =
     (let deny = (\<lambda>reason. drop_sock sid (g_audit E ''ws.connect.denied''
                    [(''reason'', JStr reason), (''ip'', JStr address)] g))
      in if roll then drop_sock sid g
         else if token = [] then deny ''Missing token''
         else case verify token of
             None \<Rightarrow> deny ''invalid token''
           | Some (sub, email) \<Rightarrow>
               if (case origin of Some o1 \<Rightarrow> o1 \<noteq> [] \<and> o1 \<notin> set (allowed_origins E) | None \<Rightarrow> False)
               then deny ''Origin not allowed''
               else
                 g_redis (\<lambda>s. snd (r_incr ''ws:connections:total'' s))
                   (g_audit E ''ws.connect''
                     ([(''userId'', JStr sub), (''ip'', JStr address)] @ opt_field ''origin'' origin)
                     (set_sock sid ((sock_of sid g)\<lparr>so_user := Some (sub, email),
                        so_rooms := add_new (tmpl ''user:'' sub) (so_rooms (sock_of sid g))\<rparr>) g)))"

definition forget_presence :: "string \<Rightarrow> string \<Rightarrow> redis \<Rightarrow> redis" where
  "forget_presence userId docId s =
     r_del (presence_key docId userId)
       (r_srem (presence_users_key docId) userId (r_srem (online_key docId) userId s))"

definition handleDisconnect :: "env \<Rightarrow> string \<Rightarrow> gateway \<Rightarrow> gateway" where
  "handleDisconnect E sid g =
     (let k = sock_of sid g;
          g1 = g_audit E ''ws.disconnect'' (opt_field ''userId'' (map_option fst (so_user k))) g;
          g2 = (case so_user k of
                  None \<Rightarrow> g1
                | Some (userId, _) \<Rightarrow>
                    if userId = [] then g1
                    else g_redis (fold (forget_presence userId) (so_docs k)) g1)
      in drop_sock sid g2)"

end
