(* ===== verification/GatewayHandlers.thy ===== *)
theory GatewayHandlers
  imports Gateway
begin

text \<open>
  The message handlers of the WebSocket gateway (\<open>api/src/ws/ws.gateway.ts\<close>): joining and leaving
  a document, Yjs updates with their batches, text messages, synchronisation, presence, section
  claims, metrics, the messages of the other instances, and the instance's registration.
\<close>

section \<open>Joining and leaving\<close>

definition send_presence_list :: "string \<Rightarrow> string \<Rightarrow> gateway \<Rightarrow> gateway" where
  "send_presence_list sid documentId g =
     (let list = List.map_filter (\<lambda>uid. case r_get (presence_key documentId uid) (g_store g) of
                   Some (Js p) \<Rightarrow> Some p | _ \<Rightarrow> None)
                 (r_smembers (presence_users_key documentId) (g_store g))
      in if list \<noteq> [] then emit (ToSocket sid) ''presence:list''
             (JObj [(''documentId'', JStr documentId), (''list'', JArr list)]) g
         else g)"

definition send_size_notice :: "string \<Rightarrow> string \<Rightarrow> gateway \<Rightarrow> gateway" where
  "send_size_notice sid documentId g = (case r_get (size_key documentId) (g_store g) of
     Some (Js note) \<Rightarrow> emit (ToSocket sid) ''doc:notice''
        (JObj [(''documentId'', JStr documentId), (''type'', JStr ''size''), (''data'', note)]) g
   | _ \<Rightarrow> g)"

definition send_init :: "env \<Rightarrow> 'y ylib \<Rightarrow> string \<Rightarrow> string \<Rightarrow> gateway \<Rightarrow> gateway" where
  "send_init E L sid documentId g =
     (case getYState E L documentId (g_api g) of
        (Inl _, a) \<Rightarrow> g\<lparr>g_api := a\<rparr>
      | (Inr state, a) \<Rightarrow>
          (let (b64, gz) = maybeGzip E L (b64_decode (jstr ''update'' state))
           in emit (ToSocket sid) ''y-init''
                (JObj [(''documentId'', JStr documentId), (''updateB64'', JStr b64),
                       (''vectorB64'', JStr (jstr ''vector'' state)), (''gz'', JBool gz)])
                (g\<lparr>g_api := a\<rparr>)))"

definition send_claims :: "string \<Rightarrow> string \<Rightarrow> gateway \<Rightarrow> gateway" where
  "send_claims sid documentId g =
     (let claims = List.map_filter (\<lambda>k. case r_get k (g_store g) of Some (Js p) \<Rightarrow> Some p | _ \<Rightarrow> None)
                     (r_smembers (claims_key documentId) (g_store g))
      in if claims \<noteq> [] then emit (ToSocket sid) ''section:list''
             (JObj [(''documentId'', JStr documentId), (''claims'', JArr claims)]) g
         else g)"

definition mark_online :: "string \<Rightarrow> string \<Rightarrow> redis \<Rightarrow> redis" where
  "mark_online documentId userId s =
     r_expire (online_key documentId) 3600 (snd (r_sadd (online_key documentId) userId s))"

definition enter_room :: "string \<Rightarrow> string \<Rightarrow> gateway \<Rightarrow> gateway" where
  "enter_room sid documentId g =
     (let k = sock_of sid g
      in set_sock sid (k\<lparr>so_rooms := add_new (room_of documentId) (so_rooms k),
                         so_docs := add_new documentId (so_docs k)\<rparr>) g)"

definition onJoin :: "env \<Rightarrow> 'y ylib \<Rightarrow> string \<Rightarrow> string \<Rightarrow> gateway \<Rightarrow> ws_result \<times> gateway" where
  "onJoin E L sid payloadDoc g =
     (case so_user (sock_of sid g) of
        None \<Rightarrow> (WsError ''Not authenticated'', g)
      | Some (userId, _) \<Rightarrow>
          let documentId = js_trim payloadDoc;
              who = [(''userId'', JStr userId), (''documentId'', JStr documentId)]
          in if documentId = [] then (WsError ''documentId required'', g)
             else if doc_findById documentId (g_db g) = None then (WsError ''Document not found'', g)
             else if \<not> hasDocAccess (g_db g) userId documentId ''viewer''
             then (WsError ''Forbidden'', g_audit E ''ws.room.denied'' who g)
             else
               let size = room_size (room_of documentId) g
               in if int size \<ge> ws_room_capacity E
                  then (WsError ''Room capacity reached'', g_audit E ''ws.room.capacity''
                          [(''documentId'', JStr documentId), (''size'', JNum (int size))] g)
                  else
                    let g1 = enter_room sid documentId g;
                        g2 = g_redis (mark_online documentId userId) g1;
                        g3 = g_audit E ''ws.room.join'' who g2;
                        g4 = emit (ToSocket sid) ''doc:joined'' (JObj [(''documentId'', JStr documentId)]) g3;
                        g5 = send_presence_list sid documentId g4;
                        g6 = send_size_notice sid documentId g5;
                        g7 = flushOfflineQueue documentId userId sid g6;
                        g8 = send_init E L sid documentId g7;
                        g9 = send_claims sid documentId g8
                    in (Done, subscribeDocChannel documentId g9))"

definition onLeave :: "env \<Rightarrow> string \<Rightarrow> string \<Rightarrow> gateway \<Rightarrow> ws_result \<times> gateway" where
  "onLeave E sid payloadDoc g =
     (case so_user (sock_of sid g) of
        None \<Rightarrow> (WsError ''Not authenticated'', g)
      | Some (userId, _) \<Rightarrow>
          let documentId = js_trim payloadDoc;
              k = sock_of sid g;
              g1 = set_sock sid (k\<lparr>so_rooms := filter (\<lambda>r. r \<noteq> room_of documentId) (so_rooms k),
                                   so_docs := filter (\<lambda>d. d \<noteq> documentId) (so_docs k)\<rparr>) g;
              g2 = g_audit E ''ws.room.leave''
                     [(''userId'', JStr userId), (''documentId'', JStr documentId)] g1;
              g3 = g_redis (forget_presence userId documentId) g2;
              g4 = emit (ToSocket sid) ''doc:left'' (JObj [(''documentId'', JStr documentId)]) g3
          in (Done, unsubscribeDocChannel documentId g4))"

section \<open>Yjs updates\<close>

definition ack :: "string \<Rightarrow> string option \<Rightarrow> string \<Rightarrow> gateway \<Rightarrow> gateway" where
  "ack sid msgId status g =
     emit (ToSocket sid) ''ack'' (JObj (opt_field ''msgId'' msgId @ [(''status'', JStr status)])) g"

definition truthy_id :: "string option \<Rightarrow> string option" where
  "truthy_id m = (case m of Some i \<Rightarrow> if i \<noteq> [] then Some i else None | None \<Rightarrow> None)"

text \<open>Whether the message is a duplicate, by its identifier.\<close>

definition dedup_step :: "string \<Rightarrow> string option \<Rightarrow> redis \<Rightarrow> bool \<times> redis" where
  "dedup_step documentId msgId s = (case msgId of
     None \<Rightarrow> (False, s)
   | Some m \<Rightarrow>
       let (added, s1) = r_sadd (dedup_key documentId) m s
       in (added = 0, r_expire (dedup_key documentId) 60 s1))"

text \<open>Whether the message is out of order, by its sequence number.\<close>

definition order_step :: "string \<Rightarrow> string \<Rightarrow> int option \<Rightarrow> redis \<Rightarrow> bool \<times> redis" where
  "order_step documentId userId seq s = (case seq of
     None \<Rightarrow> (False, s)
   | Some n \<Rightarrow>
       if n \<le> r_num (lastseq_key documentId userId) s then (True, s)
       else (False, r_setex (lastseq_key documentId userId) (Num n) 300 s))"

definition enqueueUpdate :: "string \<Rightarrow> bytes \<Rightarrow> gateway \<Rightarrow> gateway" where
  "enqueueUpdate documentId update g =
     (let b = (case map_of (g_batches g) documentId of
                 Some b \<Rightarrow> b | None \<Rightarrow> \<lparr>ba_updates = [], ba_timer = False, ba_last = g_now g\<rparr>)
      in g\<lparr>g_batches := map_put documentId
             \<lparr>ba_updates = ba_updates b @ [update], ba_timer = True, ba_last = g_now g\<rparr> (g_batches g)\<rparr>)"

definition onYUpdate ::
  "env \<Rightarrow> 'y ylib \<Rightarrow> string \<Rightarrow> string \<Rightarrow> string \<Rightarrow> string option \<Rightarrow> int option \<Rightarrow> gateway \<Rightarrow> ws_result \<times> gateway" where
  "onYUpdate E L sid payloadDoc payloadUpdate payloadMsgId seq g =
     (case so_user (sock_of sid g) of
        None \<Rightarrow> (WsError ''Not authenticated'', g)
      | Some (userId, _) \<Rightarrow>
          let (allowed, s1) = allowWsMessage E (''user:'' @ userId) (g_store g);
              g1 = g_redis (\<lambda>_. s1) g
          in if \<not> allowed then
               (WsError ''Rate limit exceeded'', g_audit E ''abuse.ws.rate'' [(''userId'', JStr userId)] g1)
             else
               let documentId = js_trim payloadDoc; updateB64 = js_trim payloadUpdate
               in if documentId = [] \<or> updateB64 = [] then (WsError ''Invalid payload'', g1)
                  else if documentId \<notin> set (so_docs (sock_of sid g1)) then (WsError ''Not in document room'', g1)
                  else
                    let msgId = truthy_id payloadMsgId;
                        (dup, s2) = dedup_step documentId msgId (g_store g1);
                        g2 = g_redis (\<lambda>_. s2) g1
                    in if dup then (Done, ack sid msgId ''duplicate'' g2)
                       else
                         let (late, s3) = order_step documentId userId seq (g_store g2);
                             g3 = g_redis (\<lambda>_. s3) g2
                         in if late then (Done, ack sid msgId ''out_of_order'' g3)
                            else
                              let upd = decodeUpdate L updateB64
                              in if int (length upd) > ws_update_max_bytes E
                                 then (WsError ''Update too large'', g3)
                                 else if y_apply L (y_empty L) upd = None
                                 then (WsError ''Invalid update'', g_audit E ''ws.update.invalid''
                                        [(''userId'', JStr userId), (''documentId'', JStr documentId)] g3)
                                 else (Done, ack sid msgId ''ok'' (enqueueUpdate documentId upd g3)))"

definition count_update :: "string \<Rightarrow> string \<Rightarrow> gateway \<Rightarrow> gateway" where
  "count_update documentId b64 g =
     (let leader = pickLeader (r_smembers ''ws:instances'' (g_store g)) documentId
      in if leader = None \<or> leader = Some [] \<or> leader = Some (g_instance g) then
           g_redis (\<lambda>s. snd (r_incrby (tmpl ''metrics:yupdate:'' (documentId @ '':bytes'')) (int (length b64))
                      (snd (r_incr (tmpl ''metrics:yupdate:'' (documentId @ '':count'')) s)))) g
         else g)"

definition flushDoc :: "env \<Rightarrow> 'y ylib \<Rightarrow> string \<Rightarrow> string \<Rightarrow> gateway \<Rightarrow> gateway" where
  "flushDoc E L token documentId g =
     (case map_of (g_batches g) documentId of
        None \<Rightarrow> g
      | Some b \<Rightarrow>
          let updates = ba_updates b;
              g1 = g\<lparr>g_batches := map_put documentId (b\<lparr>ba_updates := [], ba_timer := False\<rparr>) (g_batches g)\<rparr>
          in if updates = [] then g1
             else case y_merge L updates of
                 None \<Rightarrow> g1
               | Some merged \<Rightarrow>
                   (case applyYUpdate E L token documentId (b64_encode merged) (g_api g1) of
                      (Inl _, a) \<Rightarrow> g1\<lparr>g_api := a\<rparr>
                    | (Inr _, a) \<Rightarrow>
                        let g2 = g1\<lparr>g_api := a\<rparr>;
                            (b64, gz) = maybeGzip E L merged;
                            evt = JObj [(''documentId'', JStr documentId), (''updateB64'', JStr b64), (''gz'', JBool gz)];
                            g3 = emit (ToRoom (room_of documentId)) ''y-update'' evt g2;
                            g4 = queueForOffline documentId ''y-update'' evt g3;
                            g5 = publishFanout documentId ''y-update'' evt g4
                        in count_update documentId b64 g5))"

definition pruneIdle :: "env \<Rightarrow> gateway \<Rightarrow> gateway" where
  "pruneIdle E g = g\<lparr>g_batches :=
     fold (\<lambda>(docId, b) m. if g_now g - ba_last b > ws_idle_prune_ms E then map_del docId m else m)
       (g_batches g) (g_batches g)\<rparr>"

section \<open>Text messages and synchronisation\<close>

definition onTextMsg ::
  "env \<Rightarrow> string \<Rightarrow> string \<Rightarrow> string \<Rightarrow> string option \<Rightarrow> gateway \<Rightarrow> ws_result \<times> gateway" where
  "onTextMsg E sid payloadDoc payloadContent msgId g =
     (case so_user (sock_of sid g) of
        None \<Rightarrow> (WsError ''Not authenticated'', g)
      | Some (userId, _) \<Rightarrow>
          let (allowed, s1) = allowWsMessage E (''user:'' @ userId) (g_store g);
              g1 = g_redis (\<lambda>_. s1) g
          in if \<not> allowed then (WsError ''Rate limit exceeded'', g1)
             else
               let documentId = js_trim payloadDoc; content = take 2000 payloadContent
               in if documentId = [] \<or> content = [] then (WsError ''Invalid payload'', g1)
                  else
                    let clean = (if sanitizeHtml content \<noteq> [] then sanitizeHtml content else stripHtml content);
                        msg = JObj [(''documentId'', JStr documentId), (''content'', JStr clean),
                                    (''from'', JStr userId), (''ts'', JNum (g_now g1))];
                        g2 = emit (ToRoomBut (room_of documentId) sid) ''doc:msg'' msg g1;
                        g3 = queueForOffline documentId ''doc:msg'' msg g2;
                        g4 = publishFanout documentId ''doc:msg'' msg g3
                    in (Done, if truthy_id msgId \<noteq> None then ack sid msgId ''ok'' g4 else g4))"

definition onYSync ::
  "env \<Rightarrow> 'y ylib \<Rightarrow> string \<Rightarrow> string \<Rightarrow> string \<Rightarrow> gateway \<Rightarrow> ws_result \<times> gateway" where
  "onYSync E L sid payloadDoc vectorB64 g =
     (case so_user (sock_of sid g) of
        None \<Rightarrow> (WsError ''Not authenticated'', g)
      | Some (userId, _) \<Rightarrow>
          let documentId = js_trim payloadDoc
          in if documentId = [] then (WsError ''documentId required'', g)
             else
               (case getYState E L documentId (g_api g) of
                  (Inl _, a) \<Rightarrow> (WsError ''Sync failed'', g\<lparr>g_api := a\<rparr>)
                | (Inr state, a) \<Rightarrow>
                    (let g1 = g\<lparr>g_api := a\<rparr> in
                     case Option.bind (y_apply L (y_empty L) (b64_decode (jstr ''update'' state)))
                            (\<lambda>base. if vectorB64 \<noteq> [] then y_diff L base (b64_decode vectorB64)
                                    else Some (y_encode L base)) of
                       None \<Rightarrow> (WsError ''Sync failed'', g1)
                     | Some update \<Rightarrow>
                         let (b64, gz) = maybeGzip E L update
                         in (Done, emit (ToSocket sid) ''y-sync''
                               (JObj [(''documentId'', JStr documentId), (''updateB64'', JStr b64),
                                      (''gz'', JBool gz), (''vectorB64'', JStr (jstr ''vector'' state))]) g1))))"

section \<open>Presence\<close>

definition presence_ttl :: "env \<Rightarrow> int" where
  "presence_ttl E = max (ws_presence_ttl_sec E) 10"

definition store_presence :: "env \<Rightarrow> string \<Rightarrow> string \<Rightarrow> json \<Rightarrow> redis \<Rightarrow> redis" where
  "store_presence E documentId userId evt s =
     r_setex (presence_key documentId userId) (Js evt) (presence_ttl E)
       (r_expire (presence_users_key documentId) (presence_ttl E)
         (snd (r_sadd (presence_users_key documentId) userId s)))"

definition presence_event :: "string \<Rightarrow> string \<Rightarrow> int \<Rightarrow> int \<Rightarrow> bool \<Rightarrow> int \<Rightarrow> json" where
  "presence_event documentId userId anchor head typing now =
     JObj [(''documentId'', JStr documentId), (''anchor'', JNum (toInt32 anchor)),
           (''head'', JNum (toInt32 head)), (''typing'', JBool typing), (''userId'', JStr userId),
           (''ts'', JNum now)]"

text \<open>\<open>roll\<close>: the chaos configuration is on and its dice drop this event.\<close>

definition onPresence ::
  "env \<Rightarrow> bool \<Rightarrow> string \<Rightarrow> string \<Rightarrow> int \<Rightarrow> int \<Rightarrow> bool \<Rightarrow> gateway \<Rightarrow> ws_result \<times> gateway" where
  "onPresence E roll sid payloadDoc anchor head typing g =
     (case so_user (sock_of sid g) of
        None \<Rightarrow> (WsError ''Not authenticated'', g)
      | Some (userId, _) \<Rightarrow>
          let (allowed, s1) = allowWsMessage E (''user:'' @ userId) (g_store g);
              g1 = g_redis (\<lambda>_. s1) g
          in if \<not> allowed then (WsError ''Rate limit exceeded'', g1)
             else
               let documentId = js_trim payloadDoc
               in if documentId = [] then (WsError ''documentId required'', g1)
                  else
                    let k = documentId @ '':'' @ userId;
                        now = g_now g1;
                        last = (case map_of (g_presenceLast g1) k of Some t \<Rightarrow> t | None \<Rightarrow> 0)
                    in if now - last < ws_presence_min_ms E
                       then (Done, g_redis (\<lambda>s. snd (r_incr ''metrics:presence:dropped'' s)) g1)
                       else
                         let evt = presence_event documentId userId anchor head typing now;
                             g2 = g1\<lparr>g_presenceLast := map_put k now (g_presenceLast g1)\<rparr>;
                             g3 = g_redis (store_presence E documentId userId evt) g2;
                             g4 = (if roll then g3
                                   else publishFanout documentId ''presence'' evt
                                     (emit (ToRoomBut (room_of documentId) sid) ''presence'' evt g3))
                         in (Done, g_redis (\<lambda>s. snd (r_incr ''metrics:presence:sent'' s)) g4))"

section \<open>Diagnostics\<close>

definition onPing :: "string \<Rightarrow> gateway \<Rightarrow> gateway" where
  "onPing sid g =
     emit (ToSocket sid) ''ws:pong'' (JObj [(''ts'', JNum (g_now g)), (''redis'', JStr ''PONG'')]) g"

definition metric_key :: "string \<Rightarrow> string \<Rightarrow> string" where
  "metric_key name documentId = tmpl ''metrics:'' (name @ '':doc:'' @ documentId)"

definition onMetric :: "string \<Rightarrow> string \<Rightarrow> string \<Rightarrow> gateway \<Rightarrow> ws_result \<times> gateway" where
  "onMetric sid documentId name g =
     (if so_user (sock_of sid g) = None then (WsError ''Not authenticated'', g)
      else if documentId = [] \<or> name = [] then (Done, g)
      else (Done, g_redis (\<lambda>s. r_expire (metric_key name documentId) 86400
                                 (snd (r_incr (metric_key name documentId) s))) g))"

section \<open>Section claims\<close>

text \<open>The bounds \<open>onSectionClaim\<close> gives to the payload's numbers, each after \<open>| 0\<close>.\<close>

definition claim_from :: "int \<Rightarrow> int" where
  "claim_from n = max 1 (toInt32 n)"

definition claim_to :: "int \<Rightarrow> int \<Rightarrow> int" where
  "claim_to from n = max from (toInt32 n)"

definition claim_ttl :: "int \<Rightarrow> int" where
  "claim_ttl n = min 600 (max 10 (if toInt32 n = 0 then 60 else toInt32 n))"

definition store_claim :: "string \<Rightarrow> string \<Rightarrow> json \<Rightarrow> int \<Rightarrow> redis \<Rightarrow> redis" where
  "store_claim documentId claimId data ttl s =
     r_expire (claims_key documentId) (max ttl 120)
       (snd (r_sadd (claims_key documentId) (claim_key documentId claimId)
         (r_setex (claim_key documentId claimId) (Js data) ttl s)))"

definition onSectionClaim ::
  "string \<Rightarrow> string \<Rightarrow> string \<Rightarrow> int \<Rightarrow> int \<Rightarrow> int \<Rightarrow> string option \<Rightarrow> gateway \<Rightarrow> ws_result \<times> gateway" where
  "onSectionClaim claimId sid documentId pFrom pTo pTtl msgId g =
     (case so_user (sock_of sid g) of
        None \<Rightarrow> (WsError ''Not authenticated'', g)
      | Some (userId, _) \<Rightarrow>
          let from1 = claim_from pFrom; to1 = claim_to from1 pTo; ttl = claim_ttl pTtl
          in if documentId = [] then (WsError ''documentId required'', g)
             else
               let data = JObj [(''claimId'', JStr claimId), (''documentId'', JStr documentId),
                                (''from'', JNum from1), (''to'', JNum to1), (''userId'', JStr userId),
                                (''ts'', JNum (g_now g)), (''ttl'', JNum ttl)];
                   g1 = g_redis (store_claim documentId claimId data ttl) g;
                   g2 = emit (ToRoomBut (room_of documentId) sid) ''section:claimed'' data g1;
                   g3 = publishFanout documentId ''section:claimed'' data g2
               in (Done, emit (ToSocket sid) ''ack''
                     (JObj (opt_field ''msgId'' msgId @
                            [(''status'', JStr ''ok''), (''claimId'', JStr claimId)])) g3))"

text \<open>The \<open>try\<close> block of \<open>onSectionRelease\<close>: the error \<open>Not owner\<close> is caught by its own handler.\<close>

definition release_claim :: "string \<Rightarrow> string \<Rightarrow> string \<Rightarrow> redis \<Rightarrow> redis" where
  "release_claim userId documentId claimId s =
     (let key = claim_key documentId claimId;
          foreign = (case r_get key s of
                       Some (Js data) \<Rightarrow> js_text (jfield ''userId'' data) \<noteq> userId
                     | _ \<Rightarrow> False)
      in if foreign then s else r_srem (claims_key documentId) key (r_del key s))"

definition onSectionRelease ::
  "string \<Rightarrow> string \<Rightarrow> string \<Rightarrow> string option \<Rightarrow> gateway \<Rightarrow> ws_result \<times> gateway" where
  "onSectionRelease sid documentId claimId msgId g =
     (case so_user (sock_of sid g) of
        None \<Rightarrow> (WsError ''Not authenticated'', g)
      | Some (userId, _) \<Rightarrow>
          if documentId = [] \<or> claimId = [] then (WsError ''Invalid payload'', g)
          else
            let g1 = g_redis (release_claim userId documentId claimId) g;
                evt = JObj [(''claimId'', JStr claimId), (''documentId'', JStr documentId), (''by'', JStr userId)];
                g2 = emit (ToRoomBut (room_of documentId) sid) ''section:released'' evt g1;
                g3 = publishFanout documentId ''section:released'' evt g2
            in (Done, ack sid msgId ''ok'' g3))"

section \<open>Messages of the other instances\<close>

definition replace_first :: "string \<Rightarrow> string \<Rightarrow> string" where
  "replace_first w s = (case index_of s w of
     None \<Rightarrow> s | Some i \<Rightarrow> take i s @ drop (i + length w) s)"

definition fanout_events :: "string list" where
  "fanout_events = [''y-update'', ''doc:msg'', ''presence'', ''section:claimed'', ''section:released'',
     ''comment:created'', ''comment:updated'', ''comment:deleted'', ''comment:resolved'']"

definition fanout_doc :: "string \<Rightarrow> json \<Rightarrow> string" where
  "fanout_doc channel data =
     (let p = Option.bind (jfield ''payload'' data) (jfield ''documentId'')
      in if truthy p then js_text p
         else if truthy (jfield ''documentId'' data) then js_text (jfield ''documentId'' data)
         else replace_first ''ws:room:'' channel)"

definition payload_of :: "json \<Rightarrow> json" where
  "payload_of data = (case jfield ''payload'' data of Some p \<Rightarrow> p | None \<Rightarrow> JNull)"

text \<open>The listener that \<open>bindPubSubEvents\<close> installs.\<close>

definition onMessage :: "string \<Rightarrow> json \<Rightarrow> gateway \<Rightarrow> gateway" where
  "onMessage channel data g =
     (if jstr ''origin'' data \<noteq> [] \<and> jstr ''origin'' data = g_instance g then g
      else if channel = ''ws:notify'' then
        (if jstr ''to'' data \<noteq> [] then emit (ToRoom (tmpl ''user:'' (jstr ''to'' data))) ''notify'' (payload_of data) g
         else g)
      else if jstr ''type'' data \<in> set fanout_events
      then emit (ToRoom (room_of (fanout_doc channel data))) (jstr ''type'' data) (payload_of data) g
      else g)"

section \<open>Registration of the instance\<close>

definition inst_key :: "string \<Rightarrow> string" where
  "inst_key i = tmpl ''ws:inst:'' i"

definition beat :: "int \<Rightarrow> gateway \<Rightarrow> gateway" where
  "beat clientsCount g =
     g_redis (\<lambda>s. r_setex (inst_key (g_instance g @ '':clients'')) (Num clientsCount) 60
                    (r_setex (inst_key (g_instance g @ '':heartbeat'')) (Num (g_now g)) 30 s)) g"

definition registerInstance :: "string \<Rightarrow> string \<Rightarrow> int \<Rightarrow> gateway \<Rightarrow> gateway" where
  "registerInstance startedAt pid clientsCount g =
     beat clientsCount
       (g_redis (\<lambda>s. r_hset (inst_key (g_instance g)) [(''startedAt'', startedAt), (''pid'', pid)]
                       (snd (r_sadd ''ws:instances'' (g_instance g) s))) g)"

definition afterInit :: "string \<Rightarrow> string \<Rightarrow> int \<Rightarrow> gateway \<Rightarrow> gateway" where
  "afterInit startedAt pid clientsCount g =
     registerInstance startedAt pid clientsCount (g\<lparr>g_channels := add_new ''ws:notify'' (g_channels g)\<rparr>)"

definition onModuleDestroy :: "gateway \<Rightarrow> gateway" where
  "onModuleDestroy g = g_redis (r_srem ''ws:instances'' (g_instance g)) g"

end
