(* ===== verification/OfflineQueue.thy ===== *)
theory OfflineQueue
  imports GatewayHandlers
begin

text \<open>
  The queue of messages for a user who is not online. \<open>bounded_queue\<close> is its contract: first in,
  first out, and only the newest messages up to a bound are kept; the Redis list that
  \<open>queueForOffline\<close> pushes to and \<open>flushOfflineQueue\<close> pops from is an interpretation.
\<close>

section \<open>Bounded queues\<close>

definition last_n :: "nat \<Rightarrow> 'a list \<Rightarrow> 'a list" where
  "last_n n xs = drop (length xs - n) xs"

fun drain_with :: "('s \<Rightarrow> 'e option \<times> 's) \<Rightarrow> nat \<Rightarrow> 's \<Rightarrow> 'e list \<times> 's" where
  "drain_with pop 0 s = ([], s)"
| "drain_with pop (Suc n) s =
     (case pop s of
        (None, s1) \<Rightarrow> ([], s1)
      | (Some e, s1) \<Rightarrow> let (es, s2) = drain_with pop n s1 in (e # es, s2))"

lemma last_n_length: "length (last_n n xs) \<le> n"
  by (simp add: last_n_def)

lemma last_n_short [simp]: "length xs \<le> n \<Longrightarrow> last_n n xs = xs"
  by (simp add: last_n_def)

lemma last_n_snoc: "last_n n (last_n n xs @ [e]) = last_n n (xs @ [e])"
proof (cases "length xs \<le> n")
  case False
  then have "length xs - (length xs - n) = n" by simp
  with False show ?thesis by (simp add: last_n_def Suc_diff_le)
qed simp

lemma last_n_append: "last_n n (last_n n xs @ es) = last_n n (xs @ es)"
proof (induction es arbitrary: xs)
  case Nil
  then show ?case by (simp add: last_n_def)
next
  case (Cons e es)
  have "last_n n (last_n n xs @ e # es) = last_n n (last_n n (last_n n xs @ [e]) @ es)"
    using Cons.IH [of "last_n n xs @ [e]"] by simp
  also have "\<dots> = last_n n (last_n n (xs @ [e]) @ es)" by (simp only: last_n_snoc)
  also have "\<dots> = last_n n (xs @ e # es)" using Cons.IH [of "xs @ [e]"] by simp
  finally show ?case .
qed

lemma last_n_rev_take: "last_n n (rev xs) = rev (take n xs)"
  by (simp add: last_n_def rev_take)

locale bounded_queue =
  fixes push :: "'e \<Rightarrow> 's \<Rightarrow> 's"
    and pop :: "'s \<Rightarrow> 'e option \<times> 's"
    and waiting :: "'s \<Rightarrow> 'e list"
    and bound :: nat
  assumes push_law: "waiting (push e s) = last_n bound (waiting s @ [e])"
    and pop_empty: "waiting s = [] \<Longrightarrow> fst (pop s) = None \<and> waiting (snd (pop s)) = []"
    and pop_first: "waiting s = e # es \<Longrightarrow> fst (pop s) = Some e \<and> waiting (snd (pop s)) = es"
begin

lemma push_all: "length (waiting s) \<le> bound \<Longrightarrow> waiting (fold push es s) = last_n bound (waiting s @ es)"
proof (induction es arbitrary: s)
  case (Cons e es)
  have "waiting (fold push es (push e s)) = last_n bound (waiting (push e s) @ es)"
    by (intro Cons.IH) (simp add: push_law last_n_length)
  then show ?case by (simp add: push_law last_n_append)
qed simp

lemma drain_all:
  "length (waiting s) \<le> n \<Longrightarrow>
     fst (drain_with pop n s) = waiting s \<and> waiting (snd (drain_with pop n s)) = []"
proof (induction n arbitrary: s)
  case (Suc n)
  obtain r s1 where p: "pop s = (r, s1)" by (cases "pop s")
  show ?case
  proof (cases "waiting s")
    case Nil
    with pop_empty [OF Nil] p show ?thesis by simp
  next
    case (Cons e es)
    with pop_first [OF Cons] p have "r = Some e" "waiting s1 = es" by simp_all
    with Suc.IH [of s1] Suc.prems Cons p show ?thesis by (simp add: case_prod_beta)
  qed
qed simp

lemma bounded: "length (waiting s) \<le> bound \<Longrightarrow> length (waiting (fold push es s)) \<le> bound"
  by (simp add: push_all last_n_length)

lemma deliver:
  "waiting s = [] \<Longrightarrow> bound \<le> n \<Longrightarrow>
     fst (drain_with pop n (fold push es s)) = last_n bound es
     \<and> waiting (snd (drain_with pop n (fold push es s))) = []"
  using drain_all [of "fold push es s" n] last_n_length [of bound es] by (simp add: push_all)

end

interpretation offline: bounded_queue "queue_push key" "r_rpop key" "\<lambda>s. rev (r_list key s)" 1000 for key
proof unfold_locales
  fix e s
  show "rev (r_list key (queue_push key e s)) = last_n 1000 (rev (r_list key s) @ [e])"
    using last_n_rev_take [of 1000 "e # r_list key s"] by (simp add: queue_push_def key_simps)
next
  fix s :: redis
  assume "rev (r_list key s) = []"
  then show "fst (r_rpop key s) = None \<and> rev (r_list key (snd (r_rpop key s))) = []"
    by (simp add: key_simps)
next
  fix s :: redis and e es
  assume a: "rev (r_list key s) = e # es"
  then have "r_list key s = rev es @ [e]" by (metis rev.simps(2) rev_rev_ident)
  then show "fst (r_rpop key s) = Some e \<and> rev (r_list key (snd (r_rpop key s))) = es"
    by (simp add: key_simps)
qed

section \<open>Messages for an absent user\<close>

lemma drain_queue_with: "drain_queue n key s = drain_with (r_rpop key) n s"
  by (induction n arbitrary: s) (auto split: prod.split option.split)

lemma queue_push_other: "k \<noteq> key \<Longrightarrow> entry (queue_push key e s) k = entry s k"
  by (simp add: queue_push_def key_simps)

lemma queue_keys [simp]:
  "queue_key d u = queue_key d v \<longleftrightarrow> u = v" "online_key d' \<noteq> queue_key d u"
  by (simp_all add: queue_key_def online_key_def)

lemma fold_push_other:
  "k \<notin> (\<lambda>u. queue_key d u) ` set us \<Longrightarrow>
     entry (fold (\<lambda>u. queue_push (queue_key d u) e) us s) k = entry s k"
  by (induction us arbitrary: s) (simp_all add: queue_push_other)

lemma fold_push_one:
  assumes "distinct us"
  shows "r_list (queue_key d u) (fold (\<lambda>v. queue_push (queue_key d v) e) us s) =
    (if u \<in> set us then r_list (queue_key d u) (queue_push (queue_key d u) e s)
     else r_list (queue_key d u) s)"
  using assms
proof (induction us arbitrary: s)
  case (Cons v us)
  let ?push = "\<lambda>v. queue_push (queue_key d v) e"
  have list_cong: "r_list k (queue_push k e s) = r_list k (queue_push k e s')"
    if "r_list k s = r_list k s'" for k s s'
    using that by (simp add: queue_push_def key_simps)
  have IH: "r_list (queue_key d u) (fold ?push (v # us) s) =
      (if u \<in> set us then r_list (queue_key d u) (?push u (?push v s))
       else r_list (queue_key d u) (?push v s))"
    using Cons by simp
  show ?case
  proof (cases "u = v")
    case True
    with Cons.prems IH show ?thesis by simp
  next
    case False
    then have "r_list (queue_key d u) (?push v s) = r_list (queue_key d u) s"
      by (intro read_other(3) queue_push_other) simp
    with list_cong [OF this] False IH show ?thesis by simp
  qed
qed simp

lemma g_redis_simps [simp]:
  "g_store (g_redis f g) = f (g_store g)" "g_db (g_redis f g) = g_db g" "g_out (g_redis f g) = g_out g"
  "g_socks (g_redis f g) = g_socks g" "g_batches (g_redis f g) = g_batches g"
  "g_instance (g_redis f g) = g_instance g" "g_channels (g_redis f g) = g_channels g"
  "g_subRefs (g_redis f g) = g_subRefs g" "g_presenceLast (g_redis f g) = g_presenceLast g"
  by (simp_all add: g_redis_def g_store_def g_db_def)

lemma g_out_update [simp]:
  "g_store (g\<lparr>g_out := out\<rparr>) = g_store g" "g_db (g\<lparr>g_out := out\<rparr>) = g_db g"
  by (simp_all add: g_store_def g_db_def)

lemma queueForOffline_frame [simp]:
  "g_db (queueForOffline d ev p g) = g_db g" "g_out (queueForOffline d ev p g) = g_out g"
  "g_socks (queueForOffline d ev p g) = g_socks g" "g_batches (queueForOffline d ev p g) = g_batches g"
  "g_instance (queueForOffline d ev p g) = g_instance g"
  "g_channels (queueForOffline d ev p g) = g_channels g" "g_subRefs (queueForOffline d ev p g) = g_subRefs g"
  "g_presenceLast (queueForOffline d ev p g) = g_presenceLast g"
  by (simp_all add: queueForOffline_def)

lemma queueForOffline_entry:
  assumes "k \<notin> range (queue_key d)"
  shows "entry (g_store (queueForOffline d ev p g)) k = entry (g_store g) k"
  unfolding queueForOffline_def g_redis_simps using assms by (intro fold_push_other) auto

lemma intended_users_queue [simp]: "intended_users d (queueForOffline d ev p g) = intended_users d g"
proof -
  have "entry (g_store (queueForOffline d ev p g)) (online_key d) = entry (g_store g) (online_key d)"
    by (rule queueForOffline_entry) (simp add: image_iff)
  then have "r_smembers (online_key d) (g_store (queueForOffline d ev p g)) = r_smembers (online_key d) (g_store g)"
    by (rule read_other(2))
  then show ?thesis by (simp add: intended_users_def split: option.split)
qed

lemma distinct_intended [simp]: "distinct (intended_users d g)"
  by (simp add: intended_users_def split: option.split)

definition queued_text :: "string \<Rightarrow> json \<Rightarrow> rtext" where
  "queued_text ev p = Js (JObj [(''event'', JStr ev), (''payload'', p)])"

lemma queueForOffline_list:
  "r_list (queue_key d u) (g_store (queueForOffline d ev p g)) =
    (if u \<in> set (intended_users d g) then r_list (queue_key d u) (queue_push (queue_key d u) (queued_text ev p) (g_store g))
     else r_list (queue_key d u) (g_store g))"
  by (simp add: queueForOffline_def queued_text_def fold_push_one)

lemma queue_run_list:
  assumes "u \<in> set (intended_users d g)"
  shows "r_list (queue_key d u) (g_store (fold (\<lambda>(ev, p). queueForOffline d ev p) es g)) =
    r_list (queue_key d u) (fold (queue_push (queue_key d u)) (map (\<lambda>(ev, p). queued_text ev p) es) (g_store g))"
proof -
  have cong: "r_list k (fold (queue_push k) ts s) = r_list k (fold (queue_push k) ts s')"
    if "r_list k s = r_list k s'" for k ts s s'
    using that
  proof (induction ts arbitrary: s s')
    case (Cons t ts)
    from Cons.prems have "r_list k (queue_push k t s) = r_list k (queue_push k t s')"
      by (simp add: queue_push_def key_simps)
    from Cons.IH [OF this] show ?case by simp
  qed simp
  show ?thesis
    using assms
  proof (induction es arbitrary: g)
    case (Cons x es)
    obtain ev p where x: "x = (ev, p)" by (cases x)
    let ?g = "queueForOffline d ev p g"
    have "r_list (queue_key d u) (g_store ?g) =
        r_list (queue_key d u) (queue_push (queue_key d u) (queued_text ev p) (g_store g))"
      using Cons.prems by (simp add: queueForOffline_list)
    from cong [OF this, of "map (\<lambda>(ev, p). queued_text ev p) es"]
    show ?case using Cons.IH [of ?g] Cons.prems unfolding x by (simp only: intended_users_queue fold.simps
      list.map prod.case o_apply)
  qed simp
qed

lemma queue_run_out:
  "g_out (fold (\<lambda>(ev, p). queueForOffline d ev p) es g) = g_out g"
  by (induction es arbitrary: g) auto

lemma map_filter_queued:
  "List.map_filter (queued_event sid) (map (\<lambda>(ev, p). queued_text ev p) es) =
     map (\<lambda>(ev, p). (ToSocket sid, ev, p)) es"
  by (induction es) (auto simp: map_filter_simps queued_text_def jstr_def)

lemma last_n_map: "last_n n (map f xs) = map f (last_n n xs)"
  by (simp add: last_n_def drop_map)

text \<open>C30: what is queued for a user of the document who is not online is delivered when the user
  joins: in the order it was queued, all of it or, when it was more, the newest thousand messages,
  and the queue is empty afterwards.\<close>

theorem offline_messages_delivered:
  assumes "u \<in> set (intended_users d g)" and "r_list (queue_key d u) (g_store g) = []"
  shows "g_out (flushOfflineQueue d u sid (fold (\<lambda>(ev, p). queueForOffline d ev p) es g)) =
      g_out g @ map (\<lambda>(ev, p). (ToSocket sid, ev, p)) (last_n 1000 es)
    \<and> r_list (queue_key d u) (g_store (flushOfflineQueue d u sid
        (fold (\<lambda>(ev, p). queueForOffline d ev p) es g))) = []"
proof -
  let ?k = "queue_key d u" and ?g = "fold (\<lambda>(ev, p). queueForOffline d ev p) es g"
  let ?ts = "map (\<lambda>(ev, p). queued_text ev p) es"
  have w: "rev (r_list ?k (g_store ?g)) = last_n 1000 ?ts"
    using offline.push_all [of ?k "g_store g" ?ts] assms(2) queue_run_list [OF assms(1), of es] by simp
  have "fst (drain_queue 1000 ?k (g_store ?g)) = last_n 1000 ?ts
      \<and> r_list ?k (snd (drain_queue 1000 ?k (g_store ?g))) = []"
    using offline.drain_all [of ?k "g_store ?g" 1000] w last_n_length [of 1000 ?ts]
    by (simp add: drain_queue_with)
  then show ?thesis
    by (simp add: flushOfflineQueue_def case_prod_beta last_n_map map_filter_queued queue_run_out)
qed

definition demo_gateway :: gateway where
  "demo_gateway = \<lparr>g_api = demo_api, g_instance = ''i1'', g_socks = [], g_batches = [], g_subRefs = [],
     g_channels = [], g_presenceLast = [], g_out = []\<rparr>"

lemma offline_messages_delivered_witness:
  "g_out (flushOfflineQueue ''d'' ''m'' ''s1''
     (fold (\<lambda>(ev, p). queueForOffline ''d'' ev p) [(''doc:msg'', JNum 1), (''doc:msg'', JNum 2)] demo_gateway)) =
   [(ToSocket ''s1'', ''doc:msg'', JNum 1), (ToSocket ''s1'', ''doc:msg'', JNum 2)]"
proof -
  have "''m'' \<in> set (intended_users ''d'' demo_gateway)"
    by (simp add: intended_users_def demo_gateway_def g_db_def g_store_def demo_api_def doc_findById_def
        demo_db_def demo_doc_def empty_db_def listMembers_def perm_list_def r_smembers_def entry_def
        empty_redis_def)
  moreover have "r_list (queue_key ''d'' ''m'') (g_store demo_gateway) = []"
    by (simp add: demo_gateway_def g_store_def demo_api_def r_list_def entry_def empty_redis_def)
  ultimately show ?thesis
    using offline_messages_delivered [of "''m''" "''d''" demo_gateway "''s1''"
        "[(''doc:msg'', JNum 1), (''doc:msg'', JNum 2)]"]
    by (simp add: demo_gateway_def)
qed

end
