(* ===== verification/GatewayRun.thy ===== *)
theory GatewayRun
  imports OfflineQueue
begin

text \<open>
  Runs of a gateway instance: \<open>gw_event\<close> lists what can happen to it (one constructor per handler,
  timer and message), \<open>gw_step\<close> is the step relation and \<open>gw_reach\<close> its closure from an instance that
  has just started. Invariants of the reachable states: the sockets and the rooms they are in.
\<close>

section \<open>Events and steps\<close>

datatype gw_event =
    Connect bool string string "string option" string
  | Disconnect string
  | Join string string
  | Leave string string
  | YUpdate string string string "string option" "int option"
  | TextMsg string string string "string option"
  | YSync string string string
  | Presence bool string string int int bool
  | Ping string
  | Metric string string string
  | SectionClaim string string string int int int "string option"
  | SectionRelease string string string "string option"
  | Flush string string
  | Prune
  | Deliver string json
  | Beat int
  | Outside api

text \<open>
  \<open>Outside\<close> stands for what the rest of the system does to Redis, the database and the memory cache,
  the passing of time included.
\<close>

fun handle ::
  "env \<Rightarrow> 'y ylib \<Rightarrow> (string \<Rightarrow> (string \<times> string) option) \<Rightarrow> gw_event \<Rightarrow> gateway \<Rightarrow> gateway" where
  "handle E L V (Connect roll sid token origin address) g = handleConnection E V roll sid token origin address g"
| "handle E L V (Disconnect sid) g = handleDisconnect E sid g"
| "handle E L V (Join sid d) g = snd (onJoin E L sid d g)"
| "handle E L V (Leave sid d) g = snd (onLeave E sid d g)"
| "handle E L V (YUpdate sid d u m q) g = snd (onYUpdate E L sid d u m q g)"
| "handle E L V (TextMsg sid d c m) g = snd (onTextMsg E sid d c m g)"
| "handle E L V (YSync sid d v) g = snd (onYSync E L sid d v g)"
| "handle E L V (Presence roll sid d a h t) g = snd (onPresence E roll sid d a h t g)"
| "handle E L V (Ping sid) g = onPing sid g"
| "handle E L V (Metric sid d n) g = snd (onMetric sid d n g)"
| "handle E L V (SectionClaim c sid d a b t m) g = snd (onSectionClaim c sid d a b t m g)"
| "handle E L V (SectionRelease sid d c m) g = snd (onSectionRelease sid d c m g)"
| "handle E L V (Flush token d) g = flushDoc E L token d g"
| "handle E L V Prune g = pruneIdle E g"
| "handle E L V (Deliver ch j) g = (if ch \<in> set (g_channels g) then onMessage ch j g else g)"
| "handle E L V (Beat n) g = beat n g"
| "handle E L V (Outside a) g = g\<lparr>g_api := a\<rparr>"

definition started :: "string \<Rightarrow> api \<Rightarrow> string \<Rightarrow> string \<Rightarrow> gateway" where
  "started i a startedAt pid = afterInit startedAt pid 0
     \<lparr>g_api = a, g_instance = i, g_socks = [], g_batches = [], g_subRefs = [], g_channels = [],
      g_presenceLast = [], g_out = []\<rparr>"

text \<open>A socket's identifier is given once: a connection comes with an identifier not in use.\<close>

inductive gw_step ::
  "env \<Rightarrow> 'y ylib \<Rightarrow> (string \<Rightarrow> (string \<times> string) option) \<Rightarrow> gateway \<Rightarrow> gateway \<Rightarrow> bool"
  for E L V where
  step: "(\<And>roll sid token org ad. ev = Connect roll sid token org ad \<Longrightarrow> map_of (g_socks g) sid = None)
    \<Longrightarrow> gw_step E L V g (handle E L V ev g)"

inductive gw_reach ::
  "env \<Rightarrow> 'y ylib \<Rightarrow> (string \<Rightarrow> (string \<times> string) option) \<Rightarrow> gateway \<Rightarrow> bool"
  for E L V where
  start: "gw_reach E L V (started i a startedAt pid)"
| more: "gw_reach E L V g \<Longrightarrow> gw_step E L V g g' \<Longrightarrow> gw_reach E L V g'"

inductive_cases gw_stepE: "gw_step E L V g g'"

lemma gw_invariant [consumes 1, case_names start step]:
  assumes "gw_reach E L V g"
    and "\<And>i a t p. I (started i a t p)"
    and "\<And>g ev. gw_reach E L V g \<Longrightarrow> I g \<Longrightarrow>
      (\<And>roll sid token org ad. ev = Connect roll sid token org ad \<Longrightarrow> map_of (g_socks g) sid = None) \<Longrightarrow>
      I (handle E L V ev g)"
  shows "I g"
  using assms(1)
proof induction
  case (more g g')
  then show ?case by (auto elim!: gw_stepE intro: assms(3))
qed (rule assms(2))

section \<open>What the helpers leave alone\<close>

lemma emit_simps [simp]:
  "g_api (emit t ev p g) = g_api g" "g_store (emit t ev p g) = g_store g" "g_db (emit t ev p g) = g_db g"
  "g_socks (emit t ev p g) = g_socks g" "g_batches (emit t ev p g) = g_batches g"
  "g_subRefs (emit t ev p g) = g_subRefs g" "g_channels (emit t ev p g) = g_channels g"
  "g_presenceLast (emit t ev p g) = g_presenceLast g" "g_instance (emit t ev p g) = g_instance g"
  "g_out (emit t ev p g) = g_out g @ [(t, ev, p)]"
  by (simp_all add: emit_def g_store_def g_db_def)

lemma g_audit_simps [simp]:
  "g_db (g_audit E ev ds g) = g_db g" "g_store (g_audit E ev ds g) = sec_log E ev ds (g_store g)"
  "g_socks (g_audit E ev ds g) = g_socks g" "g_batches (g_audit E ev ds g) = g_batches g"
  "g_subRefs (g_audit E ev ds g) = g_subRefs g" "g_channels (g_audit E ev ds g) = g_channels g"
  "g_presenceLast (g_audit E ev ds g) = g_presenceLast g" "g_instance (g_audit E ev ds g) = g_instance g"
  "g_out (g_audit E ev ds g) = g_out g"
  by (simp_all add: g_audit_def g_store_def g_db_def)

lemma ack_simps [simp]:
  "g_store (ack sid m st g) = g_store g" "g_db (ack sid m st g) = g_db g"
  "g_socks (ack sid m st g) = g_socks g" "g_batches (ack sid m st g) = g_batches g"
  "g_subRefs (ack sid m st g) = g_subRefs g" "g_channels (ack sid m st g) = g_channels g"
  "g_presenceLast (ack sid m st g) = g_presenceLast g" "g_instance (ack sid m st g) = g_instance g"
  by (simp_all add: ack_def)

lemma publish_simps [simp]:
  "g_db (publishFanout d t p g) = g_db g" "g_out (publishFanout d t p g) = g_out g"
  "g_socks (publishFanout d t p g) = g_socks g" "g_batches (publishFanout d t p g) = g_batches g"
  "g_subRefs (publishFanout d t p g) = g_subRefs g" "g_channels (publishFanout d t p g) = g_channels g"
  "g_presenceLast (publishFanout d t p g) = g_presenceLast g" "g_instance (publishFanout d t p g) = g_instance g"
  by (simp_all add: publishFanout_def)

section \<open>The sockets\<close>

lemma socks_frame [simp]:
  "g_socks (flushOfflineQueue d u sid g) = g_socks g"
  "g_socks (send_presence_list sid d g) = g_socks g"
  "g_socks (send_size_notice sid d g) = g_socks g"
  "g_socks (send_init E L sid d g) = g_socks g"
  "g_socks (send_claims sid d g) = g_socks g"
  "g_socks (subscribeDocChannel d g) = g_socks g"
  "g_socks (unsubscribeDocChannel d g) = g_socks g"
  "g_socks (enqueueUpdate d upd g) = g_socks g"
  "g_socks (count_update d b g) = g_socks g"
  "g_socks (flushDoc E L token d g) = g_socks g"
  "g_socks (pruneIdle E g) = g_socks g"
  "g_socks (beat n g) = g_socks g"
  "g_socks (onMessage ch j g) = g_socks g"
  "g_socks (onPing sid g) = g_socks g"
  by (auto simp: flushOfflineQueue_def send_presence_list_def send_size_notice_def send_init_def send_claims_def
      subscribeDocChannel_def unsubscribeDocChannel_def enqueueUpdate_def count_update_def flushDoc_def
      pruneIdle_def beat_def onMessage_def onPing_def Let_def case_prod_beta
      split: prod.split option.split sum.split rtext.split)

lemma sock_of_set [simp]: "sock_of sid' (set_sock sid k g) = (if sid' = sid then k else sock_of sid' g)"
  by (simp add: sock_of_def set_sock_def)

lemma sock_of_drop [simp]: "sock_of sid' (drop_sock sid g) = (if sid' = sid then no_sock else sock_of sid' g)"
  by (simp add: sock_of_def drop_sock_def)

lemma sock_of_cong: "g_socks g = g_socks g' \<Longrightarrow> sock_of sid g = sock_of sid g'"
  by (simp add: sock_of_def)

lemma sock_fields [simp]:
  "g_batches (set_sock sid k g) = g_batches g" "g_batches (drop_sock sid g) = g_batches g"
  "g_db (set_sock sid k g) = g_db g" "g_db (drop_sock sid g) = g_db g"
  "g_store (set_sock sid k g) = g_store g" "g_store (drop_sock sid g) = g_store g"
  "g_out (set_sock sid k g) = g_out g" "g_out (drop_sock sid g) = g_out g"
  "g_subRefs (set_sock sid k g) = g_subRefs g" "g_subRefs (drop_sock sid g) = g_subRefs g"
  "g_channels (set_sock sid k g) = g_channels g" "g_channels (drop_sock sid g) = g_channels g"
  "g_instance (set_sock sid k g) = g_instance g" "g_instance (drop_sock sid g) = g_instance g"
  "g_presenceLast (set_sock sid k g) = g_presenceLast g"
  "g_presenceLast (drop_sock sid g) = g_presenceLast g"
  by (simp_all add: set_sock_def drop_sock_def g_db_def g_store_def)

lemma handler_socks [simp]:
  "g_socks (snd (onYUpdate E L sid d u m q g)) = g_socks g"
  "g_socks (snd (onTextMsg E sid d c m g)) = g_socks g"
  "g_socks (snd (onYSync E L sid d v g)) = g_socks g"
  "g_socks (snd (onPresence E roll sid d a h t g)) = g_socks g"
  "g_socks (snd (onMetric sid d n g)) = g_socks g"
  "g_socks (snd (onSectionClaim c sid d a b x m g)) = g_socks g"
  "g_socks (snd (onSectionRelease sid d c m g)) = g_socks g"
  by (simp_all add: onYUpdate_def onTextMsg_def onYSync_def onPresence_def onMetric_def onSectionClaim_def
      onSectionRelease_def Let_def case_prod_beta split: option.split sum.split prod.split)

lemma onJoin_cases:
  obtains (refused) "g_socks (snd (onJoin E L sid p g)) = g_socks g"
    | (joined) userId email where "so_user (sock_of sid g) = Some (userId, email)"
      "hasDocAccess (g_db g) userId (js_trim p) ''viewer''"
      "int (room_size (room_of (js_trim p)) g) < ws_room_capacity E"
      "g_socks (snd (onJoin E L sid p g)) = g_socks (enter_room sid (js_trim p) g)"
proof (cases "so_user (sock_of sid g)")
  case None
  then show ?thesis by (intro refused) (simp add: onJoin_def)
next
  case (Some ue)
  obtain userId email where ue: "ue = (userId, email)" by (cases ue)
  show ?thesis
  proof (cases "js_trim p = [] \<or> doc_findById (js_trim p) (g_db g) = None
      \<or> \<not> hasDocAccess (g_db g) userId (js_trim p) ''viewer''
      \<or> ws_room_capacity E \<le> int (room_size (room_of (js_trim p)) g)")
    case True
    with Some ue show ?thesis by (intro refused) (auto simp: onJoin_def Let_def)
  next
    case False
    with Some ue show ?thesis by (intro joined) (auto simp: onJoin_def Let_def)
  qed
qed

section \<open>Rooms stay within their capacity\<close>

lemma count_put:
  "length (filter (\<lambda>(s, k). P k) (map_put sid k m)) \<le>
     length (filter (\<lambda>(s, k). P k) m)
     + (if P k \<and> \<not> (\<exists>k0. map_of m sid = Some k0 \<and> P k0) then 1 else 0)"
  by (induction m) auto

lemma room_size_put:
  "room_size room (set_sock sid k g) \<le> room_size room g
     + (if room \<in> set (so_rooms k) \<and> room \<notin> set (so_rooms (sock_of sid g)) then 1 else 0)"
  using count_put [of "\<lambda>k. room \<in> set (so_rooms k)" sid k "g_socks g"]
  by (auto simp: room_size_def set_sock_def sock_of_def no_sock_def split: option.splits if_splits)

lemma length_filter_mono: "(\<And>x. P x \<Longrightarrow> Q x) \<Longrightarrow> length (filter P xs) \<le> length (filter Q xs)"
  by (induction xs) auto

lemma room_size_drop: "room_size room (drop_sock sid g) \<le> room_size room g"
  unfolding room_size_def drop_sock_def map_del_def
  by (simp add: filter_filter) (rule length_filter_mono, auto)

lemma room_size_cong: "g_socks g = g_socks g' \<Longrightarrow> room_size r g = room_size r g'"
  by (simp add: room_size_def)

definition rooms_bounded :: "env \<Rightarrow> gateway \<Rightarrow> bool" where
  "rooms_bounded E g \<longleftrightarrow> (\<forall>d. int (room_size (room_of d) g) \<le> max 0 (ws_room_capacity E))"

lemma rooms_bounded_mono:
  assumes "rooms_bounded E g" and "\<And>d. room_size (room_of d) g' \<le> room_size (room_of d) g"
  shows "rooms_bounded E g'"
  using assms unfolding rooms_bounded_def by (meson dual_order.trans of_nat_mono)

lemma rooms_bounded_cong: "g_socks g' = g_socks g \<Longrightarrow> rooms_bounded E g \<Longrightarrow> rooms_bounded E g'"
  by (simp add: rooms_bounded_def room_size_def)

lemma room_size_put_le:
  assumes "room \<in> set (so_rooms k) \<Longrightarrow> room \<in> set (so_rooms (sock_of sid g))"
  shows "room_size room (set_sock sid k g) \<le> room_size room g"
  using room_size_put [of room sid k g] assms by (auto split: if_splits)

lemma room_size_put_Suc: "room_size room (set_sock sid k g) \<le> Suc (room_size room g)"
  using room_size_put [of room sid k g] by (auto split: if_splits)

lemma enter_room_bounded:
  assumes "rooms_bounded E g" and "int (room_size (room_of d) g) < ws_room_capacity E"
  shows "rooms_bounded E (enter_room sid d g)"
  unfolding rooms_bounded_def
proof
  fix d'
  let ?g = "enter_room sid d g"
  have le: "room_size (room_of d') ?g \<le> room_size (room_of d') g" if "d' \<noteq> d"
    unfolding enter_room_def Let_def using that
    by (intro room_size_put_le) (auto simp: room_of_def add_new_def split: if_splits)
  have suc: "room_size (room_of d') ?g \<le> Suc (room_size (room_of d') g)"
    unfolding enter_room_def Let_def by (rule room_size_put_Suc)
  have "int (room_size (room_of d') g) \<le> max 0 (ws_room_capacity E)"
    using assms(1) by (simp add: rooms_bounded_def)
  with le suc assms(2) show "int (room_size (room_of d') ?g) \<le> max 0 (ws_room_capacity E)"
    by (cases "d' = d") auto
qed

lemma connect_bounded: "rooms_bounded E g \<Longrightarrow> rooms_bounded E (handleConnection E V roll sid token org ad g)"
proof -
  assume r: "rooms_bounded E g"
  have drop: "rooms_bounded E (drop_sock sid g')" if "g_socks g' = g_socks g" for g'
    using rooms_bounded_mono [OF rooms_bounded_cong [OF that r]] room_size_drop by blast
  have put: "room_size (room_of d) (set_sock sid (k\<lparr>so_user := u, so_rooms := add_new (tmpl ''user:'' x) (so_rooms k)\<rparr>) g)
      \<le> room_size (room_of d) g" if "k = sock_of sid g" for d k u x
    using that by (intro room_size_put_le) (auto simp: room_of_def add_new_def split: if_splits)
  have "rooms_bounded E g'" if "g_socks g' = g_socks (set_sock sid
      ((sock_of sid g)\<lparr>so_user := u, so_rooms := add_new (tmpl ''user:'' x) (so_rooms (sock_of sid g))\<rparr>) g)" for g' u x
    using rooms_bounded_cong [OF that rooms_bounded_mono [OF r put [OF refl]]] .
  with drop show ?thesis
    by (auto simp: handleConnection_def Let_def split: option.split)
qed

lemma leave_socks:
  "g_socks (snd (onLeave E sid p g)) = g_socks g \<or>
   g_socks (snd (onLeave E sid p g)) = g_socks (set_sock sid ((sock_of sid g)
     \<lparr>so_rooms := filter (\<lambda>r. r \<noteq> room_of (js_trim p)) (so_rooms (sock_of sid g)),
      so_docs := filter (\<lambda>d. d \<noteq> js_trim p) (so_docs (sock_of sid g))\<rparr>) g)"
  by (simp add: onLeave_def Let_def split: option.split)

lemma leave_bounded: "rooms_bounded E g \<Longrightarrow> rooms_bounded E (snd (onLeave E sid p g))"
  using leave_socks [of E sid p g]
proof
  assume r: "rooms_bounded E g" and s: "g_socks (snd (onLeave E sid p g)) = g_socks (set_sock sid ((sock_of sid g)
     \<lparr>so_rooms := filter (\<lambda>r. r \<noteq> room_of (js_trim p)) (so_rooms (sock_of sid g)),
      so_docs := filter (\<lambda>d. d \<noteq> js_trim p) (so_docs (sock_of sid g))\<rparr>) g)"
  show ?thesis
    by (rule rooms_bounded_mono [OF r]) (simp add: room_size_cong [OF s], rule room_size_put_le, simp)
qed (rule rooms_bounded_cong)

lemma disconnect_socks: "g_socks (handleDisconnect E sid g) = g_socks (drop_sock sid g)"
  by (auto simp: handleDisconnect_def Let_def drop_sock_def split: option.split)

lemma handle_bounded:
  assumes "rooms_bounded E g"
  shows "rooms_bounded E (handle E L V ev g)"
proof (cases ev)
  case (Connect roll sid token org ad)
  then show ?thesis using assms by (simp add: connect_bounded)
next
  case (Disconnect sid)
  have "rooms_bounded E (drop_sock sid g)"
    using rooms_bounded_mono [OF assms] room_size_drop by blast
  from rooms_bounded_cong [OF disconnect_socks this] Disconnect show ?thesis by simp
next
  case (Join sid p)
  show ?thesis
  proof (rule onJoin_cases [of E L sid p g])
    assume "g_socks (snd (onJoin E L sid p g)) = g_socks g"
    from rooms_bounded_cong [OF this assms] Join show ?thesis by simp
  next
    assume "int (room_size (room_of (js_trim p)) g) < ws_room_capacity E"
      and s: "g_socks (snd (onJoin E L sid p g)) = g_socks (enter_room sid (js_trim p) g)"
    from rooms_bounded_cong [OF s enter_room_bounded [OF assms this(1)]] Join show ?thesis by simp
  qed
next
  case (Leave sid p)
  then show ?thesis using assms by (simp add: leave_bounded)
qed (use rooms_bounded_cong [OF _ assms] in simp_all)

lemma started_fields [simp]:
  "g_socks (started i a t p) = []" "g_batches (started i a t p) = []" "g_subRefs (started i a t p) = []"
  "g_instance (started i a t p) = i" "g_presenceLast (started i a t p) = []" "g_out (started i a t p) = []"
  "g_channels (started i a t p) = [''ws:notify'']"
  by (simp_all add: started_def afterInit_def registerInstance_def beat_def add_new_def)

text \<open>C15: whatever happens to an instance since its start, no room of a document ever holds more sockets
  than its capacity.\<close>

theorem room_capacity_kept:
  assumes "gw_reach E L V g" and "0 \<le> ws_room_capacity E"
  shows "int (room_size (room_of d) g) \<le> ws_room_capacity E"
proof -
  from assms(1) have "rooms_bounded E g"
  proof (induction rule: gw_invariant)
    case (start i a t p)
    then show ?case by (simp add: rooms_bounded_def room_size_def)
  next
    case (step g ev)
    then show ?case by (intro handle_bounded)
  qed
  with assms(2) show ?thesis by (simp add: rooms_bounded_def)
qed

definition demo_verify :: "string \<Rightarrow> (string \<times> string) option" where
  "demo_verify token = (if token = ''bad'' then None else Some (token, ''''))"

definition demo_joined :: gateway where
  "demo_joined = handle default_env byte_lib demo_verify (Join ''s1'' ''d'')
     (handle default_env byte_lib demo_verify (Connect False ''s1'' ''m'' None ''ip'') (started ''i1'' demo_api ''now'' ''1''))"

lemma demo_joined_reach: "gw_reach default_env byte_lib demo_verify demo_joined"
  unfolding demo_joined_def
  by (rule gw_reach.more, rule gw_reach.more, rule gw_reach.start) (rule gw_step.step, simp)+

lemma room_capacity_kept_witness: "int (room_size (room_of ''d'') demo_joined) \<le> 100"
  using room_capacity_kept [OF demo_joined_reach, of "''d''"] by (simp add: default_env_def)

section \<open>Who writes\<close>

definition pending :: "string \<Rightarrow> gateway \<Rightarrow> bytes list" where
  "pending d g = (case map_of (g_batches g) d of Some b \<Rightarrow> ba_updates b | None \<Rightarrow> [])"

lemma pending_cong: "g_batches g = g_batches g' \<Longrightarrow> pending d g = pending d g'"
  by (simp add: pending_def)

lemma batches_frame [simp]:
  "g_batches (flushOfflineQueue d u sid g) = g_batches g"
  "g_batches (send_presence_list sid d g) = g_batches g"
  "g_batches (send_size_notice sid d g) = g_batches g"
  "g_batches (send_init E L sid d g) = g_batches g"
  "g_batches (send_claims sid d g) = g_batches g"
  "g_batches (subscribeDocChannel d g) = g_batches g"
  "g_batches (unsubscribeDocChannel d g) = g_batches g"
  "g_batches (enter_room sid d g) = g_batches g"
  "g_batches (count_update d b g) = g_batches g"
  "g_batches (beat n g) = g_batches g"
  "g_batches (onMessage ch j g) = g_batches g"
  "g_batches (onPing sid g) = g_batches g"
  by (auto simp: flushOfflineQueue_def send_presence_list_def send_size_notice_def send_init_def send_claims_def
      subscribeDocChannel_def unsubscribeDocChannel_def count_update_def beat_def onMessage_def onPing_def
      enter_room_def Let_def case_prod_beta
      split: prod.split option.split sum.split rtext.split)

lemma handler_batches [simp]:
  "g_batches (snd (onTextMsg E sid d c m g)) = g_batches g"
  "g_batches (snd (onYSync E L sid d v g)) = g_batches g"
  "g_batches (snd (onPresence E roll sid d a h t g)) = g_batches g"
  "g_batches (snd (onMetric sid d nm g)) = g_batches g"
  "g_batches (snd (onSectionClaim c sid d a b2 x m g)) = g_batches g"
  "g_batches (snd (onSectionRelease sid d c m g)) = g_batches g"
  by (simp_all add: onTextMsg_def onYSync_def onPresence_def onMetric_def onSectionClaim_def
      onSectionRelease_def Let_def case_prod_beta split: option.split sum.split prod.split)

lemma member_batches [simp]:
  "g_batches (handleConnection E V roll sid token org ad g) = g_batches g"
  "g_batches (handleDisconnect E sid g) = g_batches g"
  "g_batches (snd (onLeave E sid d g)) = g_batches g"
  "g_batches (snd (onJoin E L sid d g)) = g_batches g"
     apply (simp add: handleConnection_def Let_def split: option.split)
    apply (simp add: handleDisconnect_def Let_def split: option.split)
   apply (simp add: onLeave_def Let_def split: option.split)
  apply (simp add: onJoin_def Let_def split: option.split)
  done

lemma pending_enqueue [simp]:
  "pending d' (enqueueUpdate d upd g) = (if d' = d then pending d g @ [upd] else pending d' g)"
  by (auto simp: pending_def enqueueUpdate_def Let_def split: option.split)

lemma pending_simps [simp]:
  "pending d (g_redis f g) = pending d g" "pending d (g_audit E ev ds g) = pending d g"
  "pending d (ack sid m st g) = pending d g" "pending d (emit t ev p g) = pending d g"
  "pending d (queueForOffline d' ev p g) = pending d g" "pending d (publishFanout d' ev p g) = pending d g"
  "pending d (count_update d' b g) = pending d g" "pending d (g\<lparr>g_api := a\<rparr>) = pending d g"
  by (simp_all add: pending_def)

lemma sock_of_simps [simp]:
  "sock_of sid (g_redis f g) = sock_of sid g" "sock_of sid (g_audit E ev ds g) = sock_of sid g"
  by (simp_all add: sock_of_def)

text \<open>The guards an update passed when it was put in a batch.\<close>

definition admitted_update :: "env \<Rightarrow> 'y ylib \<Rightarrow> string \<Rightarrow> string \<Rightarrow> bytes \<Rightarrow> gateway \<Rightarrow> bool" where
  "admitted_update E L sid d upd g \<longleftrightarrow>
     so_user (sock_of sid g) \<noteq> None \<and> d \<in> set (so_docs (sock_of sid g))
     \<and> int (length upd) \<le> ws_update_max_bytes E \<and> y_apply L (y_empty L) upd \<noteq> None"

lemma onYUpdate_pending:
  "pending d (snd (onYUpdate E L sid p b m q g)) = pending d g
   \<or> (d = js_trim p \<and> admitted_update E L sid d (decodeUpdate L (js_trim b)) g
      \<and> pending d (snd (onYUpdate E L sid p b m q g)) = pending d g @ [decodeUpdate L (js_trim b)])"
  by (auto simp: onYUpdate_def Let_def case_prod_beta admitted_update_def split: option.splits)

lemma pending_flush: "pending d (flushDoc E L token d' g) = (if d = d' then [] else pending d g)"
proof (cases "map_of (g_batches g) d'")
  case None
  then show ?thesis by (simp add: flushDoc_def pending_def)
next
  case (Some b)
  let ?g = "g\<lparr>g_batches := map_put d' (b\<lparr>ba_updates := [], ba_timer := False\<rparr>) (g_batches g)\<rparr>"
  have "pending d (flushDoc E L token d' g) = pending d ?g"
    using Some by (simp add: flushDoc_def Let_def case_prod_beta split: option.split sum.split)
  also have "\<dots> = (if d = d' then [] else pending d g)"
    by (simp add: pending_def)
  finally show ?thesis .
qed

lemma map_of_fold_del:
  "map_of (fold (\<lambda>(k, b) m. if P b then map_del k m else m) xs m) d \<in> {None, map_of m d}"
proof (induction xs arbitrary: m)
  case (Cons x xs)
  then show ?case
    using Cons.IH [of "map_del (fst x) m"] Cons.IH [of m] by (auto simp: case_prod_beta split: if_splits)
qed simp

lemma pending_prune: "set (pending d (pruneIdle E g)) \<subseteq> set (pending d g)"
  using map_of_fold_del [of "\<lambda>b. g_now g - ba_last b > ws_idle_prune_ms E" "g_batches g" "g_batches g" d]
  by (auto simp: pending_def pruneIdle_def split: option.splits)

lemma handle_pending:
  "set (pending d (handle E L V ev g)) \<subseteq> set (pending d g)
   \<or> (\<exists>sid p b m q. ev = YUpdate sid p b m q \<and> d = js_trim p
        \<and> admitted_update E L sid d (decodeUpdate L (js_trim b)) g
        \<and> pending d (handle E L V ev g) = pending d g @ [decodeUpdate L (js_trim b)])"
proof (cases ev)
  case (YUpdate sid p b m q)
  then show ?thesis using onYUpdate_pending [of d E L sid p b m q g] by auto
next
  case (Flush token d')
  then show ?thesis by (simp add: pending_flush)
next
  case Prune
  then show ?thesis by (simp add: pending_prune)
qed (simp_all add: pending_def)

lemma handle_docs:
  assumes "d \<in> set (so_docs (sock_of sid (handle E L V ev g)))" and "d \<notin> set (so_docs (sock_of sid g))"
  shows "\<exists>p u em. ev = Join sid p \<and> d = js_trim p \<and> so_user (sock_of sid g) = Some (u, em)
    \<and> hasDocAccess (g_db g) u d ''viewer''"
proof -
  have same: False if "g_socks (handle E L V ev g) = g_socks g"
    using assms sock_of_cong [OF that] by simp
  show ?thesis
  proof (cases ev)
    case (Connect roll s token org ad)
    then have "so_docs (sock_of sid (handle E L V ev g)) \<in> {[], so_docs (sock_of sid g)}"
      by (auto simp: handleConnection_def Let_def no_sock_def split: option.split)
    with assms show ?thesis by auto
  next
    case (Disconnect s)
    with assms sock_of_cong [OF disconnect_socks] show ?thesis by (auto simp: no_sock_def split: if_splits)
  next
    case (Join s p)
    show ?thesis
    proof (rule onJoin_cases [of E L s p g])
      assume "g_socks (snd (onJoin E L s p g)) = g_socks g"
      with same Join show ?thesis by simp
    next
      fix u em
      assume j: "so_user (sock_of s g) = Some (u, em)" "hasDocAccess (g_db g) u (js_trim p) ''viewer''"
        and s: "g_socks (snd (onJoin E L s p g)) = g_socks (enter_room s (js_trim p) g)"
      have "sock_of sid (handle E L V ev g) = sock_of sid (enter_room s (js_trim p) g)"
        using Join sock_of_cong [OF s] by simp
      with assms have "sid = s \<and> d = js_trim p"
        by (auto simp: enter_room_def Let_def add_new_def split: if_splits)
      with j Join show ?thesis by auto
    qed
  next
    case (Leave s p)
    with assms leave_socks [of E s p g] show ?thesis
      by (auto dest!: sock_of_cong [where sid = sid] split: if_splits)
  next
    case (Deliver ch j)
    then have "g_socks (handle E L V ev g) = g_socks g" by simp
    then show ?thesis by (rule same [THEN FalseE])
  qed (use same in simp_all)
qed

text \<open>A run: the events in order.\<close>

definition gw_run ::
  "env \<Rightarrow> 'y ylib \<Rightarrow> (string \<Rightarrow> (string \<times> string) option) \<Rightarrow> gw_event list \<Rightarrow> gateway \<Rightarrow> gateway" where
  "gw_run E L V evs g = fold (handle E L V) evs g"

lemma gw_run_simps [simp]:
  "gw_run E L V [] g = g" "gw_run E L V (evs @ evs') g = gw_run E L V evs' (gw_run E L V evs g)"
  "gw_run E L V (ev # evs) g = gw_run E L V evs (handle E L V ev g)"
  by (simp_all add: gw_run_def)

lemma joined_traceback:
  assumes "g_socks g0 = []" and "d \<in> set (so_docs (sock_of sid (gw_run E L V evs g0)))"
  shows "\<exists>before p after u em. evs = before @ Join sid p # after \<and> d = js_trim p
    \<and> so_user (sock_of sid (gw_run E L V before g0)) = Some (u, em)
    \<and> hasDocAccess (g_db (gw_run E L V before g0)) u d ''viewer''"
  using assms(2)
proof (induction evs rule: rev_induct)
  case Nil
  then show ?case using assms(1) by (simp add: sock_of_def no_sock_def)
next
  case (snoc ev evs)
  show ?case
  proof (cases "d \<in> set (so_docs (sock_of sid (gw_run E L V evs g0)))")
    case True
    with snoc.IH show ?thesis by (metis append.assoc append_Cons)
  next
    case False
    with handle_docs [of d sid E L V ev "gw_run E L V evs g0"] snoc.prems
    obtain p u em where "ev = Join sid p" "d = js_trim p"
      "so_user (sock_of sid (gw_run E L V evs g0)) = Some (u, em)"
      "hasDocAccess (g_db (gw_run E L V evs g0)) u d ''viewer''" by auto
    then show ?thesis
      by (intro exI [of _ evs] exI [of _ p] exI [of _ "[]"] exI [of _ u] exI [of _ em]) simp
  qed
qed

end
