(* ===== verification/GatewayProps.thy ===== *)
theory GatewayProps
  imports GatewayRun
begin

text \<open>
  What the gateway promises: who may write to a document, what becomes of the updates it accepted,
  when a message is sent on and to whom, and the limits on presence and section claims; and the
  places where the code does not keep its promise.
\<close>

section \<open>Writers\<close>

text \<open>C9: every update that waits to be written to a document was sent by a connection of an
  authenticated user who had joined the document, which in turn happened when the user had access to
  it; the update is within the size limit and Yjs accepts it.\<close>

theorem writers_were_admitted:
  assumes "upd \<in> set (pending d (gw_run E L V evs (started i a t pid)))"
  shows "\<exists>evs1 p evs2 p' b m q evs3 sid u em. evs = evs1 @ Join sid p # evs2 @ YUpdate sid p' b m q # evs3
    \<and> d = js_trim p \<and> d = js_trim p' \<and> upd = decodeUpdate L (js_trim b)
    \<and> so_user (sock_of sid (gw_run E L V evs1 (started i a t pid))) = Some (u, em)
    \<and> hasDocAccess (g_db (gw_run E L V evs1 (started i a t pid))) u d ''viewer''
    \<and> admitted_update E L sid d upd (gw_run E L V (evs1 @ Join sid p # evs2) (started i a t pid))"
  using assms
proof (induction evs rule: rev_induct)
  case Nil
  then show ?case by (simp add: pending_def)
next
  case (snoc ev evs)
  let ?s = "started i a t pid"
  show ?case
  proof (cases "upd \<in> set (pending d (gw_run E L V evs ?s))")
    case True
    from snoc.IH [OF this] show ?thesis
      apply (elim exE conjE)
      subgoal for evs1 p evs2 p' b m q evs3 sid u em
        by (rule exI [of _ evs1], rule exI [of _ p], rule exI [of _ evs2], rule exI [of _ p'],
            rule exI [of _ b], rule exI [of _ m], rule exI [of _ q], rule exI [of _ "evs3 @ [ev]"],
            rule exI [of _ sid], rule exI [of _ u], rule exI [of _ em])
          (simp only: append_assoc append_Cons conj_assoc simp_thms)
      done
  next
    case False
    from handle_pending [of d E L V ev "gw_run E L V evs ?s"] snoc.prems False
    obtain sid p' b m q where ev: "ev = YUpdate sid p' b m q" "d = js_trim p'" "upd = decodeUpdate L (js_trim b)"
      "admitted_update E L sid d upd (gw_run E L V evs ?s)" by auto
    have "d \<in> set (so_docs (sock_of sid (gw_run E L V evs ?s)))"
      using ev(4) by (simp add: admitted_update_def)
    from joined_traceback [OF started_fields(1) this]
    obtain evs1 p evs2 u em where j: "evs = evs1 @ Join sid p # evs2" "d = js_trim p"
      "so_user (sock_of sid (gw_run E L V evs1 ?s)) = Some (u, em)"
      "hasDocAccess (g_db (gw_run E L V evs1 ?s)) u d ''viewer''"
      by blast
    have adm: "admitted_update E L sid d upd (gw_run E L V (evs1 @ Join sid p # evs2) ?s)"
      using ev(4) j(1) by (simp only:)
    show ?thesis
      by (rule exI [of _ evs1], rule exI [of _ p], rule exI [of _ evs2], rule exI [of _ p'],
          rule exI [of _ b], rule exI [of _ m], rule exI [of _ q], rule exI [of _ "[]"],
          rule exI [of _ sid], rule exI [of _ u], rule exI [of _ em])
        (use ev(1,2,3) j adm in \<open>simp only: append_assoc append_Cons append_Nil append_Nil2 conj_assoc simp_thms\<close>)
  qed
qed

definition demo_events :: "gw_event list" where
  "demo_events = [Connect False ''s1'' ''m'' None ''ip'', Join ''s1'' ''d'',
     YUpdate ''s1'' ''d'' ''AQI='' None None]"

lemma demo_pending:
  "[1, 2] \<in> set (pending ''d'' (gw_run default_env byte_lib demo_verify demo_events (started ''i1'' demo_api ''now'' ''1'')))"
  by code_simp

lemma writers_were_admitted_witness:
  "\<exists>u em. so_user (sock_of ''s1'' (gw_run default_env byte_lib demo_verify [Connect False ''s1'' ''m'' None ''ip'']
     (started ''i1'' demo_api ''now'' ''1''))) = Some (u, em)"
  using writers_were_admitted [OF demo_pending]
  apply (elim exE conjE)
  subgoal for evs1 p evs2 p' b m q evs3 sid u em
    by (cases evs1; cases "tl evs1"; cases "tl (tl evs1)") (auto simp: demo_events_def)
  done

section \<open>Batches\<close>

text \<open>The event a flushed batch becomes.\<close>

definition update_event :: "env \<Rightarrow> 'y ylib \<Rightarrow> string \<Rightarrow> bytes \<Rightarrow> json" where
  "update_event E L documentId merged =
     JObj [(''documentId'', JStr documentId), (''updateB64'', JStr (fst (maybeGzip E L merged))),
           (''gz'', JBool (snd (maybeGzip E L merged)))]"

lemma update_event_decodes:
  assumes "zip_laws L" and "gunzip L merged = None"
  shows "decodeUpdate L (jstr ''updateB64'' (update_event E L d merged)) = merged"
  using assms by (simp add: update_event_def jstr_def maybeGzip_def decodeUpdate_def zip_laws_def)

lemma flush_accepted:
  assumes "map_of (g_batches g) d = Some b" and "ba_updates b \<noteq> []" and "y_merge L (ba_updates b) = Some merged"
    and "applyYUpdate E L token d (b64_encode merged) (g_api g) = (Inr (), a)"
  shows "flushDoc E L token d g =
    count_update d (fst (maybeGzip E L merged))
      (publishFanout d ''y-update'' (update_event E L d merged)
        (queueForOffline d ''y-update'' (update_event E L d merged)
          (emit (ToRoom (room_of d)) ''y-update'' (update_event E L d merged)
            (g\<lparr>g_batches := map_put d (b\<lparr>ba_updates := [], ba_timer := False\<rparr>) (g_batches g), g_api := a\<rparr>))))"
  using assms by (simp add: flushDoc_def Let_def case_prod_beta update_event_def)

lemma count_update_frame [simp]:
  "g_out (count_update d b g) = g_out g" "g_db (count_update d b g) = g_db g"
  "pubs (g_store (count_update d b g)) = pubs (g_store g)"
  by (auto simp: count_update_def Let_def r_incrby_def r_incr_def split: option.split prod.split rval.split rtext.split)

definition fanout_message :: "gateway \<Rightarrow> string \<Rightarrow> string \<Rightarrow> json \<Rightarrow> json" where
  "fanout_message g d t p = JObj [(''origin'', JStr (g_instance g)), (''documentId'', JStr d),
     (''type'', JStr t), (''payload'', p)]"

lemma publishFanout_pubs: "pubs (g_store (publishFanout d t p g)) = pubs (g_store g) @ [(channel_of d, fanout_message g d t p)]"
  by (simp add: publishFanout_def fanout_message_def)

lemma flush_outcome:
  assumes "yjs_laws L join dec" and "zip_laws L"
    and "pending d g \<noteq> []" and "\<forall>u \<in> set (pending d g). dec u \<noteq> None"
    and "\<forall>m. y_merge L (pending d g) = Some m \<longrightarrow> gunzip L m = None"
    and "log_inv d (g_db g)" and "entry (g_store g) (lock_key d) = None"
  obtains merged where "y_merge L (pending d g) = Some merged" "gunzip L merged = None"
    "dec merged = Some (joined join dec (pending d g) (y_empty L))"
    "doc_state L d (g_db (flushDoc E L token d g)) = joined join dec (pending d g) (doc_state L d (g_db g))"
    "g_out (flushDoc E L token d g) = g_out g @ [(ToRoom (room_of d), ''y-update'', update_event E L d merged)]"
    "last (pubs (g_store (flushDoc E L token d g))) = (channel_of d, fanout_message g d ''y-update'' (update_event E L d merged))"
proof -
  obtain b where b: "map_of (g_batches g) d = Some b" "ba_updates b = pending d g"
    using assms(3) by (auto simp: pending_def split: option.splits)
  obtain merged where m: "y_merge L (pending d g) = Some merged"
      "dec merged = Some (joined join dec (pending d g) (y_empty L))"
    using merge_joined [OF assms(1,3,4)] by auto
  have gz: "gunzip L merged = None" using assms(5) m(1) by simp
  have pay: "payload_update L (b64_encode merged) = merged"
    by (simp add: payload_update_def gz)
  let ?v = "joined join dec (pending d g) (y_empty L)"
  have v: "dec (payload_update L (b64_encode merged)) = Some ?v" using m(2) pay by simp
  have "fst (applyYUpdate E L token d (b64_encode merged) (g_api g)) = Inr ()"
    unfolding applyYUpdate_commit [OF assms(1) v]
    by (rule ap_commit_accepted [THEN conjunct1]) (use assms(6,7) in \<open>simp_all add: g_db_def g_store_def\<close>)
  then obtain a where a: "applyYUpdate E L token d (b64_encode merged) (g_api g) = (Inr (), a)"
    by (metis prod.collapse)
  have "doc_state L d (a_db a) = join (doc_state L d (g_db g)) ?v"
    using applyYUpdate_state [OF assms(1,2) a] m(2) by (auto simp: pay g_db_def)
  also have "\<dots> = joined join dec (pending d g) (doc_state L d (g_db g))"
    using joined_join [OF assms(1), of "pending d g" "y_empty L" "doc_state L d (g_db g)"]
    by (simp add: yjs_ac [OF assms(1)])
  finally have st: "doc_state L d (a_db a) = joined join dec (pending d g) (doc_state L d (g_db g))" .
  have f: "flushDoc E L token d g = count_update d (fst (maybeGzip E L merged))
      (publishFanout d ''y-update'' (update_event E L d merged)
        (queueForOffline d ''y-update'' (update_event E L d merged)
          (emit (ToRoom (room_of d)) ''y-update'' (update_event E L d merged)
            (g\<lparr>g_batches := map_put d (b\<lparr>ba_updates := [], ba_timer := False\<rparr>) (g_batches g), g_api := a\<rparr>))))"
    using b m assms(3) by (intro flush_accepted [OF b(1) _ _ a]) simp_all
  have "g_db (flushDoc E L token d g) = a_db a" by (simp add: f) (simp add: g_db_def)
  moreover have "g_out (flushDoc E L token d g) = g_out g @ [(ToRoom (room_of d), ''y-update'', update_event E L d merged)]"
    by (simp add: f)
  moreover have "last (pubs (g_store (flushDoc E L token d g))) =
      (channel_of d, fanout_message g d ''y-update'' (update_event E L d merged))"
    by (simp add: f publishFanout_pubs fanout_message_def)
  ultimately show ?thesis
    using st by (intro that [OF m(1) gz m(2)]) simp_all
qed


definition demo_batch :: gateway where
  "demo_batch = demo_gateway\<lparr>g_batches := [(''d'', \<lparr>ba_updates = [[1, 2], [3]], ba_timer = True, ba_last = 0\<rparr>)]\<rparr>"


text \<open>With the lock of the document held elsewhere, the flush discards the batch: the updates, which
  were acknowledged when they were put in the batch, are neither stored nor waiting nor sent.\<close>

lemma busy_flush_discards:
  assumes "entry (g_store g) (lock_key d) = Some w"
  shows "pending d (flushDoc E L token d g) = []
    \<and> doc_state L d (g_db (flushDoc E L token d g)) = doc_state L d (g_db g)
    \<and> g_out (flushDoc E L token d g) = g_out g"
proof -
  have "fst (applyYUpdate E L token d b64 (g_api g)) \<noteq> Inr ()
      \<and> a_db (snd (applyYUpdate E L token d b64 (g_api g))) = g_db g" for b64
  proof -
    have "entry (a_redis (ap_size E d n (g_api g))) (lock_key d) = Some w" for n
      using assms by (simp add: g_store_def)
    then have "acquire (lock_key d) 5000 token (a_redis (ap_size E d n (g_api g))) =
        (None, a_redis (ap_size E d n (g_api g)))" for n
      by (simp add: acquire_def key_simps)
    then show ?thesis
      by (auto simp: applyYUpdate_def ap_commit_def Let_def g_db_def split: option.splits)
  qed
  then show ?thesis
    unfolding pending_flush
    by (auto simp: flushDoc_def Let_def case_prod_beta g_db_def split: option.split sum.split)
qed

section \<open>A message is taken once\<close>

definition pass :: "int \<Rightarrow> gateway \<Rightarrow> gateway" where
  "pass t g = g\<lparr>g_api := api_tick t (g_api g)\<rparr>"

lemma pass_simps [simp]:
  "g_store (pass t g) = tick t (g_store g)" "g_db (pass t g) = g_db g" "pending d (pass t g) = pending d g"
  "sock_of sid (pass t g) = sock_of sid g"
  by (simp_all add: pass_def g_store_def g_db_def api_tick_def pending_def sock_of_def)

definition seen :: "string \<Rightarrow> string \<Rightarrow> int \<Rightarrow> redis \<Rightarrow> bool" where
  "seen d m t s \<longleftrightarrow> (\<exists>ms. entry s (dedup_key d) = Some (RSet ms, Some t) \<and> m \<in> set ms)"

lemma dedup_keys [simp]:
  "dedup_key d \<noteq> ws_rate_key (CHR ''u'' # k)" "dedup_key d \<noteq> lastseq_key d' u" "\<not> log_key (dedup_key d)"
    apply (simp add: dedup_key_def ws_rate_key_def tmpl_def)
   apply (simp add: dedup_key_def lastseq_key_def)
  apply (simp add: dedup_key_def log_key_def)
  done

lemma seen_dedup: "fst (dedup_step d (Some m) s) \<or> seen d m (clock s + 60000) (snd (dedup_step d (Some m) s))"
  by (auto simp: dedup_step_def Let_def case_prod_beta seen_def r_sadd_def r_expire_def key_simps ttl_of_live
      split: option.split)

lemma order_step_entry:
  "k \<noteq> lastseq_key d u \<Longrightarrow> entry (snd (order_step d u q s)) k = entry s k"
  by (simp add: order_step_def key_simps split: option.split)

lemma allow_entry:
  "k \<noteq> ws_rate_key kid \<Longrightarrow> entry (snd (allowWsMessage E kid s)) k = entry s k"
  "clock (snd (allowWsMessage E kid s)) = clock s"
  by (simp_all add: allowWsMessage_eq bump_entry bump_clock)

lemma enqueue_frame [simp]:
  "g_store (enqueueUpdate d u g) = g_store g" "g_db (enqueueUpdate d u g) = g_db g"
  "g_out (enqueueUpdate d u g) = g_out g"
  by (simp_all add: enqueueUpdate_def Let_def g_store_def g_db_def)

text \<open>An update that was put in a batch has left its identifier behind for a minute.\<close>

lemma enqueued_seen:
  assumes "pending d (snd (onYUpdate E L sid p b (Some m) q g)) \<noteq> pending d g" and "m \<noteq> []"
  shows "seen d m (clock (g_store g) + 60000) (g_store (snd (onYUpdate E L sid p b (Some m) q g)))"
proof -
  obtain u em where u: "so_user (sock_of sid g) = Some (u, em)"
    using assms(1) by (cases "so_user (sock_of sid g)") (auto simp: onYUpdate_def)
  let ?s1 = "snd (allowWsMessage E (''user:'' @ u) (g_store g))"
  let ?s2 = "snd (dedup_step (js_trim p) (Some m) ?s1)"
  let ?s3 = "snd (order_step (js_trim p) u q ?s2)"
  have r: "g_store (snd (onYUpdate E L sid p b (Some m) q g)) = ?s3" "d = js_trim p"
    "\<not> fst (dedup_step (js_trim p) (Some m) ?s1)"
    using assms u by (auto simp: onYUpdate_def Let_def case_prod_beta truthy_id_def split: if_splits)
  have "seen d m (clock ?s1 + 60000) ?s2" using seen_dedup [of d m ?s1] r by simp
  then show ?thesis using r by (simp add: seen_def order_step_entry allow_entry)
qed

lemma seen_refused:
  assumes "seen d m t (g_store g)" and "m \<noteq> []" and "d = js_trim p"
  shows "pending d (snd (onYUpdate E L sid p b (Some m) q g)) = pending d g"
proof -
  have "fst (dedup_step d (Some m) (snd (allowWsMessage E (''user:'' @ u) (g_store g))))" for u
    using assms(1) by (auto simp: seen_def dedup_step_def r_sadd_def r_smembers_def allow_entry Let_def)
  with assms(2,3) show ?thesis
    by (auto simp: onYUpdate_def Let_def case_prod_beta truthy_id_def split: option.split)
qed

lemma seen_tick: "seen d m t s \<Longrightarrow> 0 \<le> x \<Longrightarrow> clock s + x < t \<Longrightarrow> seen d m t (tick x s)"
  by (auto simp: seen_def entry_tick)

text \<open>C11: an update is put in a batch once: a second message with its identifier, from any connection to
  the same document within a minute, changes no batch.\<close>

theorem update_taken_once:
  assumes "pending d (snd (onYUpdate E L sid p b (Some m) q g)) \<noteq> pending d g" and "m \<noteq> []"
    and "0 \<le> t" and "t < 60000" and "js_trim p' = d"
  shows "pending d (snd (onYUpdate E L sid' p' b' (Some m) q' (pass t (snd (onYUpdate E L sid p b (Some m) q g)))))
    = pending d (snd (onYUpdate E L sid p b (Some m) q g))"
proof -
  let ?g = "snd (onYUpdate E L sid p b (Some m) q g)"
  have c: "clock (g_store ?g) = clock (g_store g)"
    by (simp add: onYUpdate_def Let_def case_prod_beta allow_entry dedup_step_def order_step_def split: option.split)
  have "seen d m (clock (g_store g) + 60000) (g_store (pass t ?g))"
    using seen_tick [OF enqueued_seen [OF assms(1,2)] assms(3)] assms(4) c by simp
  from seen_refused [OF this assms(2) assms(5) [symmetric]] show ?thesis by simp
qed

definition demo_member :: gateway where
  "demo_member = demo_gateway\<lparr>g_socks :=
     [(''s1'', \<lparr>so_user = Some (''m'', ''m@x''), so_docs = [''d''], so_rooms = [''doc:d'']\<rparr>)]\<rparr>"

lemma demo_member_update:
  "pending ''d'' (snd (onYUpdate default_env byte_lib ''s1'' ''d'' ''AQI='' (Some ''m1'') None demo_member)) = [[1, 2]]"
  by code_simp

lemma update_taken_once_witness:
  "pending ''d'' (snd (onYUpdate default_env byte_lib ''s2'' ''d'' ''AQM='' (Some ''m1'') None
     (pass 10 (snd (onYUpdate default_env byte_lib ''s1'' ''d'' ''AQI='' (Some ''m1'') None demo_member)))))
   = [[1, 2]]"
proof -
  have "pending ''d'' demo_member = []" by (simp add: pending_def demo_member_def demo_gateway_def)
  then show ?thesis
    using update_taken_once [of "''d''" default_env byte_lib "''s1''" "''d''" "''AQI=''" "''m1''" None demo_member
        10 "''d''" "''s2''" "''AQM=''" None] demo_member_update
    by (simp add: js_trim_def is_ws_def)
qed

section \<open>From instance to instance\<close>

lemma index_of_self_prefix [simp]: "index_of (p @ s) p = Some 0"
  by (cases "p @ s") (auto, metis starts_with_append)

lemma replace_first_prefix [simp]: "replace_first p (p @ s) = s"
  by (simp add: replace_first_def)

lemma fanout_doc_message:
  "jfield ''documentId'' p \<in> {None, Some (JStr d)} \<Longrightarrow> fanout_doc (channel_of d) (fanout_message g d t p) = d"
  by (cases "d = []") (auto simp: fanout_doc_def fanout_message_def channel_of_def tmpl_def replace_first_def Let_def)

lemma channel_not_notify [simp]: "channel_of d \<noteq> ''ws:notify''"
  by (simp add: channel_of_def)

lemma relayed_message:
  assumes "t \<in> set fanout_events" and "jfield ''documentId'' p \<in> {None, Some (JStr d)}"
  shows "g_instance g \<noteq> g_instance a \<Longrightarrow>
      onMessage (channel_of d) (fanout_message a d t p) g = emit (ToRoom (room_of d)) t p g"
    and "g_instance g = g_instance a \<Longrightarrow> g_instance a \<noteq> [] \<Longrightarrow>
      onMessage (channel_of d) (fanout_message a d t p) g = g"
proof -
  let ?j = "fanout_message a d t p"
  have f: "jstr ''origin'' ?j = g_instance a" "jstr ''type'' ?j = t" "payload_of ?j = p"
    by (simp_all add: fanout_message_def jstr_def payload_of_def)
  show "g_instance g \<noteq> g_instance a \<Longrightarrow> onMessage (channel_of d) ?j g = emit (ToRoom (room_of d)) t p g"
    using assms(1) fanout_doc_message [OF assms(2), of a t] by (auto simp: onMessage_def f)
  show "g_instance g = g_instance a \<Longrightarrow> g_instance a \<noteq> [] \<Longrightarrow> onMessage (channel_of d) ?j g = g"
    by (simp add: onMessage_def f)
qed

text \<open>an event that one instance publishes for a document is sent on by every other instance to the
  sockets that are in the room of that document there, once and with the same name and payload; the
  instance that published it ignores it when it comes back.\<close>

theorem fanout_relayed_once:
  assumes "g_instance a \<noteq> []" and "t \<in> set fanout_events"
    and "jfield ''documentId'' p \<in> {None, Some (JStr d)}"
  shows "\<exists>ch j. pubs (g_store (publishFanout d t p a)) = pubs (g_store a) @ [(ch, j)]
    \<and> ch = channel_of d
    \<and> (\<forall>g. g_instance g = g_instance a \<longrightarrow> onMessage ch j g = g)
    \<and> (\<forall>g. g_instance g \<noteq> g_instance a \<longrightarrow> onMessage ch j g = emit (ToRoom (room_of d)) t p g)"
  using assms relayed_message [OF assms(2,3)] publishFanout_pubs by blast

lemma fanout_relayed_once_witness:
  "\<exists>ch j. pubs (g_store (publishFanout ''d'' ''doc:msg'' (JObj [(''documentId'', JStr ''d'')]) demo_gateway)) = [(ch, j)]
    \<and> onMessage ch j demo_gateway = demo_gateway"
proof -
  have "g_instance demo_gateway \<noteq> []" "pubs (g_store demo_gateway) = []"
    by (simp_all add: demo_gateway_def g_store_def demo_api_def empty_redis_def)
  then show ?thesis
    using fanout_relayed_once [of demo_gateway "''doc:msg''" "JObj [(''documentId'', JStr ''d'')]" "''d''"]
    by (auto simp: fanout_events_def)
qed

section \<open>Presence\<close>

definition presence_slot :: "string \<Rightarrow> string \<Rightarrow> gateway \<Rightarrow> int option" where
  "presence_slot d u g = map_of (g_presenceLast g) (d @ '':'' @ u)"

fun presence_run ::
  "env \<Rightarrow> string \<Rightarrow> string \<Rightarrow> (int \<times> int \<times> int \<times> bool) list \<Rightarrow> gateway \<Rightarrow> gateway" where
  "presence_run E sid p [] g = g"
| "presence_run E sid p ((delay, a, h, typing) # evs) g =
     presence_run E sid p evs (snd (onPresence E False sid p a h typing (pass delay g)))"

lemma presenceLast_update [simp]: "g_store (g\<lparr>g_presenceLast := x\<rparr>) = g_store g"
  by (simp add: g_store_def)

lemma store_presence_clock [simp]: "clock (store_presence E d u evt s) = clock s"
  by (simp add: store_presence_def)

lemma publish_clock [simp]: "clock (g_store (publishFanout d t p g)) = clock (g_store g)"
  by (simp add: publishFanout_def)

lemma pass_more [simp]:
  "g_out (pass t g) = g_out g" "g_presenceLast (pass t g) = g_presenceLast g" "g_now (pass t g) = g_now g + t"
  "g_now g = clock (g_store g)"
  by (simp_all add: pass_def g_now_def api_clock_def api_tick_def g_store_def)

text \<open>One presence event: time stands still; it is sent on or not, and is sent on only if the last one
  of this user in this document is long enough ago.\<close>

lemma presence_step:
  assumes "so_user (sock_of sid g) = Some (u, em)"
  shows "clock (g_store (snd (onPresence E False sid p a h ty g))) = clock (g_store g)
    \<and> sock_of sid (snd (onPresence E False sid p a h ty g)) = sock_of sid g
    \<and> ((g_out (snd (onPresence E False sid p a h ty g)) = g_out g
         \<and> presence_slot (js_trim p) u (snd (onPresence E False sid p a h ty g)) = presence_slot (js_trim p) u g)
      \<or> (length (g_out (snd (onPresence E False sid p a h ty g))) = Suc (length (g_out g))
         \<and> presence_slot (js_trim p) u (snd (onPresence E False sid p a h ty g)) = Some (clock (g_store g))
         \<and> ws_presence_min_ms E \<le> clock (g_store g) - (case presence_slot (js_trim p) u g of Some t \<Rightarrow> t | None \<Rightarrow> 0)))"
  using assms
  by (auto simp: onPresence_def Let_def case_prod_beta presence_slot_def allow_entry sock_of_def
      split: option.split)

lemma presence_run_bound:
  assumes "so_user (sock_of sid g) = Some (u, em)" and "0 \<le> ws_presence_min_ms E"
    and "presence_slot (js_trim p) u g = Some t0" and "t0 \<le> clock (g_store g)"
    and "\<forall>(delay, x) \<in> set evs. 0 \<le> delay"
  shows "length (g_out g) \<le> length (g_out (presence_run E sid p evs g))
    \<and> (int (length (g_out (presence_run E sid p evs g))) - int (length (g_out g))) * ws_presence_min_ms E
      \<le> clock (g_store g) + sum_list (map fst evs) - t0"
  using assms(1,3,4,5)
proof (induction evs arbitrary: g t0)
  case (Cons ev evs)
  obtain delay a h ty where ev: "ev = (delay, a, h, ty)" by (cases ev) auto
  let ?m = "ws_presence_min_ms E"
  let ?g = "pass delay g" and ?g' = "snd (onPresence E False sid p a h ty (pass delay g))"
  let ?n = "length (g_out (presence_run E sid p evs ?g'))"
  have d: "0 \<le> delay" and nn: "\<forall>(delay, x) \<in> set evs. 0 \<le> delay" using Cons.prems(4) ev by auto
  have u: "so_user (sock_of sid ?g) = Some (u, em)" using Cons.prems(1) by simp
  have slot: "presence_slot (js_trim p) u ?g = Some t0" using Cons.prems(2) by (simp add: presence_slot_def)
  note st = presence_step [OF u, of E p a h ty]
  then have c: "clock (g_store ?g') = clock (g_store g) + delay" and u': "so_user (sock_of sid ?g') = Some (u, em)"
    using u by simp_all
  from st slot consider
      (quiet) "g_out ?g' = g_out g" "presence_slot (js_trim p) u ?g' = Some t0"
    | (sent) "length (g_out ?g') = Suc (length (g_out g))"
        "presence_slot (js_trim p) u ?g' = Some (clock (g_store ?g'))"
        "?m \<le> clock (g_store ?g') - t0"
    using c by auto
  then show ?case
  proof cases
    case quiet
    from Cons.IH [OF u' quiet(2) _ nn] quiet(1) Cons.prems(3) d c ev show ?thesis by simp
  next
    case sent
    from Cons.IH [OF u' sent(2) _ nn]
    have ih: "length (g_out ?g') \<le> ?n" "(int ?n - int (length (g_out ?g'))) * ?m \<le> sum_list (map fst evs)"
      by simp_all
    have "(int ?n - int (length (g_out g))) * ?m = (int ?n - int (length (g_out ?g'))) * ?m + ?m"
      using sent(1) by (simp add: algebra_simps)
    with ih sent c ev show ?thesis by simp
  qed
qed simp


definition demo_presence :: gateway where
  "demo_presence = demo_member\<lparr>g_presenceLast := [(''d:m'', 0)]\<rparr>"


section \<open>Section claims\<close>

lemma claim_bounds: "1 \<le> claim_from a" "claim_from a \<le> claim_to (claim_from a) b"
  "10 \<le> claim_ttl n" "claim_ttl n \<le> 600"
  by (simp_all add: claim_from_def claim_to_def claim_ttl_def)

lemma claim_keys [simp]:
  "claim_key d c \<noteq> claims_key d"
  by (simp add: claim_key_def claims_key_def tmpl_def)

text \<open>The claims a client that joins is sent.\<close>

definition claims_shown :: "string \<Rightarrow> redis \<Rightarrow> json list" where
  "claims_shown d s =
     List.map_filter (\<lambda>k. case r_get k s of Some (Js p) \<Rightarrow> Some p | _ \<Rightarrow> None) (r_smembers (claims_key d) s)"

lemma send_claims_shown:
  "send_claims sid d g = (if claims_shown d (g_store g) = [] then g
     else emit (ToSocket sid) ''section:list''
            (JObj [(''documentId'', JStr d), (''claims'', JArr (claims_shown d (g_store g)))]) g)"
  by (simp add: send_claims_def claims_shown_def Let_def)

lemma map_filter_mem: "x \<in> set xs \<Longrightarrow> f x = Some y \<Longrightarrow> y \<in> set (List.map_filter f xs)"
  by (induction xs) (auto simp: map_filter_simps split: option.split)

lemma members_entry: "m \<in> set (r_smembers k s) \<Longrightarrow> \<exists>ms e. entry s k = Some (RSet ms, e) \<and> m \<in> set ms"
  by (cases "entry s k") (auto simp: r_smembers_def split: rval.splits)

lemma stored_claim:
  assumes "0 < ttl"
  shows "entry (store_claim d c j ttl s) (claim_key d c) = Some (RText (Js j), Some (clock s + 1000 * ttl))
    \<and> (\<exists>ms. entry (store_claim d c j ttl s) (claims_key d) = Some (RSet ms, Some (clock s + 1000 * max ttl 120))
         \<and> claim_key d c \<in> set ms)"
proof -
  let ?s1 = "r_setex (claim_key d c) (Js j) ttl s"
  let ?s2 = "snd (r_sadd (claims_key d) (claim_key d c) ?s1)"
  have 1: "entry ?s2 (claim_key d c) = Some (RText (Js j), Some (clock s + 1000 * ttl))"
    using assms by (simp add: entry_other entry_self)
  have "claim_key d c \<in> set (r_smembers (claims_key d) ?s2)" by (simp add: smembers_sadd)
  then obtain ms e where 2: "entry ?s2 (claims_key d) = Some (RSet ms, e)" "claim_key d c \<in> set ms"
    using members_entry by blast
  have "0 < 1000 * max ttl 120" using assms by simp
  with 1 2 show ?thesis
    by (auto simp: store_claim_def entry_other) (simp add: r_expire_def key_simps)
qed

text \<open>a section claim is for lines \<open>from \<le> to\<close> starting at 1 and lasts between 10 seconds and 10 minutes,
  whatever numbers the client sends: until then a client that joins is shown it, after that it is gone.\<close>

theorem claim_lasts_its_time:
  assumes "so_user (sock_of sid g) = Some (u, em)" and "d \<noteq> []" and "0 \<le> t"
  shows "1 \<le> claim_from pf \<and> claim_from pf \<le> claim_to (claim_from pf) pt
    \<and> 10 \<le> claim_ttl ttl \<and> claim_ttl ttl \<le> 600
    \<and> (t < 1000 * claim_ttl ttl \<longrightarrow>
        (\<exists>j \<in> set (claims_shown d (g_store (pass t (snd (onSectionClaim c sid d pf pt ttl m g))))).
           jnum ''from'' j = claim_from pf \<and> jnum ''to'' j = claim_to (claim_from pf) pt \<and> jstr ''userId'' j = u))
    \<and> (1000 * claim_ttl ttl \<le> t \<longrightarrow>
        r_get (claim_key d c) (g_store (pass t (snd (onSectionClaim c sid d pf pt ttl m g)))) = None)"
proof -
  let ?l = "claim_ttl ttl" and ?g = "snd (onSectionClaim c sid d pf pt ttl m g)"
  define j where "j = JObj [(''claimId'', JStr c), (''documentId'', JStr d), (''from'', JNum (claim_from pf)),
    (''to'', JNum (claim_to (claim_from pf) pt)), (''userId'', JStr u), (''ts'', JNum (g_now g)), (''ttl'', JNum ?l)]"
  have s: "entry (g_store ?g) k = entry (store_claim d c j ?l (g_store g)) k"
    "clock (g_store ?g) = clock (g_store g)" for k
    using assms(1,2) by (simp_all add: onSectionClaim_def Let_def publishFanout_def j_def)
      (simp add: store_claim_def)
  have p: "0 < ?l" using claim_bounds(3) [of ttl] by linarith
  from stored_claim [OF p, of d c j "g_store g"] obtain ms where
    e: "entry (g_store ?g) (claim_key d c) = Some (RText (Js j), Some (clock (g_store g) + 1000 * ?l))"
    "entry (g_store ?g) (claims_key d) = Some (RSet ms, Some (clock (g_store g) + 1000 * max ?l 120))"
    "claim_key d c \<in> set ms"
    by (auto simp: s(1))
  have "j \<in> set (claims_shown d (tick t (g_store ?g)))" if "t < 1000 * ?l"
  proof -
    have k: "claim_key d c \<in> set (r_smembers (claims_key d) (tick t (g_store ?g)))"
      using e(2,3) that assms(3) by (simp add: r_smembers_def entry_tick s(2))
    have "r_get (claim_key d c) (tick t (g_store ?g)) = Some (Js j)"
      using e(1) that assms(3) by (simp add: r_get_def entry_tick s(2))
    then show ?thesis unfolding claims_shown_def by (intro map_filter_mem [OF k]) simp
  qed
  moreover have "r_get (claim_key d c) (tick t (g_store ?g)) = None" if "1000 * ?l \<le> t"
    using e(1) that assms(3) by (simp add: r_get_def entry_tick s(2))
  moreover have "jnum ''from'' j = claim_from pf" "jnum ''to'' j = claim_to (claim_from pf) pt" "jstr ''userId'' j = u"
    by (simp_all add: j_def jnum_def jstr_def)
  ultimately show ?thesis using claim_bounds by auto
qed

lemma claim_lasts_its_time_witness:
  "\<exists>j \<in> set (claims_shown ''d'' (g_store (pass 599999 (snd (onSectionClaim ''c1'' ''s1'' ''d'' 5 2 9999 None demo_member))))).
     jnum ''from'' j = 5 \<and> jnum ''to'' j = 5 \<and> jstr ''userId'' j = ''m''"
proof -
  have "so_user (sock_of ''s1'' demo_member) = Some (''m'', ''m@x'')"
    by (simp add: demo_member_def demo_gateway_def sock_of_def)
  then show ?thesis
    using claim_lasts_its_time [of "''s1''" demo_member "''m''" "''m@x''" "''d''" 599999 5 2 9999 "''c1''" None]
    by (simp add: claim_ttl_def claim_from_def claim_to_def)
qed

text \<open>A later claim with a shorter time shortens the time of the whole list: an earlier one that still
  lasts is not shown any more.\<close>

lemma later_claim_hides_earlier:
  assumes "c \<noteq> c'"
  shows "claims_shown d (tick 120000 (store_claim d c' j' 10 (store_claim d c j 600 s))) = []
    \<and> r_get (claim_key d c) (tick 120000 (store_claim d c' j' 10 (store_claim d c j 600 s))) = Some (Js j)"
proof -
  let ?s = "store_claim d c j 600 s" and ?s' = "store_claim d c' j' 10 (store_claim d c j 600 s)"
  have k: "claim_key d c \<noteq> claim_key d c'" using assms by (simp add: claim_key_def)
  have clk: "clock ?s = clock s" "clock ?s' = clock s" by (simp_all add: store_claim_def)
  from stored_claim [of 10 d c' j' ?s] obtain ms where
    "entry ?s' (claims_key d) = Some (RSet ms, Some (clock s + 120000))" by (auto simp: clk)
  then have "r_smembers (claims_key d) (tick 120000 ?s') = []"
    by (simp add: r_smembers_def entry_tick clk)
  then have "claims_shown d (tick 120000 ?s') = []" by (simp add: claims_shown_def map_filter_simps)
  moreover have "entry ?s' (claim_key d c) = Some (RText (Js j), Some (clock s + 600000))"
    using stored_claim [of 600 d c j s] k by (simp add: store_claim_def [of d c' j'] entry_other)
  then have "r_get (claim_key d c) (tick 120000 ?s') = Some (Js j)"
    by (simp add: r_get_def entry_tick clk)
  ultimately show ?thesis by simp
qed

text \<open>Releasing a claim of somebody else does nothing to the claim, but is acknowledged and announced to
  the room as a release.\<close>

lemma foreign_release_announced:
  assumes "so_user (sock_of sid g) = Some (u, em)" and "d \<noteq> []" and "c \<noteq> []"
    and "r_get (claim_key d c) (g_store g) = Some (Js j)" and "jstr ''userId'' j \<noteq> u"
    and "jfield ''userId'' j = Some (JStr w)"
  shows "fst (onSectionRelease sid d c m g) = Done
    \<and> r_get (claim_key d c) (g_store (snd (onSectionRelease sid d c m g))) = Some (Js j)
    \<and> (ToRoomBut (room_of d) sid, ''section:released'',
        JObj [(''claimId'', JStr c), (''documentId'', JStr d), (''by'', JStr u)])
      \<in> set (g_out (snd (onSectionRelease sid d c m g)))"
proof -
  have "release_claim u d c (g_store g) = g_store g"
    using assms(4-6) by (simp add: release_claim_def jstr_def)
  with assms(1-4) show ?thesis
    by (simp add: onSectionRelease_def Let_def publishFanout_def ack_def r_get_def)
qed

section \<open>Subscriptions\<close>

definition subs_inv :: "gateway \<Rightarrow> bool" where
  "subs_inv g \<longleftrightarrow> (\<forall>d. (channel_of d \<in> set (g_channels g)) = (map_of (g_subRefs g) d \<noteq> None))
     \<and> (\<forall>d n. map_of (g_subRefs g) d = Some n \<longrightarrow> 0 < n)"

lemma channel_inj [simp]: "channel_of d = channel_of d' \<longleftrightarrow> d = d'"
  by (simp add: channel_of_def)

lemma subs_inv_subscribe: "subs_inv g \<Longrightarrow> subs_inv (subscribeDocChannel d g)"
  by (auto simp: subs_inv_def subscribeDocChannel_def Let_def add_new_def split: option.splits if_splits)
    (metis less_imp_le)

lemma subs_inv_unsubscribe: "subs_inv g \<Longrightarrow> subs_inv (unsubscribeDocChannel d g)"
  by (auto simp: subs_inv_def unsubscribeDocChannel_def Let_def split: option.splits if_splits)

definition subs_of :: "gateway \<Rightarrow> (string \<times> int) list \<times> string list" where
  "subs_of g = (g_subRefs g, g_channels g)"

lemma subs_inv_cong: "subs_of g = subs_of g' \<Longrightarrow> subs_inv g = subs_inv g'"
  by (simp add: subs_of_def subs_inv_def)

lemma subs_of_simps [simp]:
  "subs_of (g_redis f g) = subs_of g" "subs_of (g_audit E ev ds g) = subs_of g"
  "subs_of (ack sid m st g) = subs_of g" "subs_of (emit t ev p g) = subs_of g"
  "subs_of (queueForOffline d ev p g) = subs_of g" "subs_of (publishFanout d ev p g) = subs_of g"
  "subs_of (set_sock sid k g) = subs_of g" "subs_of (drop_sock sid g) = subs_of g"
  "subs_of (enqueueUpdate d u g) = subs_of g" "subs_of (enter_room sid d g) = subs_of g"
  "subs_of (g\<lparr>g_api := a\<rparr>) = subs_of g" "subs_of (g\<lparr>g_out := out\<rparr>) = subs_of g"
  "subs_of (g\<lparr>g_batches := bs\<rparr>) = subs_of g" "subs_of (g\<lparr>g_presenceLast := l\<rparr>) = subs_of g"
  by (simp_all add: subs_of_def enqueueUpdate_def enter_room_def Let_def)

lemma subs_of_helpers [simp]:
  "subs_of (flushOfflineQueue d u sid g) = subs_of g"
  "subs_of (send_presence_list sid d g) = subs_of g"
  "subs_of (send_size_notice sid d g) = subs_of g"
  "subs_of (send_init E L sid d g) = subs_of g"
  "subs_of (send_claims sid d g) = subs_of g"
  "subs_of (count_update d b g) = subs_of g"
  "subs_of (beat n g) = subs_of g"
  "subs_of (onMessage ch j g) = subs_of g"
  "subs_of (onPing sid g) = subs_of g"
  "subs_of (pruneIdle E g) = subs_of g"
  by (auto simp: flushOfflineQueue_def send_presence_list_def send_size_notice_def send_init_def send_claims_def
      count_update_def beat_def onMessage_def onPing_def pruneIdle_def Let_def case_prod_beta
      split: prod.split option.split sum.split rtext.split)

lemma subs_of_handlers [simp]:
  "subs_of (snd (onTextMsg E sid d c m g)) = subs_of g"
  "subs_of (snd (onYSync E L sid d v g)) = subs_of g"
  "subs_of (snd (onPresence E roll sid d a h t g)) = subs_of g"
  "subs_of (snd (onMetric sid d nm g)) = subs_of g"
  "subs_of (snd (onSectionClaim c sid d a b2 x m g)) = subs_of g"
  "subs_of (snd (onSectionRelease sid d c m g)) = subs_of g"
  "subs_of (snd (onYUpdate E L sid p b m q g)) = subs_of g"
  "subs_of (flushDoc E L token d g) = subs_of g"
  by (simp_all add: onTextMsg_def onYSync_def onPresence_def onMetric_def onSectionClaim_def
      onSectionRelease_def onYUpdate_def flushDoc_def Let_def case_prod_beta split: option.split sum.split prod.split)

lemma subs_of_connection [simp]:
  "subs_of (handleConnection E V roll sid token org ad g) = subs_of g"
  "subs_of (handleDisconnect E sid g) = subs_of g"
  by (simp_all add: handleConnection_def handleDisconnect_def Let_def split: option.split)

definition sub_step :: "string \<Rightarrow> (string \<times> int) list \<times> string list \<Rightarrow> (string \<times> int) list \<times> string list" where
  "sub_step d s = subs_of (subscribeDocChannel d (demo_gateway\<lparr>g_subRefs := fst s, g_channels := snd s\<rparr>))"

definition unsub_step :: "string \<Rightarrow> (string \<times> int) list \<times> string list \<Rightarrow> (string \<times> int) list \<times> string list" where
  "unsub_step d s = subs_of (unsubscribeDocChannel d (demo_gateway\<lparr>g_subRefs := fst s, g_channels := snd s\<rparr>))"

lemma subs_of_change [simp]:
  "subs_of (subscribeDocChannel d g) = sub_step d (subs_of g)"
  "subs_of (unsubscribeDocChannel d g) = unsub_step d (subs_of g)"
  by (simp_all add: subs_of_def subscribeDocChannel_def unsubscribeDocChannel_def sub_step_def unsub_step_def Let_def)

lemma subs_of_join:
  "subs_of (snd (onJoin E L sid p g)) \<in> {subs_of g, subs_of (subscribeDocChannel (js_trim p) g)}"
  by (simp add: onJoin_def Let_def split: option.split)

lemma subs_of_leave:
  "subs_of (snd (onLeave E sid p g)) \<in> {subs_of g, subs_of (unsubscribeDocChannel (js_trim p) g)}"
  by (simp add: onLeave_def Let_def split: option.split)

lemma handle_subs:
  assumes "subs_inv g"
  shows "subs_inv (handle E L V ev g)"
proof (cases ev)
  case (Join sid p)
  then have "handle E L V ev g = snd (onJoin E L sid p g)" by simp
  then show ?thesis
    using subs_of_join [of E L sid p g] assms subs_inv_subscribe [OF assms, of "js_trim p"]
    by (metis insertE singletonD subs_inv_cong)
next
  case (Leave sid p)
  then have "handle E L V ev g = snd (onLeave E sid p g)" by simp
  then show ?thesis
    using subs_of_leave [of E sid p g] assms subs_inv_unsubscribe [OF assms, of "js_trim p"]
    by (metis insertE singletonD subs_inv_cong)
qed (use assms subs_inv_cong [of g "handle E L V ev g"] in simp_all)

text \<open>an instance listens to the channel of a document exactly while its count of joins without a leave
  is positive.\<close>

theorem channel_subscribed_iff_counted:
  assumes "gw_reach E L V g"
  shows "(channel_of d \<in> set (g_channels g)) = (\<exists>n > 0. map_of (g_subRefs g) d = Some n)"
proof -
  from assms have "subs_inv g"
  proof (induction rule: gw_invariant)
    case (start i a t p)
    then show ?case by (simp add: subs_inv_def)
  next
    case (step g ev)
    then show ?case by (intro handle_subs)
  qed
  then show ?thesis unfolding subs_inv_def by fastforce
qed

text \<open>The count is of joins and leaves, not of sockets: a connection that goes away leaves its joins in the
  count, and a connection that never joined can leave and so end the subscription of the others.\<close>

lemma disconnect_keeps_subscription:
  "g_channels (handleDisconnect E sid g) = g_channels g \<and> g_subRefs (handleDisconnect E sid g) = g_subRefs g"
  using subs_of_connection(2) [of E sid g] by (simp add: subs_of_def)

lemma outsider_ends_subscription:
  assumes "so_user (sock_of sid g) \<noteq> None" and "so_docs (sock_of sid g) = []"
    and "map_of (g_subRefs g) d = Some 1" and "js_trim p = d"
  shows "channel_of d \<notin> set (g_channels (snd (onLeave E sid p g)))"
  using assms by (auto simp: onLeave_def Let_def unsubscribeDocChannel_def)

lemma channel_subscribed_iff_counted_witness:
  "(channel_of ''d'' \<in> set (g_channels demo_joined)) = (\<exists>n > 0. map_of (g_subRefs demo_joined) ''d'' = Some n)"
  by (rule channel_subscribed_iff_counted [OF demo_joined_reach])

section \<open>What is not checked\<close>

text \<open>Synchronisation asks for a login only: whoever is connected gets the state of any document, whatever
  the permissions say.\<close>

lemma sync_needs_no_access:
  assumes "so_user (sock_of sid g) \<noteq> None" and "js_trim p = d" and "d \<noteq> []"
    and "getYState E L d (g_api g) = (Inr st, a)"
    and "y_apply L (y_empty L) (b64_decode (jstr ''update'' st)) = Some y"
  shows "fst (onYSync E L sid p [] g) = Done
    \<and> g_out (snd (onYSync E L sid p [] g)) = g_out g @ [(ToSocket sid, ''y-sync'',
        JObj [(''documentId'', JStr d), (''updateB64'', JStr (fst (maybeGzip E L (y_encode L y)))),
              (''gz'', JBool (snd (maybeGzip E L (y_encode L y)))), (''vectorB64'', JStr (jstr ''vector'' st))])]"
  using assms by (auto simp: onYSync_def Let_def case_prod_beta split: option.split)

text \<open>Joining asks for the role \<open>viewer\<close> and writing for having joined: a user who may only view the
  document changes it.\<close>

definition demo_viewer :: gateway where
  "demo_viewer = demo_member\<lparr>g_api := demo_api\<lparr>a_db := demo_db\<lparr>members := [],
     perms := [\<lparr>p_documentId = ''d'', p_userId = ''m'', p_role = ''viewer''\<rparr>]\<rparr>\<rparr>\<rparr>"

lemma viewer_writes:
  "\<not> hasDocAccess (g_db demo_viewer) ''m'' ''d'' ''editor''
   \<and> pending ''d'' (snd (onYUpdate default_env byte_lib ''s1'' ''d'' ''AQI='' (Some ''m1'') None demo_viewer)) = [[1, 2]]"
  by code_simp

end
