(* ===== verification/Provider.thy ===== *)
theory Provider
  imports Yjs MemoryCache
begin

text \<open>
  The browser's end of the collaboration: \<open>SimpleYProvider\<close> (\<open>web/src/lib/yjsProvider.ts\<close>), which keeps
  the editor's Yjs document, sends its changes over the socket or in REST batches with a backoff, and
  keeps what is unsent in \<open>localStorage\<close>. The state has the fields of the class, the clock, the local
  storage, and what went out: socket messages, broadcasts to other tabs, status reports, window events,
  timers. A method that waits for a response is two definitions, before and after it. Random values
  (message identifiers, jitter) are arguments. \<open>chg y y'\<close> is the update Yjs passes to its \<open>update\<close>
  listeners when a transaction takes the document from \<open>y\<close> to \<open>y'\<close>.
\<close>

section \<open>Base64 in the browser\<close>

definition strip_pad :: "string \<Rightarrow> string" where
  "strip_pad s =
     (let r = rev s
      in if length s mod 4 \<noteq> 0 then s
         else if starts_with r ''=='' then rev (drop 2 r)
         else if starts_with r ''='' then rev (drop 1 r)
         else s)"

text \<open>\<open>atob\<close> throws (\<open>None\<close>) on a text that is not base64.\<close>

definition fromBase64 :: "string \<Rightarrow> bytes option" where
  "fromBase64 s =
     (let t = strip_pad (filter (\<lambda>c. \<not> is_ws c) s)
      in if length t mod 4 = 1 \<or> \<not> set t \<subseteq> set b64_alphabet then None else Some (b64_decode t))"

definition toBase64 :: "bytes \<Rightarrow> string" where
  "toBase64 u8 = b64_encode u8"

section \<open>State\<close>

record pcfg =
  pc_docId :: string
  pc_batchMs :: int
  pc_maxBackoffMs :: int
  pc_ttlMs :: "int option"

record sync_status =
  ss_state :: string
  ss_pending :: nat
  ss_delayMs :: "int option"
  ss_lastSyncAt :: "int option"
  ss_offline :: bool
  ss_readOnly :: "bool option"
  ss_lastError :: "json option"

record 'y provider =
  pv_doc :: 'y
  pv_queue :: "bytes list"
  pv_timer :: bool
  pv_lastSyncAt :: "int option"
  pv_backoffMs :: int
  pv_offline :: bool
  pv_readOnly :: bool
  pv_socket :: bool
  pv_wsSeq :: int
  pv_wsConnected :: bool
  pv_wsQueue :: "(string \<times> string \<times> int) list"
  pv_failures :: nat
  pv_lastPresence :: "(int \<times> int \<times> bool) option"
  pv_lastPresenceAt :: int
  pv_now :: int
  pv_storage :: "(string \<times> json) list"
  pv_sent :: "(string \<times> json) list"
  pv_posted :: "string list"
  pv_reports :: "sync_status list"
  pv_window :: "(string \<times> json) list"
  pv_retries :: "int list"
  pv_dropped :: "string list"

definition tell :: "string \<Rightarrow> json \<Rightarrow> 'y provider \<Rightarrow> 'y provider" where
  "tell ev payload p = (if pv_socket p then p\<lparr>pv_sent := pv_sent p @ [(ev, payload)]\<rparr> else p)"

definition dispatch :: "string \<Rightarrow> json \<Rightarrow> 'y provider \<Rightarrow> 'y provider" where
  "dispatch ev detail p = p\<lparr>pv_window := pv_window p @ [(ev, detail)]\<rparr>"

definition store :: "string \<Rightarrow> json \<Rightarrow> 'y provider \<Rightarrow> 'y provider" where
  "store k j p = p\<lparr>pv_storage := map_put k j (pv_storage p)\<rparr>"

definition metaKey :: "string \<Rightarrow> string" where
  "metaKey docId = tmpl ''doc-meta:'' docId"

definition queueKey :: "string \<Rightarrow> string" where
  "queueKey docId = tmpl ''doc-queue:'' docId"

definition errorKey :: "string \<Rightarrow> string" where
  "errorKey docId = tmpl ''doc-last-error:'' docId"

definition analyticsKey :: "string \<Rightarrow> string" where
  "analyticsKey docId = tmpl ''doc-analytics:'' docId"

section \<open>Status, counters, persistence\<close>

definition loadLastError :: "pcfg \<Rightarrow> 'y provider \<Rightarrow> json option" where
  "loadLastError C p = map_of (pv_storage p) (errorKey (pc_docId C))"

definition status :: "pcfg \<Rightarrow> 'y provider \<Rightarrow> sync_status" where
  "status C p =
     (if pv_backoffMs p > 0
      then \<lparr>ss_state = ''backoff'', ss_pending = length (pv_queue p), ss_delayMs = Some (pv_backoffMs p),
            ss_lastSyncAt = None, ss_offline = pv_offline p, ss_readOnly = Some (pv_readOnly p),
            ss_lastError = loadLastError C p\<rparr>
      else \<lparr>ss_state = ''idle'', ss_pending = length (pv_queue p), ss_delayMs = None,
            ss_lastSyncAt = pv_lastSyncAt p, ss_offline = pv_offline p, ss_readOnly = Some (pv_readOnly p),
            ss_lastError = loadLastError C p\<rparr>)"

text \<open>\<open>emit(state)\<close>, with \<open>''''\<close> for no argument.\<close>

definition p_emit :: "pcfg \<Rightarrow> string \<Rightarrow> 'y provider \<Rightarrow> 'y provider" where
  "p_emit C state p =
     (let base = status C p;
          s = (if state = ''syncing'' \<or> state = ''ok''
               then \<lparr>ss_state = state, ss_pending = ss_pending base, ss_delayMs = None,
                     ss_lastSyncAt = pv_lastSyncAt p, ss_offline = ss_offline base,
                     ss_readOnly = None, ss_lastError = None\<rparr>
               else base)
      in p\<lparr>pv_reports := pv_reports p @ [s]\<rparr>)"

definition obj_put :: "string \<Rightarrow> json \<Rightarrow> json \<Rightarrow> json" where
  "obj_put k v j = (case j of JObj kvs \<Rightarrow> JObj (map_put k v kvs) | _ \<Rightarrow> JObj [(k, v)])"

definition bump_field :: "string \<Rightarrow> json \<Rightarrow> json" where
  "bump_field name obj = obj_put name (JNum (jnum name obj + 1)) obj"

definition stored_obj :: "string \<Rightarrow> 'y provider \<Rightarrow> json" where
  "stored_obj key p = (case map_of (pv_storage p) key of Some j \<Rightarrow> j | None \<Rightarrow> JObj [])"

definition bumpCounter :: "pcfg \<Rightarrow> string \<Rightarrow> 'y provider \<Rightarrow> 'y provider" where
  "bumpCounter C name p =
     (let key = analyticsKey (pc_docId C)
      in store key (obj_put ''updatedAt'' (JNum (pv_now p)) (bump_field name (stored_obj key p))) p)"

definition bumpPresence :: "pcfg \<Rightarrow> string \<Rightarrow> 'y provider \<Rightarrow> 'y provider" where
  "bumpPresence C name p =
     (let key = analyticsKey (pc_docId C) in store key (bump_field name (stored_obj key p)) p)"

definition saveMeta :: "pcfg \<Rightarrow> 'y provider \<Rightarrow> 'y provider" where
  "saveMeta C p =
     store (metaKey (pc_docId C))
       (JObj [(''lastSyncAt'', JNum (case pv_lastSyncAt p of Some t \<Rightarrow> if t \<noteq> 0 then t else pv_now p | None \<Rightarrow> pv_now p)),
              (''at'', JNum (pv_now p))]) p"

definition markSynced :: "pcfg \<Rightarrow> 'y provider \<Rightarrow> 'y provider" where
  "markSynced C p = saveMeta C (p\<lparr>pv_lastSyncAt := Some (pv_now p)\<rparr>)"

definition persistQueue :: "pcfg \<Rightarrow> 'y provider \<Rightarrow> 'y provider" where
  "persistQueue C p = store (queueKey (pc_docId C)) (JArr (map (\<lambda>u. JStr (toBase64 u)) (pv_queue p))) p"

text \<open>The loop of \<open>restoreQueue\<close> stops (throws) at the first entry that is not base64.\<close>

fun restored :: "json list \<Rightarrow> bytes list \<times> bool" where
  "restored [] = ([], True)"
| "restored (JStr b64 # js) =
     (case fromBase64 b64 of
        None \<Rightarrow> ([], False)
      | Some u \<Rightarrow> let (us, ok) = restored js in (u # us, ok))"
| "restored (JNull # js) = ([], False)"
| "restored (JBool b # js) = ([], False)"
| "restored (JNum n # js) = ([], False)"
| "restored (JArr a # js) = ([], False)"
| "restored (JObj kvs # js) = ([], False)"

definition restoreQueue :: "pcfg \<Rightarrow> 'y provider \<Rightarrow> 'y provider" where
  "restoreQueue C p =
     (case map_of (pv_storage p) (queueKey (pc_docId C)) of
        Some (JArr arr) \<Rightarrow>
          (let (us, ok) = restored arr; p1 = p\<lparr>pv_queue := pv_queue p @ us\<rparr>
           in if ok then p_emit C '''' p1 else p1)
      | _ \<Rightarrow> p)"

definition clearPersistence :: "pcfg \<Rightarrow> 'y provider \<Rightarrow> 'y provider" where
  "clearPersistence C p = p\<lparr>pv_dropped := pv_dropped p @ [tmpl ''doc-'' (pc_docId C)]\<rparr>"

definition emitError :: "pcfg \<Rightarrow> int option \<Rightarrow> string \<Rightarrow> 'y provider \<Rightarrow> 'y provider" where
  "emitError C code type p =
     (let detail = JObj ([(''docId'', JStr (pc_docId C)), (''at'', JNum (pv_now p))]
                     @ (case code of Some c \<Rightarrow> [(''code'', JNum c)] | None \<Rightarrow> []) @ [(''type'', JStr type)])
      in dispatch ''doc-sync-error'' detail (store (errorKey (pc_docId C)) detail p))"

section \<open>Sending\<close>

definition enqueue :: "pcfg \<Rightarrow> bytes \<Rightarrow> 'y provider \<Rightarrow> 'y provider" where
  "enqueue C update p =
     (let p1 = p\<lparr>pv_queue := pv_queue p @ [update]\<rparr>
      in if pv_timer p1 then p1
         else bumpCounter C ''edits'' (p_emit C '''' (persistQueue C (p1\<lparr>pv_timer := True\<rparr>))))"

definition sendYUpdate ::
  "pcfg \<Rightarrow> string \<Rightarrow> string \<Rightarrow> string option \<Rightarrow> int option \<Rightarrow> 'y provider \<Rightarrow> 'y provider" where
  "sendYUpdate C rid b64 msgId seq p =
     (let ident = (case msgId of Some m \<Rightarrow> if m \<noteq> [] then m else rid | None \<Rightarrow> rid);
          (s, p1) = (case seq of
             Some n \<Rightarrow> if n \<noteq> 0 then (n, p) else (pv_wsSeq p + 1, p\<lparr>pv_wsSeq := pv_wsSeq p + 1\<rparr>)
           | None \<Rightarrow> (pv_wsSeq p + 1, p\<lparr>pv_wsSeq := pv_wsSeq p + 1\<rparr>))
      in if \<not> pv_socket p \<or> \<not> pv_wsConnected p
         then p1\<lparr>pv_wsQueue := pv_wsQueue p1 @ [(b64, ident, s)]\<rparr>
         else tell ''y-update'' (JObj [(''documentId'', JStr (pc_docId C)), (''updateB64'', JStr b64),
                (''msgId'', JStr ident), (''seq'', JNum s)]) p1)"

text \<open>The listener of the document's \<open>update\<close> event.\<close>

definition onDocUpdate :: "pcfg \<Rightarrow> string \<Rightarrow> bytes \<Rightarrow> 'y provider \<Rightarrow> 'y provider" where
  "onDocUpdate C rid u p =
     (let p1 = (if pv_wsConnected p then sendYUpdate C rid (toBase64 u) None None p else enqueue C u p)
      in p1\<lparr>pv_posted := pv_posted p1 @ [toBase64 u]\<rparr>)"

text \<open>\<open>Y.applyUpdate(this.ydoc, u)\<close>; it throws (\<open>None\<close>) on a bad update, and calls the listener when the
  document changes.\<close>

definition applyLocal ::
  "pcfg \<Rightarrow> 'y ylib \<Rightarrow> ('y \<Rightarrow> 'y \<Rightarrow> bytes) \<Rightarrow> string \<Rightarrow> bytes \<Rightarrow> 'y provider \<Rightarrow> 'y provider option" where
  "applyLocal C L chg rid u p = (case y_apply L (pv_doc p) u of
     None \<Rightarrow> None
   | Some y \<Rightarrow> if y = pv_doc p then Some p
              else Some (onDocUpdate C rid (chg (pv_doc p) y) (p\<lparr>pv_doc := y\<rparr>)))"

section \<open>The REST path\<close>

text \<open>\<open>ra\<close> is the \<open>Retry-After\<close> header of the response as a number, if it has one.\<close>

definition next_backoff :: "pcfg \<Rightarrow> string \<Rightarrow> int option \<Rightarrow> int \<Rightarrow> int \<Rightarrow> int" where
  "next_backoff C reason ra jitter b =
     (if reason = ''rate_limit'' then (case ra of Some s \<Rightarrow> s * 1000 | None \<Rightarrow> 2000) + jitter
      else if b = 0 then 1000 + jitter
      else min (b * 2 + jitter) (pc_maxBackoffMs C))"

definition scheduleBackoff ::
  "pcfg \<Rightarrow> string \<Rightarrow> int option \<Rightarrow> int \<Rightarrow> 'y provider \<Rightarrow> 'y provider" where
  "scheduleBackoff C reason ra jitter p =
     (let b = next_backoff C reason ra jitter (pv_backoffMs p)
      in p_emit C ''backoff'' (p\<lparr>pv_backoffMs := b, pv_retries := pv_retries p @ [b]\<rparr>))"

fun apply_all :: "'y ylib \<Rightarrow> bytes list \<Rightarrow> 'y \<Rightarrow> 'y option" where
  "apply_all L [] y = Some y"
| "apply_all L (u # us) y = (case y_apply L y u of None \<Rightarrow> None | Some y1 \<Rightarrow> apply_all L us y1)"

text \<open>
  \<open>flush\<close> up to its request: the merged update it sends, if it sends one. A queued update that Yjs
  rejects makes it throw before the queue is emptied.
\<close>

definition flush_start :: "pcfg \<Rightarrow> 'y ylib \<Rightarrow> 'y provider \<Rightarrow> bytes option \<times> 'y provider" where
  "flush_start C L p =
     (let p1 = p\<lparr>pv_timer := False\<rparr>
      in if pv_queue p1 = [] then (None, p1)
         else case apply_all L (pv_queue p1) (y_empty L) of
             None \<Rightarrow> (None, p1)
           | Some temp \<Rightarrow> (Some (y_encode L temp), p_emit C ''syncing'' (p1\<lparr>pv_queue := []\<rparr>)))"

definition flush_ok :: "pcfg \<Rightarrow> 'y provider \<Rightarrow> 'y provider" where
  "flush_ok C p =
     bumpCounter C ''sync_ok''
       (p_emit C ''ok''
         (saveMeta C
           (persistQueue C (p\<lparr>pv_lastSyncAt := Some (pv_now p), pv_backoffMs := 0, pv_failures := 0\<rparr>))))"

text \<open>\<open>online\<close> is \<open>navigator.onLine\<close>, \<open>code\<close> the status of the response if there is one.\<close>

definition flush_error :: "bool \<Rightarrow> int option \<Rightarrow> string" where
  "flush_error online code =
     (if \<not> online then ''offline''
      else if code = Some 401 then ''unauthorized''
      else if code = Some 429 then ''rate_limit''
      else case code of Some c \<Rightarrow> if c \<noteq> 0 \<and> c \<ge> 500 then ''server_error'' else ''network_error''
                      | None \<Rightarrow> ''network_error'')"

definition flush_fail ::
  "pcfg \<Rightarrow> bool \<Rightarrow> int option \<Rightarrow> int option \<Rightarrow> int \<Rightarrow> bytes \<Rightarrow> 'y provider \<Rightarrow> 'y provider" where
  "flush_fail C online code ra jitter merged p =
     (let type = flush_error online code;
          p1 = enqueue C merged (p\<lparr>pv_failures := pv_failures p + 1\<rparr>);
          p2 = (if type = ''unauthorized'' then p1\<lparr>pv_readOnly := True\<rparr> else p1)
      in bumpCounter C ''sync_fail'' (emitError C code type (scheduleBackoff C type ra jitter p2)))"

section \<open>Loading and resynchronising\<close>

definition meta_lastSync :: "pcfg \<Rightarrow> 'y provider \<Rightarrow> int option" where
  "meta_lastSync C p = (case map_of (pv_storage p) (metaKey (pc_docId C)) of
     Some j \<Rightarrow> (case jfield ''lastSyncAt'' j of Some (JNum n) \<Rightarrow> Some n | _ \<Rightarrow> None)
   | None \<Rightarrow> None)"

text \<open>\<open>load\<close> before its request: a cache older than the time to live is dropped.\<close>

definition load_start :: "pcfg \<Rightarrow> 'y provider \<Rightarrow> 'y provider" where
  "load_start C p =
     (case (pc_ttlMs C, meta_lastSync C p) of
        (Some ttl, Some t) \<Rightarrow> if ttl \<noteq> 0 \<and> t \<noteq> 0 \<and> pv_now p - t > ttl then clearPersistence C p else p
      | _ \<Rightarrow> p)"

text \<open>
  The response of \<open>load\<close> and \<open>resync\<close>: \<open>fromBase64(json.update)\<close> gives \<open>atob\<close> the text \<open>undefined\<close>
  when there is no such field.
\<close>

definition state_response ::
  "pcfg \<Rightarrow> 'y ylib \<Rightarrow> ('y \<Rightarrow> 'y \<Rightarrow> bytes) \<Rightarrow> string \<Rightarrow> json option \<Rightarrow> 'y provider \<Rightarrow> 'y provider" where
  "state_response C L chg rid resp p = (case resp of
     None \<Rightarrow> p
   | Some j \<Rightarrow>
       (case fromBase64 (js_text (jfield ''update'' j)) of
          None \<Rightarrow> p
        | Some u \<Rightarrow>
            (case applyLocal C L chg rid u p of
               None \<Rightarrow> p
             | Some p1 \<Rightarrow> (markSynced C p1)\<lparr>pv_readOnly := False, pv_failures := 0\<rparr>)))"

definition setOffline :: "pcfg \<Rightarrow> bool \<Rightarrow> 'y provider \<Rightarrow> 'y provider" where
  "setOffline C v p = p_emit C '''' (p\<lparr>pv_offline := v\<rparr>)"

definition retryNow :: "pcfg \<Rightarrow> 'y ylib \<Rightarrow> 'y provider \<Rightarrow> bytes option \<times> 'y provider" where
  "retryNow C L p = flush_start C L (p\<lparr>pv_backoffMs := 0\<rparr>)"

section \<open>The socket\<close>

definition onConnect :: "pcfg \<Rightarrow> 'y provider \<Rightarrow> 'y provider" where
  "onConnect C p = tell ''doc:join'' (JObj [(''documentId'', JStr (pc_docId C))]) (p\<lparr>pv_wsConnected := True\<rparr>)"

definition onDisconnect :: "pcfg \<Rightarrow> int \<Rightarrow> 'y provider \<Rightarrow> 'y provider" where
  "onDisconnect C jitter p = scheduleBackoff C ''network_error'' None jitter (p\<lparr>pv_wsConnected := False\<rparr>)"

definition onJoined :: "pcfg \<Rightarrow> string \<Rightarrow> 'y provider \<Rightarrow> 'y provider" where
  "onJoined C rid p =
     fold (\<lambda>(b64, msgId, s). sendYUpdate C rid b64 (Some msgId) (Some s)) (pv_wsQueue p) (p\<lparr>pv_wsQueue := []\<rparr>)"

text \<open>\<open>y-init\<close> and \<open>y-update\<close>.\<close>

definition onRemote ::
  "pcfg \<Rightarrow> 'y ylib \<Rightarrow> ('y \<Rightarrow> 'y \<Rightarrow> bytes) \<Rightarrow> string \<Rightarrow> json \<Rightarrow> 'y provider \<Rightarrow> 'y provider" where
  "onRemote C L chg rid msg p =
     (case fromBase64 (js_text (jfield ''updateB64'' msg)) of
        None \<Rightarrow> p
      | Some buf \<Rightarrow>
          (case (if truthy (jfield ''gz'' msg) then gunzip L buf else Some buf) of
             None \<Rightarrow> p
           | Some raw \<Rightarrow>
               (case applyLocal C L chg rid raw p of None \<Rightarrow> p | Some p1 \<Rightarrow> markSynced C p1)))"

text \<open>The broadcast channel of the browser's tabs.\<close>

definition onBroadcast ::
  "pcfg \<Rightarrow> 'y ylib \<Rightarrow> ('y \<Rightarrow> 'y \<Rightarrow> bytes) \<Rightarrow> string \<Rightarrow> string \<Rightarrow> 'y provider \<Rightarrow> 'y provider" where
  "onBroadcast C L chg rid b64 p = (case fromBase64 b64 of
     None \<Rightarrow> p | Some u \<Rightarrow> (case applyLocal C L chg rid u p of None \<Rightarrow> p | Some p1 \<Rightarrow> p1))"

text \<open>The other socket events become window events of the page.\<close>

definition relay_name :: "string \<Rightarrow> string option" where
  "relay_name ev = map_of
     [(''presence'', ''doc-presence''), (''presence:list'', ''doc-presence-list''), (''notify'', ''notify''),
      (''section:claimed'', ''doc-section-claimed''), (''section:released'', ''doc-section-released''),
      (''section:list'', ''doc-section-list''), (''comment:created'', ''comment-event''),
      (''comment:updated'', ''comment-event''), (''comment:deleted'', ''comment-event''),
      (''comment:resolved'', ''comment-event'')] ev"

definition or_json :: "json option \<Rightarrow> json \<Rightarrow> json" where
  "or_json x d = (if truthy x then the x else d)"

definition relay_detail :: "pcfg \<Rightarrow> string \<Rightarrow> json \<Rightarrow> json" where
  "relay_detail C ev m =
     (let docId = (''docId'', JStr (pc_docId C)) in
      if ev = ''presence'' then JObj [docId, (''presence'', m)]
      else if ev = ''presence:list'' then JObj [docId, (''presenceList'', or_json (jfield ''list'' m) m)]
      else if ev = ''notify'' then m
      else if ev = ''section:claimed'' then JObj [docId, (''claim'', m)]
      else if ev = ''section:released'' then JObj [docId, (''release'', m)]
      else if ev = ''section:list'' then JObj [docId, (''claims'', or_json (jfield ''claims'' m) (JArr []))]
      else JObj [docId, (''type'', JStr (drop 8 ev)), (''payload'', m)])"

definition onRelay :: "pcfg \<Rightarrow> string \<Rightarrow> json \<Rightarrow> 'y provider \<Rightarrow> 'y provider" where
  "onRelay C ev m p = (case relay_name ev of
     None \<Rightarrow> p | Some name \<Rightarrow> dispatch name (relay_detail C ev m) p)"

section \<open>Presence and sections\<close>

definition presence_due :: "int \<Rightarrow> int \<Rightarrow> bool \<Rightarrow> 'y provider \<Rightarrow> bool" where
  "presence_due anchor head typing p = (case pv_lastPresence p of
     None \<Rightarrow> True
   | Some (a, h, t) \<Rightarrow>
       let typingChanged = (typing \<noteq> t);
           movedEnough = \<bar>toInt32 anchor - toInt32 a\<bar> + \<bar>toInt32 head - toInt32 h\<bar> \<ge> 3;
           timeOk = pv_now p - pv_lastPresenceAt p \<ge> 120
       in \<not> (\<not> typingChanged \<and> \<not> movedEnough \<and> \<not> timeOk)
          \<and> (\<not> timeOk \<and> typingChanged \<or> \<not> (\<not> timeOk \<and> \<not> movedEnough)))"

definition sendPresence :: "pcfg \<Rightarrow> int \<Rightarrow> int \<Rightarrow> bool \<Rightarrow> 'y provider \<Rightarrow> 'y provider" where
  "sendPresence C anchor head typing p =
     (if \<not> presence_due anchor head typing p then p
      else bumpPresence C ''presence_sent''
        (tell ''presence'' (JObj [(''documentId'', JStr (pc_docId C)), (''anchor'', JNum (toInt32 anchor)),
             (''head'', JNum (toInt32 head)), (''typing'', JBool typing)])
          (p\<lparr>pv_lastPresence := Some (toInt32 anchor, toInt32 head, typing), pv_lastPresenceAt := pv_now p\<rparr>)))"

definition sendMetric :: "pcfg \<Rightarrow> string \<Rightarrow> 'y provider \<Rightarrow> 'y provider" where
  "sendMetric C name p = tell ''doc:metric'' (JObj [(''documentId'', JStr (pc_docId C)), (''name'', JStr name)]) p"

definition claimSection :: "pcfg \<Rightarrow> int \<Rightarrow> int \<Rightarrow> int \<Rightarrow> 'y provider \<Rightarrow> 'y provider" where
  "claimSection C from1 to1 ttlSec p =
     tell ''section:claim'' (JObj [(''documentId'', JStr (pc_docId C)), (''from'', JNum (toInt32 from1)),
       (''to'', JNum (toInt32 to1)), (''ttlSec'', JNum ttlSec)]) p"

definition releaseSection :: "pcfg \<Rightarrow> string \<Rightarrow> 'y provider \<Rightarrow> 'y provider" where
  "releaseSection C claimId p =
     tell ''section:release'' (JObj [(''documentId'', JStr (pc_docId C)), (''claimId'', JStr claimId)]) p"

section \<open>Cleaning up old caches\<close>

text \<open>A document's entry: its identifier and when it was last synchronised.\<close>

definition meta_last :: "json \<Rightarrow> int" where
  "meta_last v = (if jnum ''lastSyncAt'' v \<noteq> 0 then jnum ''lastSyncAt'' v else jnum ''at'' v)"

definition cached_metas :: "(string \<times> json) list \<Rightarrow> (string \<times> int) list" where
  "cached_metas st =
     map (\<lambda>(k, v). (drop (length ''doc-meta:'') k, meta_last v)) (filter (\<lambda>(k, v). starts_with k ''doc-meta:'') st)"

definition stale_caches :: "nat \<Rightarrow> int \<Rightarrow> int \<Rightarrow> (string \<times> json) list \<Rightarrow> string list" where
  "stale_caches mx older now st =
     (let metas = sort_key (\<lambda>m. - snd m) (cached_metas st)
      in map (\<lambda>i. fst (metas ! i))
           (filter (\<lambda>i. i \<ge> mx \<or> now - snd (metas ! i) > older) [0..<length metas]))"

definition cleanupLocalDocCaches ::
  "nat \<Rightarrow> int \<Rightarrow> int \<Rightarrow> (string \<times> json) list \<times> string list \<Rightarrow> (string \<times> json) list \<times> string list" where
  "cleanupLocalDocCaches mx older now s =
     fold (\<lambda>i (st, dropped). (map_del (queueKey i) (map_del (metaKey i) st), dropped @ [tmpl ''doc-'' i]))
       (stale_caches mx older now (fst s)) s"

section \<open>Construction\<close>

definition fresh_provider :: "'y ylib \<Rightarrow> int \<Rightarrow> (string \<times> json) list \<Rightarrow> 'y provider" where
  "fresh_provider L now st = \<lparr>pv_doc = y_empty L, pv_queue = [], pv_timer = False, pv_lastSyncAt = None,
     pv_backoffMs = 0, pv_offline = False, pv_readOnly = False, pv_socket = False, pv_wsSeq = 0,
     pv_wsConnected = False, pv_wsQueue = [], pv_failures = 0, pv_lastPresence = None,
     pv_lastPresenceAt = 0, pv_now = now, pv_storage = st, pv_sent = [], pv_posted = [], pv_reports = [],
     pv_window = [], pv_retries = [], pv_dropped = []\<rparr>"

text \<open>The constructor, in a browser.\<close>

definition construct :: "pcfg \<Rightarrow> 'y ylib \<Rightarrow> bool \<Rightarrow> int \<Rightarrow> (string \<times> json) list \<Rightarrow> 'y provider" where
  "construct C L online now st =
     (restoreQueue C (fresh_provider L now st))\<lparr>pv_offline := \<not> online, pv_socket := True\<rparr>"

section \<open>What the queue survives\<close>

lemma alphabet_not_ws: "c \<in> set b64_alphabet \<Longrightarrow> \<not> is_ws c \<and> c \<noteq> CHR ''=''"
  by (auto simp: b64_alphabet_def is_ws_def)

lemma sextets_length:
  "length (sextets xs) = 4 * (length xs div 3) + (if length xs mod 3 = 0 then 0 else length xs mod 3 + 1)"
proof (induction xs rule: sextets.induct)
  case (4 a b c r)
  have l: "length (a # b # c # r) = length r + 3" by simp
  have "(length r + 3) div 3 = length r div 3 + 1" "(length r + 3) mod 3 = length r mod 3" by simp_all
  with 4 show ?case unfolding l by simp
qed simp_all

lemma encoded_shape:
  obtains body pad where "b64_encode bs = body @ pad" "set body \<subseteq> set b64_alphabet"
    "pad \<in> {[], ''='', ''==''}" "(length body + length pad) mod 4 = 0" "length body mod 4 \<noteq> 1"
proof -
  let ?xs = "map unat bs" and ?n = "length bs"
  let ?body = "map b64_char (sextets ?xs)" and ?pad = "replicate (pad_len ?n) (CHR ''='')"
  have "\<forall>a \<in> set ?xs. a < 256" using byte_bound by blast
  then have b: "\<forall>s \<in> set (sextets ?xs). s < 64" by (rule sextets_bound)
  have "length b64_alphabet = 64" by (simp add: b64_alphabet_def)
  with b have body: "set ?body \<subseteq> set b64_alphabet" by (auto simp: b64_char_def)
  have l: "length ?body = 4 * (?n div 3) + (if ?n mod 3 = 0 then 0 else ?n mod 3 + 1)"
    using sextets_length [of ?xs] by simp
  consider "?n mod 3 = 0" | "?n mod 3 = 1" | "?n mod 3 = 2" by linarith
  then have "?pad \<in> {[], ''='', ''==''} \<and> (length ?body + length ?pad) mod 4 = 0 \<and> length ?body mod 4 \<noteq> 1"
  proof cases
    case 1
    then show ?thesis using l by (simp add: pad_len_def)
  next
    case 2
    then have "pad_len ?n = 2" "length ?body = 4 * (?n div 3) + 2" using l by (simp_all add: pad_len_def)
    moreover have "(4 * k + 2) mod 4 = 2" for k :: nat by presburger
    ultimately show ?thesis by (simp add: numeral_2_eq_2)
  next
    case 3
    then have "pad_len ?n = 1" "length ?body = 4 * (?n div 3) + 3" using l by (simp_all add: pad_len_def)
    then show ?thesis by (simp add: mod_simps)
  qed
  with that [of ?body ?pad] body show ?thesis by (simp add: b64_encode_def)
qed

text \<open>The browser reads back what it encoded.\<close>

lemma fromBase64_toBase64 [simp]: "fromBase64 (toBase64 bs) = Some bs"
proof -
  obtain body pad where s: "b64_encode bs = body @ pad" "set body \<subseteq> set b64_alphabet"
    "pad \<in> {[], ''='', ''==''}" "(length body + length pad) mod 4 = 0" "length body mod 4 \<noteq> 1"
    by (rule encoded_shape)
  have body: "\<not> is_ws c \<and> c \<noteq> CHR ''=''" if "c \<in> set body" for c
    using that s(2) alphabet_not_ws by blast
  have "c = CHR ''=''" if "c \<in> set pad" for c using that s(3) by auto
  moreover have "\<not> is_ws (CHR ''='')" by (simp add: is_ws_def)
  ultimately have f: "filter (\<lambda>c. \<not> is_ws c) (body @ pad) = body @ pad"
    using body by (intro filter_True) (metis Un_iff set_append)
  have last: "\<not> starts_with (rev body) (CHR ''='' # x)" for x
  proof (cases "rev body")
    case (Cons c r)
    then have "c \<in> set body" by (metis list.set_intros(1) set_rev)
    with body Cons show ?thesis by simp
  qed simp
  have strip: "strip_pad (body @ pad) = body"
    using s(3,4) last by (elim insertE) (simp_all add: strip_pad_def Let_def)
  have t: "takeWhile (\<lambda>c. c \<noteq> CHR ''='') body = body"
    using body by (simp add: takeWhile_eq_all_conv)
  have tp: "takeWhile (\<lambda>c. c \<noteq> CHR ''='') (body @ pad) = body"
    using body s(3) by (subst takeWhile_append2) auto
  have "b64_decode body = b64_decode (b64_encode bs)" by (simp only: b64_decode_def s(1) t tp)
  then have d: "b64_decode body = bs" by simp
  show ?thesis unfolding fromBase64_def toBase64_def s(1) f strip Let_def using s(2,5) d by simp
qed

lemma restored_encoded [simp]: "restored (map (\<lambda>u. JStr (toBase64 u)) us) = (us, True)"
  by (induction us) simp_all

lemma storage_frame [simp]:
  "pv_storage (p_emit C st p) = pv_storage p" "pv_queue (p_emit C st p) = pv_queue p"
  "pv_queue (store k j p) = pv_queue p" "pv_storage (store k j p) = map_put k j (pv_storage p)"
  "pv_queue (bumpCounter C n p) = pv_queue p" "pv_queue (persistQueue C p) = pv_queue p"
  "pv_queue (saveMeta C p) = pv_queue p" "pv_queue (emitError C code t p) = pv_queue p"
  "pv_queue (scheduleBackoff C r ra jit p) = pv_queue p" "pv_queue (dispatch ev d p) = pv_queue p"
  "pv_wsConnected (p_emit C st p) = pv_wsConnected p" "pv_wsConnected (store k j p) = pv_wsConnected p"
  "pv_wsConnected (bumpCounter C n p) = pv_wsConnected p" "pv_wsConnected (persistQueue C p) = pv_wsConnected p"
  "pv_wsConnected (saveMeta C p) = pv_wsConnected p" "pv_wsConnected (emitError C code t p) = pv_wsConnected p"
  "pv_wsConnected (scheduleBackoff C r ra jit p) = pv_wsConnected p" "pv_wsConnected (dispatch ev d p) = pv_wsConnected p"
  by (simp_all add: p_emit_def store_def bumpCounter_def persistQueue_def saveMeta_def emitError_def
      scheduleBackoff_def dispatch_def Let_def)

lemma enqueue_queue [simp]:
  "pv_queue (enqueue C u p) = pv_queue p @ [u]" "pv_wsConnected (enqueue C u p) = pv_wsConnected p"
  by (simp_all add: enqueue_def Let_def)

text \<open>what a page leaves in \<open>localStorage\<close> with \<open>persistQueue\<close> is the queue of the provider that is
  constructed on it next.\<close>

theorem queue_survives_reload:
  "pv_queue (construct C L online now (pv_storage (persistQueue C p))) = pv_queue p"
  by (simp add: construct_def restoreQueue_def fresh_provider_def persistQueue_def)

text \<open>But only the first update of a batch is saved: while the timer runs, \<open>enqueue\<close> returns before it saves
  the queue, so a page closed within the batch interval loses the later ones.\<close>

lemma later_edit_not_saved:
  assumes "pv_timer p"
  shows "pv_storage (enqueue C u p) = pv_storage p"
  using assms by (simp add: enqueue_def Let_def)

section \<open>No edit is lost on the way\<close>

text \<open>
  The REST path as a transition system: the provider, the bodies whose response has not come, those
  the server acknowledged, and the edits of the user so far. Edits, flushes, their responses in any
  order, time and the other events of a page that is not connected to the socket interleave.
\<close>

record 'y rest =
  rs_p :: "'y provider"
  rs_flight :: "bytes list"
  rs_done :: "bytes list"
  rs_edits :: "bytes list"

inductive rest_step :: "pcfg \<Rightarrow> 'y ylib \<Rightarrow> 'y rest \<Rightarrow> 'y rest \<Rightarrow> bool" for C L where
  edit: "y_apply L (pv_doc (rs_p r)) u = Some y \<Longrightarrow>
    rest_step C L r (r\<lparr>rs_p := onDocUpdate C rid u ((rs_p r)\<lparr>pv_doc := y\<rparr>), rs_edits := rs_edits r @ [u]\<rparr>)"
| flush: "flush_start C L (rs_p r) = (b, p) \<Longrightarrow>
    rest_step C L r (r\<lparr>rs_p := p, rs_flight := rs_flight r @ (case b of Some m \<Rightarrow> [m] | None \<Rightarrow> [])\<rparr>)"
| answered: "rs_flight r = f1 @ m # f2 \<Longrightarrow>
    rest_step C L r (r\<lparr>rs_p := flush_ok C (rs_p r), rs_flight := f1 @ f2, rs_done := rs_done r @ [m]\<rparr>)"
| failed: "rs_flight r = f1 @ m # f2 \<Longrightarrow>
    rest_step C L r (r\<lparr>rs_p := flush_fail C online code ra jitter m (rs_p r), rs_flight := f1 @ f2\<rparr>)"
| network: "rest_step C L r (r\<lparr>rs_p := setOffline C v (rs_p r)\<rparr>)"
| reset: "rest_step C L r (r\<lparr>rs_p := (rs_p r)\<lparr>pv_backoffMs := 0\<rparr>\<rparr>)"
| time: "rest_step C L r (r\<lparr>rs_p := (rs_p r)\<lparr>pv_now := pv_now (rs_p r) + d\<rparr>\<rparr>)"

inductive rest_reach :: "pcfg \<Rightarrow> 'y ylib \<Rightarrow> 'y rest \<Rightarrow> bool" for C L where
  start: "pv_queue p = [] \<Longrightarrow> \<not> pv_wsConnected p \<Longrightarrow>
    rest_reach C L \<lparr>rs_p = p, rs_flight = [], rs_done = [], rs_edits = []\<rparr>"
| more: "rest_reach C L r \<Longrightarrow> rest_step C L r r' \<Longrightarrow> rest_reach C L r'"

lemma joined_apply_all:
  assumes "yjs_laws L join dec" and "apply_all L us y = Some z"
  shows "z = joined join dec us y \<and> (\<forall>u \<in> set us. dec u \<noteq> None)"
  using assms(2)
proof (induction us arbitrary: y)
  case (Cons u us)
  then show ?case by (cases "dec u") (auto simp: yjs_apply [OF assms(1)] split: option.splits)
qed simp

text \<open>Where the edits are: acknowledged, on the way or in the queue.\<close>

definition rest_inv :: "('y \<Rightarrow> 'y \<Rightarrow> 'y) \<Rightarrow> (bytes \<Rightarrow> 'y option) \<Rightarrow> 'y ylib \<Rightarrow> 'y rest \<Rightarrow> bool" where
  "rest_inv join dec L r \<longleftrightarrow> \<not> pv_wsConnected (rs_p r)
     \<and> joined join dec (rs_done r @ rs_flight r @ pv_queue (rs_p r)) (y_empty L) = joined join dec (rs_edits r) (y_empty L)"

lemma joined_perm:
  assumes "yjs_laws L join dec" and "set us = set vs"
    and "joined join dec vs y = z"
  shows "joined join dec us y = z"
  using joined_set [OF assms(1,2)] assms(3) by simp

lemma joined_snoc:
  "joined join dec us y = joined join dec vs z \<Longrightarrow> joined join dec (us @ [u]) y = joined join dec (vs @ [u]) z"
  by simp

lemma flush_start_cases:
  assumes "yjs_laws L join dec" and "flush_start C L p = (b, p')"
  shows "pv_wsConnected p' = pv_wsConnected p
    \<and> (case b of None \<Rightarrow> pv_queue p' = pv_queue p
       | Some m \<Rightarrow> pv_queue p' = [] \<and> dec m = Some (joined join dec (pv_queue p) (y_empty L)))"
  using assms(2) joined_apply_all [OF assms(1), of "pv_queue p" "y_empty L"]
  by (auto simp: flush_start_def Let_def yjs_dec_encode [OF assms(1)] split: if_splits option.splits)

lemma rest_step_inv:
  assumes y: "yjs_laws L join dec" and s: "rest_step C L r r'" and i: "rest_inv join dec L r"
  shows "rest_inv join dec L r'"
  using s
proof cases
  case (edit u y rid)
  have "joined join dec (rs_done r @ rs_flight r @ pv_queue (rs_p r) @ [u]) (y_empty L) =
      joined join dec (rs_edits r @ [u]) (y_empty L)"
    using joined_snoc [of join dec "rs_done r @ rs_flight r @ pv_queue (rs_p r)"] i by (simp add: rest_inv_def)
  then show ?thesis using i edit by (simp add: rest_inv_def onDocUpdate_def Let_def)
next
  case (flush b p)
  note c = flush_start_cases [OF y flush(2)]
  show ?thesis
  proof (cases b)
    case None
    with c flush i show ?thesis by (simp add: rest_inv_def)
  next
    case (Some m)
    let ?z = "joined join dec (rs_done r @ rs_flight r) (y_empty L)"
    from Some c have m: "dec m = Some (joined join dec (pv_queue (rs_p r)) (y_empty L))" "pv_queue p = []" by simp_all
    have "join ?z (joined join dec (pv_queue (rs_p r)) (y_empty L)) = joined join dec (pv_queue (rs_p r)) ?z"
      using joined_join [OF y, of "pv_queue (rs_p r)" "y_empty L" ?z] yjs_ac [OF y] by metis
    with m c flush i Some show ?thesis by (simp add: rest_inv_def)
  qed

next
  case (answered f1 m f2)
  have "joined join dec (rs_done r @ (f1 @ m # f2) @ pv_queue (rs_p r)) (y_empty L) =
      joined join dec (rs_edits r) (y_empty L)"
    using i answered(2) by (simp add: rest_inv_def)
  from joined_perm [OF y _ this, of "(rs_done r @ [m]) @ (f1 @ f2) @ pv_queue (rs_p r)"]
  show ?thesis using i answered by (auto simp: rest_inv_def flush_ok_def)
next
  case (failed f1 m f2 online code ra jitter)
  have "joined join dec (rs_done r @ (f1 @ m # f2) @ pv_queue (rs_p r)) (y_empty L) =
      joined join dec (rs_edits r) (y_empty L)"
    using i failed(2) by (simp add: rest_inv_def)
  from joined_perm [OF y _ this, of "rs_done r @ (f1 @ f2) @ pv_queue (rs_p r) @ [m]"]
  show ?thesis using i failed by (auto simp: rest_inv_def flush_fail_def Let_def)
qed (use i in \<open>simp_all add: rest_inv_def setOffline_def\<close>)

lemma rest_reach_inv:
  assumes "yjs_laws L join dec" and "rest_reach C L r"
  shows "rest_inv join dec L r"
  using assms(2)
proof induction
  case (start p)
  then show ?case by (simp add: rest_inv_def)
next
  case (more r r')
  then show ?case using rest_step_inv [OF assms(1)] by blast
qed

text \<open>C6: over any interleaving of edits, flushes, answers, failures and time, what the server has
  acknowledged together with what is on the way and what is queued is, as a document, exactly the
  edits of the user: nothing is lost or added; once nothing is queued or on the way the server has
  acknowledged them all.\<close>

theorem rest_path_keeps_edits:
  assumes "yjs_laws L join dec" and "rest_reach C L r"
  shows "joined join dec (rs_done r @ rs_flight r @ pv_queue (rs_p r)) (y_empty L) = joined join dec (rs_edits r) (y_empty L)
    \<and> (rs_flight r = [] \<longrightarrow> pv_queue (rs_p r) = [] \<longrightarrow>
        joined join dec (rs_done r) (y_empty L) = joined join dec (rs_edits r) (y_empty L))"
  using rest_reach_inv [OF assms] unfolding rest_inv_def by auto

definition demo_pcfg :: pcfg where
  "demo_pcfg = \<lparr>pc_docId = ''d'', pc_batchMs = 500, pc_maxBackoffMs = 30000, pc_ttlMs = None\<rparr>"

definition demo_rest :: "8 word set rest" where
  "demo_rest = \<lparr>rs_p = fresh_provider byte_lib 0 [], rs_flight = [], rs_done = [], rs_edits = []\<rparr>"

definition demo_rest_edited :: "8 word set rest" where
  "demo_rest_edited = demo_rest\<lparr>rs_p := onDocUpdate demo_pcfg ''r'' [1, 2] ((rs_p demo_rest)\<lparr>pv_doc := {1, 2}\<rparr>),
     rs_edits := [[1, 2]]\<rparr>"

lemma demo_rest_reach: "rest_reach demo_pcfg byte_lib demo_rest_edited"
proof -
  have "rest_reach demo_pcfg byte_lib demo_rest"
    unfolding demo_rest_def by (rule rest_reach.start) (simp_all add: fresh_provider_def)
  moreover have "rest_step demo_pcfg byte_lib demo_rest demo_rest_edited"
    using rest_step.edit [of byte_lib demo_rest "[1, 2]" "{1, 2}" demo_pcfg "''r''"]
    by (simp add: demo_rest_edited_def demo_rest_def fresh_provider_def byte_lib_def)
  ultimately show ?thesis by (rule rest_reach.more)
qed

lemma rest_path_keeps_edits_witness:
  "joined (\<union>) (\<lambda>u. Some (set u)) (pv_queue (rs_p demo_rest_edited)) {} = {1, 2}"
  using rest_path_keeps_edits [OF byte_lib_laws(1) demo_rest_reach]
  by (simp add: demo_rest_edited_def demo_rest_def byte_lib_def)

section \<open>Backoff\<close>

text \<open>The delays after failures that are not rate limits, with the jitters of each.\<close>

definition backoff_after :: "pcfg \<Rightarrow> int list \<Rightarrow> int" where
  "backoff_after C jitters = fold (\<lambda>j b. next_backoff C ''network_error'' None j b) jitters 0"

lemma backoff_snoc:
  "backoff_after C (js @ [j]) = next_backoff C ''network_error'' None j (backoff_after C js)"
  by (simp add: backoff_after_def)

text \<open>the delays grow: after \<open>n + 1\<close> failures in a row the delay is at least \<open>1000 * 2 ^ n\<close> ms or the
  maximum, and it never exceeds the maximum.\<close>

theorem backoff_grows_to_maximum:
  assumes "\<forall>j \<in> set js. 0 \<le> j \<and> j < 300" and "1300 \<le> pc_maxBackoffMs C" and "js \<noteq> []"
  shows "min (1000 * 2 ^ (length js - 1)) (pc_maxBackoffMs C) \<le> backoff_after C js
    \<and> backoff_after C js \<le> pc_maxBackoffMs C"
  using assms(1,3)
proof (induction js rule: rev_induct)
  case (snoc j js)
  show ?case
  proof (cases "js = []")
    case True
    with snoc.prems assms(2) show ?thesis by (simp add: backoff_after_def next_backoff_def)
  next
    case False
    let ?m = "pc_maxBackoffMs C" and ?b = "backoff_after C js"
    have ih: "min (1000 * 2 ^ (length js - 1)) ?m \<le> ?b" "?b \<le> ?m" using snoc False by simp_all
    have p: "(1000 :: int) * 2 ^ length js = 2 * (1000 * 2 ^ (length js - 1))"
      using False by (cases js) simp_all
    have pos: "(1000 :: int) \<le> 1000 * 2 ^ (length js - 1)" by simp
    with ih(1) assms(2) have b: "1000 \<le> ?b" by linarith
    have s: "backoff_after C (js @ [j]) = min (?b * 2 + j) ?m"
      using b by (simp add: backoff_snoc next_backoff_def)
    have "0 \<le> j" using snoc.prems by simp
    then have "min (1000 * 2 ^ length js) ?m \<le> min (?b * 2 + j) ?m"
      using ih(1) p b by linarith
    with s show ?thesis by simp
  qed
qed simp

lemma backoff_grows_to_maximum_witness:
  "4000 \<le> backoff_after demo_pcfg [10, 20, 30] \<and> backoff_after demo_pcfg [10, 20, 30] \<le> 30000"
  using backoff_grows_to_maximum [of "[10, 20, 30]" demo_pcfg] by (simp add: demo_pcfg_def)

section \<open>Old caches\<close>

lemma stale_caches_kept:
  assumes "i \<in> fst ` set (cached_metas st)" and "i \<notin> set (stale_caches mx older now st)"
  shows "\<exists>t. (i, t) \<in> set (cached_metas st) \<and> now - t \<le> older
    \<and> length (filter (\<lambda>m. snd m > t) (cached_metas st)) < mx"
proof -
  let ?ms = "sort_key (\<lambda>m. - snd m) (cached_metas st)"
  from assms(1) obtain m where "m \<in> set ?ms" "fst m = i" by auto
  then obtain k where k: "k < length ?ms" "fst (?ms ! k) = i" by (metis in_set_conv_nth)
  from assms(2) k have "\<not> (k \<ge> mx \<or> now - snd (?ms ! k) > older)"
    by (auto simp: stale_caches_def Let_def)
  then have k': "k < mx" "now - snd (?ms ! k) \<le> older" by auto
  let ?t = "snd (?ms ! k)"
  have "sorted (map (\<lambda>m. - snd m) ?ms)" by simp
  then have le: "- snd (?ms ! k) \<le> - snd (?ms ! l)" if "k \<le> l" "l < length ?ms" for l
    using that k(1) by (auto simp: sorted_iff_nth_mono)
  have "\<not> snd m > ?t" if "m \<in> set (drop k ?ms)" for m
  proof -
    from that obtain l where "l < length (drop k ?ms)" "drop k ?ms ! l = m" by (metis in_set_conv_nth)
    then have "m = ?ms ! (k + l)" "k + l < length ?ms" by simp_all
    with le [of "k + l"] show ?thesis by simp
  qed
  then have nil: "filter (\<lambda>m. snd m > ?t) (drop k ?ms) = []" by (simp add: filter_empty_conv)
  have "filter (\<lambda>m. snd m > ?t) ?ms = filter (\<lambda>m. snd m > ?t) (take k ?ms @ drop k ?ms)"
    by (simp only: append_take_drop_id)
  also have "\<dots> = filter (\<lambda>m. snd m > ?t) (take k ?ms)"
    by (simp only: filter_append nil append_Nil2)
  finally have "filter (\<lambda>m. snd m > ?t) ?ms = filter (\<lambda>m. snd m > ?t) (take k ?ms)" .
  then have "length (filter (\<lambda>m. snd m > ?t) ?ms) \<le> k"
    using length_filter_le [of "\<lambda>m. snd m > ?t" "take k ?ms"] by simp
  moreover have "length (filter (\<lambda>m. snd m > ?t) ?ms) = length (filter (\<lambda>m. snd m > ?t) (cached_metas st))"
    by (simp add: filter_sort)
  ultimately have "length (filter (\<lambda>m. snd m > ?t) (cached_metas st)) < mx" using k'(1) by simp
  moreover have "(i, ?t) \<in> set (cached_metas st)"
    using nth_mem [OF k(1)] k(2) by (metis prod.collapse set_sort)
  ultimately show ?thesis using k'(2) by blast
qed

lemma cleanup_storage:
  "map_of (fst (fold (\<lambda>i (st, dropped). (map_del (queueKey i) (map_del (metaKey i) st), dropped @ [tmpl ''doc-'' i])) is (st, dr))) k =
     (if k \<in> metaKey ` set is \<union> queueKey ` set is then None else map_of st k)"
  by (induction "is" arbitrary: st dr) auto

lemma meta_keys [simp]: "metaKey i \<noteq> queueKey j" "queueKey j \<noteq> metaKey i"
  "metaKey i = metaKey j \<longleftrightarrow> i = j" "queueKey i = queueKey j \<longleftrightarrow> i = j"
  by (simp_all add: metaKey_def queueKey_def)

text \<open>cleaning up keeps the entry of a cached document only if it was synchronised within the limit of age
  and fewer than the allowed number of documents are newer; the unsent queue of a document goes
  exactly when its entry goes.\<close>

theorem cleanup_keeps_newest:
  assumes "map_of st (metaKey i) = Some v"
  shows "(map_of (fst (cleanupLocalDocCaches mx older now (st, dropped))) (metaKey i) \<noteq> None \<longrightarrow>
      (\<exists>t. (i, t) \<in> set (cached_metas st) \<and> now - t \<le> older
        \<and> length (filter (\<lambda>m. snd m > t) (cached_metas st)) < mx))
    \<and> map_of (fst (cleanupLocalDocCaches mx older now (st, dropped))) (queueKey i) =
        (if map_of (fst (cleanupLocalDocCaches mx older now (st, dropped))) (metaKey i) = None then None
         else map_of st (queueKey i))"
proof -
  have "i \<in> fst ` set (cached_metas st)"
    using map_of_SomeD [OF assms] by (force simp: cached_metas_def metaKey_def tmpl_def image_iff)
  with stale_caches_kept [of i st mx older now] assms show ?thesis
    by (auto simp: cleanupLocalDocCaches_def cleanup_storage)
qed

lemma cleanup_keeps_newest_witness:
  "map_of (fst (cleanupLocalDocCaches 1 100 50 ([(metaKey ''a'', JObj [(''lastSyncAt'', JNum 10)])], []))) (queueKey ''a'') = None"
  using cleanup_keeps_newest [of "[(metaKey ''a'', JObj [(''lastSyncAt'', JNum 10)])]" "''a''" _ 1 100 50 "[]"]
  by (simp split: if_splits)

section \<open>Where the provider fails\<close>

text \<open>The server wraps its answers in \<open>data\<close>, and \<open>load\<close> and \<open>resync\<close> look for \<open>update\<close> at the top: what
  they fetch is never applied.\<close>

lemma atob_undefined: "fromBase64 ''undefined'' = None"
  by (simp add: fromBase64_def strip_pad_def is_ws_def)

lemma wrapped_state_ignored:
  "state_response C L chg rid (Some (JObj [(''data'', out)])) p = p"
  by (simp add: state_response_def atob_undefined)

text \<open>An update received from the server changes the document, so the provider's own listener sends it to
  the server again, as an update of its own.\<close>

lemma remote_update_echoed:
  assumes "y_apply L (pv_doc p) raw = Some y" and "y \<noteq> pv_doc p" and "pv_wsConnected p" and "pv_socket p"
  shows "\<exists>p'. applyLocal C L chg rid raw p = Some p' \<and> pv_sent p' = pv_sent p @
    [(''y-update'', JObj [(''documentId'', JStr (pc_docId C)), (''updateB64'', JStr (toBase64 (chg (pv_doc p) y))),
       (''msgId'', JStr rid), (''seq'', JNum (pv_wsSeq p + 1))])]"
  using assms by (simp add: applyLocal_def onDocUpdate_def sendYUpdate_def tell_def Let_def)

text \<open>An edit between the connection of the socket and the server's answer to \<open>doc:join\<close> is sent at once and
  kept nowhere.\<close>

lemma edit_before_join_not_kept:
  assumes "pv_socket p"
  shows "pv_queue (onDocUpdate C rid u (onConnect C p)) = pv_queue p
    \<and> pv_wsQueue (onDocUpdate C rid u (onConnect C p)) = pv_wsQueue p
    \<and> (\<exists>msg. pv_sent (onDocUpdate C rid u (onConnect C p)) = pv_sent p @
          [(''doc:join'', JObj [(''documentId'', JStr (pc_docId C))]), (''y-update'', msg)])"
  using assms by (simp add: onDocUpdate_def onConnect_def sendYUpdate_def tell_def Let_def)

end
