(* ===== verification/Comments.thy ===== *)
theory Comments
  imports Documents
begin

text \<open>
  Comments: \<open>CommentsController\<close> (\<open>api/src/comments/comments.controller.ts\<close>) with
  \<open>comment.repo.ts\<close> and \<open>notification.repo.ts\<close>. The state is that of the API. MongoDB's text search is
  the argument \<open>hit\<close> of the listings. A sentiment is kept in thirds, \<open>score\<close> where the code stores
  \<open>score / 3\<close>.
\<close>

section \<open>The collections\<close>

definition comment_findById :: "string \<Rightarrow> db \<Rightarrow> comment option" where
  "comment_findById i d = find (\<lambda>c. k_id c = i) (comments d)"

definition comment_create :: "int \<Rightarrow> (string \<Rightarrow> comment) \<Rightarrow> db \<Rightarrow> comment \<times> db" where
  "comment_create now mk d =
     (let c = (mk (fresh_id d))\<lparr>k_createdAt := now, k_updatedAt := now\<rparr>
      in (c, d\<lparr>comments := comments d @ [c], next_id := next_id d + 1\<rparr>))"

definition comment_update :: "int \<Rightarrow> string \<Rightarrow> (comment \<Rightarrow> comment) \<Rightarrow> db \<Rightarrow> comment option \<times> db" where
  "comment_update now i f d =
     (let d' = d\<lparr>comments := update_row (\<lambda>c. k_id c = i)
                   (\<lambda>c. (f c)\<lparr>k_id := k_id c, k_updatedAt := now\<rparr>) (comments d)\<rparr>
      in (comment_findById i d', d'))"

definition comment_softDelete :: "int \<Rightarrow> string \<Rightarrow> db \<Rightarrow> comment option \<times> db" where
  "comment_softDelete now i d = comment_update now i (\<lambda>c. c\<lparr>k_deletedAt := Some now\<rparr>) d"

definition listByDoc :: "string \<Rightarrow> db \<Rightarrow> comment list" where
  "listByDoc documentId d =
     sort_key k_createdAt (filter (\<lambda>c. k_documentId c = documentId \<and> k_deletedAt c = None) (comments d))"

definition thread_roots :: "(string \<Rightarrow> comment \<Rightarrow> bool) \<Rightarrow> string \<Rightarrow> string \<Rightarrow> string \<Rightarrow> db \<Rightarrow> comment list" where
  "thread_roots hit documentId st q d =
     sort_key (\<lambda>c. - k_priority c) (sort_key (\<lambda>c. - k_updatedAt c)
       (filter (\<lambda>c. k_documentId c = documentId \<and> k_parentId c = None \<and> k_deletedAt c = None
          \<and> (st = [] \<or> k_status c = st) \<and> (q = [] \<or> hit q c)) (comments d)))"

definition listThreads ::
  "(string \<Rightarrow> comment \<Rightarrow> bool) \<Rightarrow> string \<Rightarrow> string \<Rightarrow> string \<Rightarrow> int \<Rightarrow> int \<Rightarrow> db \<Rightarrow> (comment \<times> comment list) list" where
  "listThreads hit documentId st q skip limit d =
     (let threads = take (nat (max 0 (min 200 (if limit \<noteq> 0 then limit else 50))))
                      (drop (nat (max 0 skip)) (thread_roots hit documentId st q d));
          replies = sort_key k_createdAt
            (filter (\<lambda>c. (case k_threadId c of Some t \<Rightarrow> t \<in> set (map k_id threads) | None \<Rightarrow> False)
               \<and> k_deletedAt c = None) (comments d))
      in map (\<lambda>t. (t, filter (\<lambda>r. k_threadId r = Some (k_id t)) replies)) threads)"

definition notif_create ::
  "int \<Rightarrow> string \<Rightarrow> string \<Rightarrow> string \<Rightarrow> string \<Rightarrow> string \<Rightarrow> json \<Rightarrow> db \<Rightarrow> db" where
  "notif_create now userId type documentId commentId threadId data d =
     d\<lparr>notifications := notifications d @
         [\<lparr>n_id = fresh_id d, n_userId = userId, n_type = type, n_documentId = documentId,
           n_commentId = commentId, n_threadId = threadId, n_data = data, n_readAt = None, n_createdAt = now\<rparr>],
       next_id := next_id d + 1\<rparr>"

definition notif_listByUser :: "string \<Rightarrow> nat \<Rightarrow> db \<Rightarrow> notification list" where
  "notif_listByUser userId limit d =
     take limit (sort_key (\<lambda>n. - n_createdAt n) (filter (\<lambda>n. n_userId n = userId) (notifications d)))"

definition notif_markRead :: "int \<Rightarrow> string \<Rightarrow> string list \<Rightarrow> db \<Rightarrow> db" where
  "notif_markRead now userId ids d =
     d\<lparr>notifications := map (\<lambda>n. if n_userId n = userId \<and> n_id n \<in> set ids then n\<lparr>n_readAt := Some now\<rparr> else n)
         (notifications d)\<rparr>"

section \<open>Reading a text\<close>

definition positive_words :: "string list" where
  "positive_words = [''good'', ''great'', ''excellent'', ''love'', ''like'', ''thanks'', ''helpful'',
     ''clear'', ''nice'', ''awesome'']"

definition negative_words :: "string list" where
  "negative_words = [''bad'', ''terrible'', ''awful'', ''hate'', ''dislike'', ''bug'', ''broken'',
     ''confusing'', ''slow'', ''issue'']"

definition simpleSentiment :: "string \<Rightarrow> int" where
  "simpleSentiment text =
     (let t = to_lower text;
          score = int (length (filter (has_sub t) positive_words)) - int (length (filter (has_sub t) negative_words))
      in clamp (- 3) 3 score)"

text \<open>A backtick, something without backticks, a backtick; or two fences of three backticks.\<close>

definition has_code :: "string \<Rightarrow> bool" where
  "has_code text \<longleftrightarrow>
     (\<exists>w \<in> set (butlast (tl (split_on (CHR 0x60) text))). w \<noteq> [])
     \<or> (case index_of text [CHR 0x60, CHR 0x60, CHR 0x60] of
          None \<Rightarrow> False | Some i \<Rightarrow> has_sub (drop (i + 3) text) [CHR 0x60, CHR 0x60, CHR 0x60])"

fun has_structure :: "string \<Rightarrow> bool" where
  "has_structure [] = False"
| "has_structure [c] = (c = CHR 0x0A)"
| "has_structure (c # e # t) =
     (c = CHR 0x0A \<or> (c \<in> {CHR ''.'', CHR ''!'', CHR ''?''} \<and> is_ws e) \<or> has_structure (e # t))"

definition has_link :: "string \<Rightarrow> bool" where
  "has_link text \<longleftrightarrow> has_sub (to_lower text) ''http://'' \<or> has_sub (to_lower text) ''https://''
     \<or> has_sub (to_lower text) ''www.''"

definition simpleQuality :: "string \<Rightarrow> int" where
  "simpleQuality text =
     (let len = min 500 (int (length (js_trim text)));
          score = 40 + (len * 80 + 500) div 1000
            + (if has_structure text then 5 else 0) + (if has_link text then 5 else 0)
            + (if has_code text then 5 else 0)
      in max 0 (min 100 score))"

section \<open>Mentions\<close>

definition is_alpha :: "char \<Rightarrow> bool" where
  "is_alpha c \<longleftrightarrow> (CHR ''A'' \<le> c \<and> c \<le> CHR ''Z'') \<or> (CHR ''a'' \<le> c \<and> c \<le> CHR ''z'')"

definition is_num :: "char \<Rightarrow> bool" where
  "is_num c \<longleftrightarrow> CHR ''0'' \<le> c \<and> c \<le> CHR ''9''"

definition local_char :: "char \<Rightarrow> bool" where
  "local_char c \<longleftrightarrow> is_alpha c \<or> is_num c \<or> c \<in> set ''._%+-''"

definition domain_char :: "char \<Rightarrow> bool" where
  "domain_char c \<longleftrightarrow> is_alpha c \<or> is_num c \<or> c \<in> set ''.-''"

text \<open>
  The longest match of \<open>[A-Za-z0-9.-]+\.[A-Za-z]{2,}\<close> at the start of a run of domain characters: the
  split at the last dot, not at the start, that two letters follow.
\<close>

definition domain_match :: "string \<Rightarrow> string option" where
  "domain_match run =
     (case filter (\<lambda>j. run ! j = CHR ''.'' \<and> 2 \<le> length (takeWhile is_alpha (drop (j + 1) run))) [1..<length run] of
        [] \<Rightarrow> None
      | js \<Rightarrow> Some (take (last js + 1) run @ takeWhile is_alpha (drop (last js + 1) run)))"

text \<open>The match of the expression after its first \<open>@\<close>: the address.\<close>

definition address_at :: "string \<Rightarrow> string option" where
  "address_at t =
     (let loc = takeWhile local_char t; r = dropWhile local_char t
      in if loc = [] then None
         else case r of
             [] \<Rightarrow> None
           | c # r1 \<Rightarrow>
               if c \<noteq> CHR ''@'' then None
               else map_option (\<lambda>dom. loc @ CHR ''@'' # dom) (domain_match (takeWhile domain_char r1)))"

function addresses :: "string \<Rightarrow> string list" where
  "addresses [] = []"
| "addresses (c # t) =
     (case (if c = CHR ''@'' then address_at t else None) of
        Some a \<Rightarrow> a # addresses (drop (length a) t)
      | None \<Rightarrow> addresses t)"
  by pat_completeness auto
termination
  by (relation "measure length") auto

section \<open>Who may see a document\<close>

definition canAccessDoc :: "db \<Rightarrow> string \<Rightarrow> string \<Rightarrow> bool" where
  "canAccessDoc d userId documentId = (case doc_findById documentId d of
     None \<Rightarrow> False
   | Some x \<Rightarrow> d_ownerId x = userId \<or> perm_find documentId userId d \<noteq> None
       \<or> findRole (d_workspaceId x) userId d \<noteq> None)"

definition extractMentions :: "db \<Rightarrow> string \<Rightarrow> string \<Rightarrow> string list" where
  "extractMentions d text documentId =
     List.map_filter (\<lambda>email. case user_findByEmail email d of
         Some u \<Rightarrow> if canAccessDoc d (us_id u) documentId then Some (us_id u) else None
       | None \<Rightarrow> None)
       (js_set (map to_lower (addresses text)))"

text \<open>The author of a comment; for a guest the first 24 hexadecimal digits of the share token, padded.\<close>

definition hex_digit :: "nat \<Rightarrow> char" where
  "hex_digit n = (if n < 10 then char_of (48 + n) else char_of (87 + n))"

definition hex_of :: "string \<Rightarrow> string" where
  "hex_of s = concat (map (\<lambda>c. [hex_digit (of_char c div 16), hex_digit (of_char c mod 16)]) s)"

definition resolveAuthorId :: "req_user \<Rightarrow> string" where
  "resolveAuthorId u = (case ru_share u of
     None \<Rightarrow> id_text (ru_id u)
   | Some g \<Rightarrow>
       let hex = hex_of (if sg_token g \<noteq> [] then sg_token g else ''guest'')
       in take 24 (if length hex < 24 then take 24 (hex @ replicate 24 (CHR ''0'')) else hex))"

section \<open>Messages\<close>

definition opt_str :: "string \<Rightarrow> string option \<Rightarrow> (string \<times> json) list" where
  "opt_str k v = (case v of Some s \<Rightarrow> [(k, JStr s)] | None \<Rightarrow> [])"

definition comment_json :: "comment \<Rightarrow> json" where
  "comment_json c = JObj
     ([(''_id'', JStr (k_id c)), (''documentId'', JStr (k_documentId c)), (''authorId'', JStr (k_authorId c))]
      @ opt_str ''parentId'' (k_parentId c) @ opt_str ''threadId'' (k_threadId c)
      @ [(''text'', JStr (k_text c)), (''status'', JStr (k_status c)), (''tags'', JArr (map JStr (k_tags c))),
         (''priority'', JNum (k_priority c)), (''moderationStatus'', JStr (k_moderationStatus c)),
         (''reactions'', JObj (map (\<lambda>(e, n). (e, JNum n)) (k_reactions c)))])"

definition room_channel :: "string \<Rightarrow> string" where
  "room_channel documentId = tmpl ''ws:room:'' documentId"

definition publishRoom :: "string \<Rightarrow> string \<Rightarrow> json \<Rightarrow> redis \<Rightarrow> redis" where
  "publishRoom documentId type payload s =
     (if documentId = [] then s
      else r_publish (room_channel documentId)
             (JObj [(''documentId'', JStr documentId), (''type'', JStr type), (''payload'', payload)]) s)"

definition publishIntegration :: "string \<Rightarrow> json \<Rightarrow> redis \<Rightarrow> redis" where
  "publishIntegration type payload s =
     r_publish ''integrations:comments'' (JObj [(''type'', JStr type), (''payload'', payload)]) s"

definition publishNotify :: "string \<Rightarrow> json \<Rightarrow> redis \<Rightarrow> redis" where
  "publishNotify userId payload s =
     r_publish ''ws:notify'' (JObj [(''to'', JStr userId), (''payload'', payload)]) s"

text \<open>The announcements an endpoint ends with: the room, the integrations, a counter.\<close>

definition announce ::
  "string \<Rightarrow> string \<Rightarrow> json \<Rightarrow> string \<Rightarrow> json \<Rightarrow> string option \<Rightarrow> api \<Rightarrow> api" where
  "announce documentId type payload itype ipayload counter st =
     with_redis (\<lambda>s. (case counter of Some k \<Rightarrow> snd (r_incr k (publishIntegration itype ipayload (publishRoom documentId type payload s)))
                    | None \<Rightarrow> publishIntegration itype ipayload (publishRoom documentId type payload s))) st"

definition notify_one ::
  "string \<Rightarrow> string \<Rightarrow> string \<Rightarrow> string \<Rightarrow> string \<Rightarrow> string \<Rightarrow> string \<Rightarrow> api \<Rightarrow> api" where
  "notify_one type documentId commentId threadId by text uid st =
     st\<lparr>a_db := notif_create (api_clock st) uid type documentId commentId threadId
          (JObj [(''by'', JStr by), (''text'', JStr (take 200 text))]) (a_db st),
        a_redis := publishNotify uid
          (JObj [(''type'', JStr type), (''documentId'', JStr documentId), (''commentId'', JStr commentId),
                 (''threadId'', JStr threadId), (''text'', JStr (take 120 text))]) (a_redis st)\<rparr>"

definition notify_mentions ::
  "req_user \<Rightarrow> string \<Rightarrow> string \<Rightarrow> string \<Rightarrow> string \<Rightarrow> string \<Rightarrow> api \<Rightarrow> api" where
  "notify_mentions u type documentId commentId threadId text st =
     (if ru_share u \<noteq> None then st
      else fold (notify_one type documentId commentId threadId (id_text (ru_id u)) text)
             (filter (\<lambda>uid. uid \<noteq> id_text (ru_id u)) (extractMentions (a_db st) text documentId)) st)"

section \<open>Creating and replying\<close>

record comment_body =
  cb_documentId :: string
  cb_text :: string
  cb_parentId :: string
  cb_threadId :: string
  cb_status :: string
  cb_tags :: "string list"
  cb_priority :: int
  cb_anchor :: "(int \<times> int \<times> string) option"

definition anchor_json :: "int \<Rightarrow> int \<Rightarrow> string \<Rightarrow> json" where
  "anchor_json from1 to1 vectorB64 =
     JObj [(''from'', JNum (max 1 (toInt32 from1))), (''to'', JNum (max 1 (toInt32 to1))), (''vectorB64'', JStr vectorB64)]"

definition blank_comment :: "string \<Rightarrow> comment" where
  "blank_comment i = \<lparr>k_id = i, k_documentId = [], k_authorId = [], k_parentId = None, k_threadId = None,
     k_text = [], k_status = ''open'', k_tags = [], k_priority = 0, k_resolvedAt = None, k_deletedAt = None,
     k_anchor = None, k_reactions = [], k_moderationStatus = ''pending'', k_assigneeId = None, k_dueAt = None,
     k_escalatedAt = None, k_archivedAt = None, k_sentiment = None, k_quality = None, k_createdAt = 0,
     k_updatedAt = 0\<rparr>"

definition new_comment :: "req_user \<Rightarrow> comment_body \<Rightarrow> string \<Rightarrow> comment" where
  "new_comment u b i =
     (let isReply = (cb_parentId b \<noteq> []);
          c = (blank_comment i)\<lparr>k_documentId := cb_documentId b, k_authorId := resolveAuthorId u,
                k_text := cb_text b, k_status := (if cb_status b \<noteq> [] then cb_status b else ''open''),
                k_tags := cb_tags b, k_priority := cb_priority b\<rparr>
      in if isReply
         then c\<lparr>k_parentId := Some (cb_parentId b),
                k_threadId := Some (if cb_threadId b \<noteq> [] then cb_threadId b else cb_parentId b)\<rparr>
         else (case cb_anchor b of Some (f, t, v) \<Rightarrow> c\<lparr>k_anchor := Some (anchor_json f t v)\<rparr> | None \<Rightarrow> c))"

definition comments_create :: "req_user \<Rightarrow> comment_body \<Rightarrow> api \<Rightarrow> (api_error + comment) \<times> api" where
  "comments_create u b st =
     (if cb_documentId b = [] \<or> cb_text b = [] then (Inl (BadRequest ''Missing fields''), st)
      else
        let type = (if cb_parentId b \<noteq> [] then ''reply'' else ''mention'');
            now = api_clock st;
            (saved, d1) = comment_create now (new_comment u b) (a_db st);
            d2 = snd (comment_update now (k_id saved)
                   (\<lambda>c. c\<lparr>k_sentiment := Some (simpleSentiment (cb_text b)), k_quality := Some (simpleQuality (cb_text b))\<rparr>) d1);
            threadId = (case k_threadId saved of Some t \<Rightarrow> t | None \<Rightarrow> k_id saved);
            st1 = notify_mentions u type (cb_documentId b) (k_id saved) threadId (cb_text b) (st\<lparr>a_db := d2\<rparr>);
            st2 = announce (cb_documentId b) ''comment:created''
                    (JObj [(''documentId'', JStr (cb_documentId b)), (''comment'', comment_json saved)])
                    ''comment.created'' (JObj [(''documentId'', JStr (cb_documentId b)), (''id'', JStr (k_id saved))])
                    (Some ''metrics:comments:created'') st1
        in (Inr saved, st2))"

definition comments_reply :: "string \<Rightarrow> req_user \<Rightarrow> comment_body \<Rightarrow> api \<Rightarrow> (api_error + comment) \<times> api" where
  "comments_reply i u b st =
     (if cb_text b = [] then (Inl (BadRequest ''Missing fields''), st)
      else
        let threadId = (if cb_threadId b \<noteq> [] then cb_threadId b else i);
            (saved, d1) = comment_create (api_clock st)
              (\<lambda>j. (blank_comment j)\<lparr>k_documentId := cb_documentId b, k_authorId := resolveAuthorId u,
                     k_text := cb_text b, k_parentId := Some i, k_threadId := Some threadId\<rparr>) (a_db st);
            st1 = notify_mentions u ''reply'' (cb_documentId b) (k_id saved) threadId (cb_text b) (st\<lparr>a_db := d1\<rparr>);
            st2 = announce (cb_documentId b) ''comment:created''
                    (JObj [(''documentId'', JStr (cb_documentId b)), (''comment'', comment_json saved)])
                    ''comment.reply'' (JObj [(''documentId'', JStr (cb_documentId b)), (''id'', JStr (k_id saved)),
                                            (''threadId'', JStr threadId)])
                    (Some ''metrics:comments:replied'') st1
        in (Inr saved, st2))"

section \<open>Changing\<close>

definition change_comment :: "string \<Rightarrow> (comment \<Rightarrow> comment) \<Rightarrow> api \<Rightarrow> comment option \<times> api" where
  "change_comment i f st = (let (c, d1) = comment_update (api_clock st) i f (a_db st) in (c, st\<lparr>a_db := d1\<rparr>))"

definition doc_of :: "comment option \<Rightarrow> string" where
  "doc_of c = (case c of Some x \<Rightarrow> k_documentId x | None \<Rightarrow> [])"

definition comment_or_null :: "comment option \<Rightarrow> json" where
  "comment_or_null c = (case c of Some x \<Rightarrow> comment_json x | None \<Rightarrow> JNull)"

definition comments_resolve :: "string \<Rightarrow> api \<Rightarrow> comment option \<times> api" where
  "comments_resolve i st =
     (let (rec, st1) = change_comment i (\<lambda>c. c\<lparr>k_status := ''resolved'', k_resolvedAt := Some (api_clock st)\<rparr>) st;
          info = JObj [(''documentId'', JStr (doc_of rec)), (''id'', JStr i)]
      in (rec, announce (doc_of rec) ''comment:resolved'' info ''comment.resolved'' info
                 (Some ''metrics:comments:resolved'') st1))"

text \<open>The fields a request body may name, set as MongoDB sets them.\<close>

fun set_field :: "string \<times> json \<Rightarrow> comment \<Rightarrow> comment" where
  "set_field (f, JStr s) c =
     (if f = ''documentId'' then c\<lparr>k_documentId := s\<rparr>
      else if f = ''authorId'' then c\<lparr>k_authorId := s\<rparr>
      else if f = ''parentId'' then c\<lparr>k_parentId := Some s\<rparr>
      else if f = ''threadId'' then c\<lparr>k_threadId := Some s\<rparr>
      else if f = ''text'' then c\<lparr>k_text := s\<rparr>
      else if f = ''status'' then c\<lparr>k_status := s\<rparr>
      else if f = ''moderationStatus'' then c\<lparr>k_moderationStatus := s\<rparr>
      else if f = ''assigneeId'' then c\<lparr>k_assigneeId := Some s\<rparr>
      else c)"
| "set_field (f, JNum n) c =
     (if f = ''priority'' then c\<lparr>k_priority := n\<rparr>
      else if f = ''deletedAt'' then c\<lparr>k_deletedAt := Some n\<rparr>
      else if f = ''resolvedAt'' then c\<lparr>k_resolvedAt := Some n\<rparr>
      else if f = ''dueAt'' then c\<lparr>k_dueAt := Some n\<rparr>
      else c)"
| "set_field (f, JNull) c =
     (if f = ''parentId'' then c\<lparr>k_parentId := None\<rparr>
      else if f = ''threadId'' then c\<lparr>k_threadId := None\<rparr>
      else if f = ''assigneeId'' then c\<lparr>k_assigneeId := None\<rparr>
      else if f = ''dueAt'' then c\<lparr>k_dueAt := None\<rparr>
      else c)"
| "set_field (f, JObj o1) c = (if f = ''anchor'' then c\<lparr>k_anchor := Some (JObj o1)\<rparr> else c)"
| "set_field (f, JArr js) c =
     (if f = ''tags'' then c\<lparr>k_tags := map (\<lambda>j. js_text (Some j)) js\<rparr> else c)"
| "set_field (f, JBool b) c = c"

definition owned_comment :: "string \<Rightarrow> req_user \<Rightarrow> api \<Rightarrow> api_error + comment" where
  "owned_comment i u st = (case comment_findById i (a_db st) of
     None \<Rightarrow> Inl (BadRequest ''Not found'')
   | Some c \<Rightarrow> if k_authorId c \<noteq> id_text (ru_id u) then Inl (Forbidden ''Not owner'') else Inr c)"

definition comments_patch ::
  "string \<Rightarrow> req_user \<Rightarrow> (string \<times> json) list \<Rightarrow> api \<Rightarrow> (api_error + comment option) \<times> api" where
  "comments_patch i u body st = (case owned_comment i u st of
     Inl e \<Rightarrow> (Inl e, st)
   | Inr _ \<Rightarrow>
       let (rec, st1) = change_comment i (fold set_field body) st
       in (Inr rec, announce (doc_of rec) ''comment:updated''
             (JObj [(''documentId'', JStr (doc_of rec)), (''comment'', comment_or_null rec)])
             ''comment.updated'' (JObj [(''documentId'', JStr (doc_of rec)), (''id'', JStr i)]) None st1))"

definition comments_remove :: "string \<Rightarrow> req_user \<Rightarrow> api \<Rightarrow> (api_error + comment option) \<times> api" where
  "comments_remove i u st = (case owned_comment i u st of
     Inl e \<Rightarrow> (Inl e, st)
   | Inr existing \<Rightarrow>
       let (rec, d1) = comment_softDelete (api_clock st) i (a_db st);
           info = JObj [(''documentId'', JStr (k_documentId existing)), (''id'', JStr i)]
       in (Inr rec, announce (k_documentId existing) ''comment:deleted'' info ''comment.deleted'' info
             (Some ''metrics:comments:deleted'') (st\<lparr>a_db := d1\<rparr>)))"

definition comments_updateAnchor ::
  "string \<Rightarrow> int \<Rightarrow> int \<Rightarrow> string \<Rightarrow> api \<Rightarrow> (api_error + comment option) \<times> api" where
  "comments_updateAnchor i f t v st =
     (if f = 0 \<or> t = 0 then (Inl (BadRequest ''Missing anchor''), st)
      else let (rec, st1) = change_comment i (\<lambda>c. c\<lparr>k_anchor := Some (anchor_json f t v)\<rparr>) st in (Inr rec, st1))"

definition bump_reaction :: "string \<Rightarrow> (string \<times> int) list \<Rightarrow> (string \<times> int) list" where
  "bump_reaction e rs = map_put e ((case map_of rs e of Some n \<Rightarrow> n | None \<Rightarrow> 0) + 1) rs"

text \<open>\<open>emoji\<close> is the one of the body or the code's default.\<close>

definition comments_react :: "string \<Rightarrow> string \<Rightarrow> api \<Rightarrow> (api_error + comment option) \<times> api" where
  "comments_react i emoji0 st = (case comment_findById i (a_db st) of
     None \<Rightarrow> (Inl (BadRequest ''Not found''), st)
   | Some rec \<Rightarrow>
       let emoji = take 8 emoji0;
           (updated, st1) = change_comment i (\<lambda>c. c\<lparr>k_reactions := bump_reaction emoji (k_reactions rec)\<rparr>) st;
           docId = k_documentId rec
       in (Inr updated, announce docId ''comment:updated''
             (JObj [(''documentId'', JStr docId), (''comment'', comment_or_null updated)])
             ''comment.reacted'' (JObj [(''documentId'', JStr docId), (''id'', JStr i), (''emoji'', JStr emoji)])
             (Some ''metrics:comments:reacted'') st1))"

definition comments_approve :: "string \<Rightarrow> api \<Rightarrow> comment option \<times> api" where
  "comments_approve i st = change_comment i (\<lambda>c. c\<lparr>k_moderationStatus := ''approved''\<rparr>) st"

definition comments_reject :: "string \<Rightarrow> api \<Rightarrow> comment option \<times> api" where
  "comments_reject i st = change_comment i (\<lambda>c. c\<lparr>k_moderationStatus := ''rejected''\<rparr>) st"

definition comments_assign :: "string \<Rightarrow> string \<Rightarrow> api \<Rightarrow> (api_error + comment option) \<times> api" where
  "comments_assign i assigneeId st =
     (if assigneeId = [] then (Inl (BadRequest ''Missing assigneeId''), st)
      else let (rec, st1) = change_comment i
             (\<lambda>c. c\<lparr>k_assigneeId := Some assigneeId, k_moderationStatus := ''approved''\<rparr>) st in (Inr rec, st1))"

text \<open>\<open>dueAt\<close>: the text of the body and what \<open>new Date\<close> makes of it, if it is a date.\<close>

definition comments_due :: "string \<Rightarrow> (string \<Rightarrow> int option) \<Rightarrow> string \<Rightarrow> api \<Rightarrow> (api_error + comment option) \<times> api" where
  "comments_due i date dueAt st =
     (if dueAt = [] then (Inl (BadRequest ''Missing dueAt''), st)
      else case date dueAt of
          None \<Rightarrow> (Inl (BadRequest ''Invalid dueAt''), st)
        | Some t \<Rightarrow> let (rec, st1) = change_comment i (\<lambda>c. c\<lparr>k_dueAt := Some t\<rparr>) st in (Inr rec, st1))"

definition comments_escalate :: "string \<Rightarrow> api \<Rightarrow> (api_error + comment option) \<times> api" where
  "comments_escalate i st = (case comment_findById i (a_db st) of
     None \<Rightarrow> (Inl (BadRequest ''Not found''), st)
   | Some rec \<Rightarrow>
       let (r, st1) = change_comment i
             (\<lambda>c. c\<lparr>k_priority := min 10 (k_priority rec + 1), k_escalatedAt := Some (api_clock st)\<rparr>) st
       in (Inr r, st1))"

section \<open>Reading\<close>

definition pick_fields :: "string list \<Rightarrow> json \<Rightarrow> json" where
  "pick_fields fs j = (case j of
     JObj kvs \<Rightarrow> if fs = [] then j else JObj (filter (\<lambda>p. fst p = ''_id'' \<or> fst p \<in> set fs) kvs)
   | _ \<Rightarrow> j)"

definition thread_json :: "string list \<Rightarrow> comment \<times> comment list \<Rightarrow> json" where
  "thread_json fs tr = (case pick_fields fs (comment_json (fst tr)) of
     JObj kvs \<Rightarrow> JObj (kvs @ [(''replies'', JArr (map comment_json (snd tr)))]) | j \<Rightarrow> j)"

text \<open>The query parameters of the listing, absent ones empty; \<open>num\<close> is \<open>parseInt(x, 10) || 0\<close>.\<close>

record list_query =
  lq_status :: string
  lq_q :: string
  lq_skip :: string
  lq_limit :: string
  lq_fields :: string

definition list_key_comments :: "string \<Rightarrow> list_query \<Rightarrow> string" where
  "list_key_comments documentId q = tmpl ''comments:list:''
     (join_with '':'' [documentId, lq_status q, lq_q q, or_text (lq_skip q) ''0'', or_text (lq_limit q) ''50'', lq_fields q])"

definition comments_list ::
  "(string \<Rightarrow> int) \<Rightarrow> (string \<Rightarrow> comment \<Rightarrow> bool) \<Rightarrow> string \<Rightarrow> list_query \<Rightarrow> api \<Rightarrow> json \<times> api" where
  "comments_list num hit documentId q st =
     (let key = list_key_comments documentId q in
      case cache_getJson key (a_redis st) of
        Some j \<Rightarrow> (j, st)
      | None \<Rightarrow>
          let limit = num (or_text (lq_limit q) ''50'');
              threads = listThreads hit documentId (lq_status q) (lq_q q) (num (or_text (lq_skip q) ''0''))
                          (if limit \<noteq> 0 then limit else 50) (a_db st);
              j = JArr (map (thread_json (csv_fields (lq_fields q))) threads)
          in (j, with_redis (cache_setJson key j 30) st))"

definition comments_search ::
  "(string \<Rightarrow> int) \<Rightarrow> (string \<Rightarrow> comment \<Rightarrow> bool) \<Rightarrow> string \<Rightarrow> string \<Rightarrow> string \<Rightarrow> db \<Rightarrow> api_error + json" where
  "comments_search num hit documentId q limit d =
     (if documentId = [] then Inl (BadRequest ''Missing documentId'')
      else let n = num (or_text limit ''20'')
           in Inr (JArr (map (thread_json []) (listThreads hit documentId [] q 0 (if n \<noteq> 0 then n else 20) d))))"

text \<open>\<open>found\<close> is the result of the text search of the users.\<close>

definition mentionSearch :: "user list \<Rightarrow> string \<Rightarrow> db \<Rightarrow> user list" where
  "mentionSearch found documentId d =
     (if documentId = [] then found else filter (\<lambda>u. canAccessDoc d (us_id u) documentId) found)"

section \<open>Analytics\<close>

definition count_by_author :: "comment list \<Rightarrow> (string \<times> int) list" where
  "count_by_author cs =
     foldl (\<lambda>m c. map_put (k_authorId c) ((case map_of m (k_authorId c) of Some n \<Rightarrow> n | None \<Rightarrow> 0) + 1) m) [] cs"

definition top_users :: "comment list \<Rightarrow> (string \<times> int) list" where
  "top_users cs = take 10 (sort_key (\<lambda>p. - snd p) (count_by_author cs))"

definition day_ms :: int where
  "day_ms = 86400000"

text \<open>The start of day \<open>i\<close> of the thirty that end with the current one.\<close>

definition day_start :: "int \<Rightarrow> nat \<Rightarrow> int" where
  "day_start now i = now - (29 - int i) * day_ms"

definition day_count :: "int \<Rightarrow> nat \<Rightarrow> comment list \<Rightarrow> nat" where
  "day_count now i cs =
     length (filter (\<lambda>c. k_createdAt c \<ge> day_start now i \<and> k_createdAt c < day_start now i + day_ms) cs)"

definition comment_sentiment :: "comment \<Rightarrow> int" where
  "comment_sentiment c = (case k_sentiment c of Some s \<Rightarrow> s | None \<Rightarrow> simpleSentiment (k_text c))"

definition comment_quality :: "comment \<Rightarrow> int" where
  "comment_quality c = (case k_quality c of Some s \<Rightarrow> s | None \<Rightarrow> simpleQuality (k_text c))"

text \<open>\<open>Math.round(s / n)\<close>, and \<open>Number((s / n).toFixed(3))\<close> in thousandths, for a positive \<open>n\<close>.\<close>

definition round_div :: "int \<Rightarrow> int \<Rightarrow> int" where
  "round_div s n = (2 * s + n) div (2 * n)"

definition fixed3 :: "int \<Rightarrow> int \<Rightarrow> int" where
  "fixed3 s n = sgn s * round_div (1000 * \<bar>s\<bar>) n"

text \<open>\<open>day\<close> prints the date of a time stamp.\<close>

definition analytics_of :: "(int \<Rightarrow> string) \<Rightarrow> int \<Rightarrow> comment list \<Rightarrow> json" where
  "analytics_of day now cs =
     (let threads = filter (\<lambda>c. k_parentId c = None) cs; n = int (length cs)
      in JObj
       [(''totals'', JObj [(''comments'', JNum n), (''threads'', JNum (int (length threads))),
           (''replies'', JNum (n - int (length threads))),
           (''uniqueAuthors'', JNum (int (length (js_set (map k_authorId cs))))),
           (''reactions'', JNum (sum_list (map (\<lambda>c. sum_list (map snd (k_reactions c))) cs)))]),
        (''activity'', JArr (map (\<lambda>i. JObj [(''date'', JStr (day (day_start now i))),
           (''count'', JNum (int (day_count now i cs)))]) [0..<30])),
        (''participation'', JObj [(''topUsers'', JArr (map (\<lambda>(u, c). JObj [(''userId'', JStr u), (''count'', JNum c)])
           (top_users cs)))]),
        (''sentiment'', JObj [(''avg'', JNum (if cs = [] then 0 else fixed3 (sum_list (map comment_sentiment cs)) (3 * n)))]),
        (''quality'', JObj [(''avg'', JNum (if cs = [] then 0 else round_div (sum_list (map comment_quality cs)) n))])])"

definition comments_analytics :: "(int \<Rightarrow> string) \<Rightarrow> string \<Rightarrow> api \<Rightarrow> json \<times> api" where
  "comments_analytics day documentId st =
     (let key = tmpl ''comments:analytics:'' documentId in
      case cache_getJson key (a_redis st) of
        Some j \<Rightarrow> (j, st)
      | None \<Rightarrow>
          let j = analytics_of day (api_clock st) (listByDoc documentId (a_db st))
          in (j, with_redis (cache_setJson key j 60) st))"

section \<open>Mentions reach the users who may see the document\<close>

lemma extractMentions_cong:
  assumes "users d' = users d" and "docs d' = docs d" and "perms d' = perms d" and "members d' = members d"
  shows "extractMentions d' text i = extractMentions d text i"
proof -
  have c: "canAccessDoc d' = canAccessDoc d"
    using assms by (simp add: fun_eq_iff canAccessDoc_def doc_findById_def perm_find_def findRole_def split: option.split)
  show ?thesis
    unfolding extractMentions_def user_findByEmail_def c assms(1) ..
qed

lemma comment_create_frame [simp]:
  "users (snd (comment_create now mk d)) = users d" "docs (snd (comment_create now mk d)) = docs d"
  "perms (snd (comment_create now mk d)) = perms d" "members (snd (comment_create now mk d)) = members d"
  "notifications (snd (comment_create now mk d)) = notifications d"
  by (simp_all add: comment_create_def Let_def)

lemma comment_update_frame [simp]:
  "users (snd (comment_update now i f d)) = users d" "docs (snd (comment_update now i f d)) = docs d"
  "perms (snd (comment_update now i f d)) = perms d" "members (snd (comment_update now i f d)) = members d"
  "notifications (snd (comment_update now i f d)) = notifications d"
  by (simp_all add: comment_update_def Let_def)

lemma announce_db [simp]: "a_db (announce i t p it ip k st) = a_db st"
  by (simp add: announce_def)

lemma notify_run:
  "map n_userId (notifications (a_db (fold (notify_one type i c t by text) uids st))) =
     map n_userId (notifications (a_db st)) @ uids
   \<and> map (\<lambda>(ch, j). (ch, jstr ''to'' j)) (pubs (a_redis (fold (notify_one type i c t by text) uids st))) =
     map (\<lambda>(ch, j). (ch, jstr ''to'' j)) (pubs (a_redis st)) @ map (\<lambda>u. (''ws:notify'', u)) uids"
proof (induction uids arbitrary: st)
  case (Cons uid uids)
  have "map n_userId (notifications (a_db (notify_one type i c t by text uid st))) =
      map n_userId (notifications (a_db st)) @ [uid]"
    by (simp add: notify_one_def notif_create_def)
  moreover have "map (\<lambda>(ch, j). (ch, jstr ''to'' j)) (pubs (a_redis (notify_one type i c t by text uid st))) =
      map (\<lambda>(ch, j). (ch, jstr ''to'' j)) (pubs (a_redis st)) @ [(''ws:notify'', uid)]"
    by (simp add: notify_one_def publishNotify_def jstr_def)
  ultimately show ?case using Cons.IH [of "notify_one type i c t by text uid st"] by simp
qed simp

text \<open>Whom a text mentions, by the addresses in it.\<close>

lemma in_map_filter: "y \<in> set (List.map_filter f xs) \<longleftrightarrow> (\<exists>x \<in> set xs. f x = Some y)"
  by (induction xs) (auto simp: map_filter_simps split: option.splits)

lemma set_extractMentions:
  "set (extractMentions d text i) =
     {us_id u |u a. a \<in> set (addresses text) \<and> user_findByEmail (to_lower a) d = Some u \<and> canAccessDoc d (us_id u) i}"
  (is "?L = ?R")
proof (rule set_eqI)
  fix y
  have "y \<in> ?L \<longleftrightarrow> (\<exists>a \<in> set (addresses text). (case user_findByEmail (to_lower a) d of
      Some u \<Rightarrow> if canAccessDoc d (us_id u) i then Some (us_id u) else None | None \<Rightarrow> None) = Some y)"
    by (simp add: extractMentions_def in_map_filter)
  also have "\<dots> \<longleftrightarrow> (\<exists>a \<in> set (addresses text). \<exists>u. user_findByEmail (to_lower a) d = Some u
      \<and> canAccessDoc d (us_id u) i \<and> us_id u = y)"
    by (intro bex_cong refl) (simp split: option.split)
  also have "\<dots> \<longleftrightarrow> y \<in> ?R"
    by blast
  finally show "y \<in> ?L \<longleftrightarrow> y \<in> ?R" .
qed

text \<open>The users a comment with this text notifies.\<close>

definition mentioned_users :: "req_user \<Rightarrow> string \<Rightarrow> string \<Rightarrow> db \<Rightarrow> string list" where
  "mentioned_users u text documentId d =
     (if ru_share u \<noteq> None then []
      else filter (\<lambda>uid. uid \<noteq> id_text (ru_id u)) (extractMentions d text documentId))"

lemma set_mentioned_users:
  "set (mentioned_users u text i d) = (if ru_share u \<noteq> None then {} else
     {us_id v |v a. a \<in> set (addresses text) \<and> user_findByEmail (to_lower a) d = Some v
        \<and> canAccessDoc d (us_id v) i} - {id_text (ru_id u)})"
proof (cases "ru_share u = None")
  case True
  then have "set (mentioned_users u text i d) = set (extractMentions d text i) - {id_text (ru_id u)}"
    by (auto simp: mentioned_users_def)
  with True show ?thesis
    by (simp only: set_extractMentions) simp
qed (simp add: mentioned_users_def)

text \<open>C31: a comment notifies, each in the database and over the socket, exactly the users whose addresses it
  mentions, who may see the document and who are not its author; the comment of a guest notifies
  nobody.\<close>

theorem mentions_notify_exactly:
  assumes "cb_documentId b \<noteq> []" and "cb_text b \<noteq> []"
  shows "map n_userId (notifications (a_db (snd (comments_create u b st)))) =
      map n_userId (notifications (a_db st)) @ mentioned_users u (cb_text b) (cb_documentId b) (a_db st)
    \<and> set (mentioned_users u (cb_text b) (cb_documentId b) (a_db st)) = (if ru_share u \<noteq> None then {} else
        {us_id v |v a. a \<in> set (addresses (cb_text b)) \<and> user_findByEmail (to_lower a) (a_db st) = Some v
           \<and> canAccessDoc (a_db st) (us_id v) (cb_documentId b)} - {id_text (ru_id u)})"
proof -
  let ?mk = "comment_create (api_clock st) (new_comment u b) (a_db st)"
  let ?f = "\<lambda>c. c\<lparr>k_sentiment := Some (simpleSentiment (cb_text b)), k_quality := Some (simpleQuality (cb_text b))\<rparr>"
  let ?d2 = "snd (comment_update (api_clock st) (k_id (fst ?mk)) ?f (snd ?mk))"
  have ex: "extractMentions ?d2 (cb_text b) (cb_documentId b) = extractMentions (a_db st) (cb_text b) (cb_documentId b)"
    by (rule extractMentions_cong) simp_all
  have "map n_userId (notifications (a_db (notify_mentions u ty (cb_documentId b) c t (cb_text b) (st\<lparr>a_db := ?d2\<rparr>)))) =
      map n_userId (notifications (a_db st)) @ mentioned_users u (cb_text b) (cb_documentId b) (a_db st)" for ty c t
    by (simp add: notify_mentions_def mentioned_users_def ex notify_run)
  then show ?thesis
    using assms set_mentioned_users by (simp add: comments_create_def Let_def case_prod_beta)
qed

definition demo_user :: "string \<Rightarrow> string \<Rightarrow> user" where
  "demo_user i e = \<lparr>us_id = i, us_email = e, us_passwordHash = ''h'', us_name = None, us_emailVerifiedAt = None\<rparr>"

definition demo_body :: "string \<Rightarrow> comment_body" where
  "demo_body text = \<lparr>cb_documentId = ''d'', cb_text = text, cb_parentId = [], cb_threadId = [], cb_status = [],
     cb_tags = [], cb_priority = 0, cb_anchor = None\<rparr>"

definition demo_talk :: api where
  "demo_talk = demo_api\<lparr>a_db := demo_db\<lparr>users := [demo_user ''o'' ''o@x.org'', demo_user ''m'' ''m@x.org'',
     demo_user ''z'' ''z@x.org'']\<rparr>\<rparr>"

definition demo_author :: req_user where
  "demo_author = \<lparr>ru_id = Oid ''o'', ru_email = None, ru_share = None\<rparr>"

lemma mentions_notify_exactly_witness:
  "map n_userId (notifications (a_db (snd (comments_create demo_author
     (demo_body ''hi @M@x.org, @z@x.org and @o@x.org'') demo_talk)))) = [''m'']"
proof -
  have 1: "mentioned_users demo_author ''hi @M@x.org, @z@x.org and @o@x.org'' ''d'' (a_db demo_talk) = [''m'']"
    by code_simp
  have 2: "notifications (a_db demo_talk) = []"
    by (simp add: demo_talk_def demo_db_def empty_db_def)
  show ?thesis
    using mentions_notify_exactly [of "demo_body ''hi @M@x.org, @z@x.org and @o@x.org''" demo_author demo_talk] 1 2
    by (simp add: demo_body_def)
qed

end
