(* ===== verification/CommentProps.thy ===== *)
theory CommentProps
  imports Comments "HOL-Library.Multiset"
begin

text \<open>
  What the comments promise: who changes a comment, what a listing holds and in which order, what the
  analytics count; and what the endpoints do not check.
\<close>

section \<open>Changing a comment\<close>

lemma filter_update_row:
  "(\<And>x. P x \<Longrightarrow> P (g x)) \<Longrightarrow> filter (\<lambda>x. \<not> P x) (update_row P g xs) = filter (\<lambda>x. \<not> P x) xs"
  by (induction xs) auto

lemma comment_update_others:
  "filter (\<lambda>c. k_id c \<noteq> i) (comments (snd (comment_update now i f d))) = filter (\<lambda>c. k_id c \<noteq> i) (comments d)"
  by (simp add: comment_update_def Let_def filter_update_row)

lemma comment_update_rest: "(snd (comment_update now i f d))\<lparr>comments := comments d\<rparr> = d"
  by (simp add: comment_update_def Let_def)

text \<open>C32: editing and deleting: a request of anybody but the author is refused and changes nothing; one of the
  author changes no other comment and no other collection.\<close>

theorem author_alone_edits:
  assumes "r = comments_patch i u body st \<or> r = comments_remove i u st"
  shows "if \<exists>c. comment_findById i (a_db st) = Some c \<and> k_authorId c = id_text (ru_id u)
    then filter (\<lambda>c. k_id c \<noteq> i) (comments (a_db (snd r))) = filter (\<lambda>c. k_id c \<noteq> i) (comments (a_db st))
      \<and> (a_db (snd r))\<lparr>comments := comments (a_db st)\<rparr> = a_db st
    else (\<exists>e. fst r = Inl e) \<and> snd r = st"
proof (cases "owned_comment i u st")
  case (Inl e)
  then have no: "\<not> (\<exists>c. comment_findById i (a_db st) = Some c \<and> k_authorId c = id_text (ru_id u))"
    by (auto simp: owned_comment_def split: option.splits if_splits)
  with assms Inl show ?thesis
    by (auto simp: comments_patch_def comments_remove_def)
next
  case (Inr c)
  then have yes: "\<exists>c. comment_findById i (a_db st) = Some c \<and> k_authorId c = id_text (ru_id u)"
    by (auto simp: owned_comment_def split: option.splits if_splits)
  have "\<exists>f. a_db (snd r) = snd (comment_update (api_clock st) i f (a_db st))"
    using assms Inr
    by (auto simp: comments_patch_def comments_remove_def change_comment_def comment_softDelete_def
        Let_def case_prod_beta)
  with yes show ?thesis
    by (auto simp: comment_update_others comment_update_rest)
qed

definition demo_said :: api where
  "demo_said = snd (comments_create demo_author (demo_body ''hi'') demo_talk)"

lemma author_alone_edits_witness:
  "snd (comments_remove (k_id (hd (comments (a_db demo_said)))) \<lparr>ru_id = Oid ''m'', ru_email = None, ru_share = None\<rparr>
     demo_said) = demo_said"
proof -
  have "comments (a_db demo_said) \<noteq> [] \<and> k_authorId (hd (comments (a_db demo_said))) = ''o''"
    by code_simp
  then obtain c cs where c: "comments (a_db demo_said) = c # cs" "k_authorId c = ''o''"
    by (cases "comments (a_db demo_said)") auto
  show ?thesis
    using author_alone_edits [OF disjI2 [OF refl], where i = "k_id (hd (comments (a_db demo_said)))"
        and u = "\<lparr>ru_id = Oid ''m'', ru_email = None, ru_share = None\<rparr>" and st = demo_said] c
    by (simp add: comment_findById_def)
qed

text \<open>
  The author of a guest's comment is 24 hexadecimal digits, the guest's identifier on a request is
  \<open>guest:\<close> and the token: a guest cannot change an own comment.
\<close>

lemma guest_cannot_edit:
  assumes "ru_id u = Text (''guest:'' @ t)" and "ru_share u = Some g"
    and "comment_findById i (a_db st) = Some c" and "k_authorId c = resolveAuthorId u"
  shows "comments_patch i u body st = (Inl (Forbidden ''Not owner''), st)"
proof -
  have "CHR '':'' \<notin> set (resolveAuthorId u)"
  proof -
    have d: "CHR '':'' \<noteq> hex_digit n" if "n < 16" for n
    proof
      assume "CHR '':'' = hex_digit n"
      then have "of_char (CHR '':'') = (of_char (hex_digit n) :: nat)" by simp
      then show False using that by (simp add: hex_digit_def of_char_of split: if_splits)
    qed
    have "(of_char c :: nat) div 16 < 16" for c :: char
      using nat_of_char_less_256 [of c] by (simp add: div_less_iff_less_mult)
    then have "CHR '':'' \<notin> set (hex_of s)" for s
      using d [THEN not_sym] d by (auto simp: hex_of_def)
    then show ?thesis
      using assms(2) by (auto simp: resolveAuthorId_def Let_def dest!: in_set_takeD)
  qed
  then have "resolveAuthorId u \<noteq> id_text (ru_id u)"
    using assms(1) by auto
  with assms(3,4) show ?thesis
    by (simp add: comments_patch_def owned_comment_def)
qed

text \<open>The body of an edit is stored as it is: the author of a comment can approve it and give it away.\<close>

lemma author_approves_own:
  "map (\<lambda>c. (k_moderationStatus c, k_authorId c)) (comments (a_db (snd (comments_patch
     (k_id (hd (comments (a_db demo_said)))) demo_author
     [(''moderationStatus'', JStr ''approved''), (''authorId'', JStr ''m'')] demo_said)))) = [(''approved'', ''m'')]"
  by code_simp

text \<open>No endpoint asks whether the user may see the document.\<close>

lemma stranger_comments:
  "\<not> canAccessDoc (a_db demo_talk) ''z'' ''d'' \<and>
   map k_authorId (comments (a_db (snd (comments_create \<lparr>ru_id = Oid ''z'', ru_email = None, ru_share = None\<rparr>
     (demo_body ''hi'') demo_talk)))) = [''z'']"
  by code_simp

section \<open>Listings\<close>

text \<open>\<open>sort({ a, b })\<close> as a stable sort by the second key and then by the first.\<close>

lemma insort_lex:
  fixes f :: "'a \<Rightarrow> 'b::linorder" and g :: "'a \<Rightarrow> 'c::linorder"
  assumes "sorted_wrt (\<lambda>a b. f a < f b \<or> f a = f b \<and> g a \<le> g b) ys" and "\<forall>y \<in> set ys. g x \<le> g y"
  shows "sorted_wrt (\<lambda>a b. f a < f b \<or> f a = f b \<and> g a \<le> g b) (insort_key f x ys)"
  using assms by (induction ys) (auto simp: set_insort_key order.strict_iff_order)

lemma sort_key_lex:
  fixes f :: "'a \<Rightarrow> 'b::linorder" and g :: "'a \<Rightarrow> 'c::linorder"
  shows "sorted_wrt (\<lambda>a b. f a < f b \<or> f a = f b \<and> g a \<le> g b) (sort_key f (sort_key g xs))"
proof -
  have "sorted (map g ys) \<Longrightarrow> sorted_wrt (\<lambda>a b. f a < f b \<or> f a = f b \<and> g a \<le> g b) (sort_key f ys)" for ys
    by (induction ys) (simp_all add: insort_lex)
  then show ?thesis by simp
qed

lemma concat_pages: "concat (map (\<lambda>k. take n (drop (k * n) xs)) [0..<m]) = take (m * n) xs"
proof (induction m)
  case (Suc m)
  have "take (m * n) xs @ take n (drop (m * n) xs) = take (n + m * n) xs"
    by (simp only: take_add [symmetric] add.commute)
  with Suc show ?case by simp
qed simp

lemma listThreads_page:
  assumes "0 < n" and "n \<le> 200"
  shows "map fst (listThreads hit i s q (int k) (int n) d) = take n (drop k (thread_roots hit i s q d))"
proof -
  have "nat (max 0 (min 200 (int n))) = n" using assms by simp
  with assms show ?thesis by (simp add: listThreads_def Let_def comp_def)
qed

lemma listThreads_replies:
  assumes "(t, rs) \<in> set (listThreads hit i s q skip limit d)"
  shows "rs = sort_key k_createdAt (filter (\<lambda>r. k_threadId r = Some (k_id t) \<and> k_deletedAt r = None) (comments d))"
  using assms by (auto simp: listThreads_def Let_def filter_sort intro!: arg_cong [where f = "sort_key k_createdAt"] filter_cong)



section \<open>Analytics\<close>

lemma count_by_author_counts:
  "map_of (foldl (\<lambda>m c. map_put (k_authorId c) ((case map_of m (k_authorId c) of Some n \<Rightarrow> n | None \<Rightarrow> 0) + 1) m) m cs) a =
    (let k = int (length (filter (\<lambda>c. k_authorId c = a) cs))
     in case map_of m a of Some n \<Rightarrow> Some (n + k) | None \<Rightarrow> if k = 0 then None else Some k)"
proof (induction cs arbitrary: m)
  case Nil
  then show ?case by (simp split: option.split)
next
  case (Cons c cs)
  show ?case
    unfolding foldl.simps Cons.IH by (simp split: option.split)
qed

lemma map_of_count_by_author:
  "map_of (count_by_author cs) a =
     (let k = int (length (filter (\<lambda>c. k_authorId c = a) cs)) in if k = 0 then None else Some k)"
  by (simp add: count_by_author_def count_by_author_counts Let_def)

lemma distinct_count_by_author: "distinct (map fst (count_by_author cs))"
proof -
  have "distinct (map fst m) \<Longrightarrow> distinct (map fst (foldl (\<lambda>m c. map_put (k_authorId c)
      ((case map_of m (k_authorId c) of Some n \<Rightarrow> n | None \<Rightarrow> 0) + 1) m) m cs))" for m
    by (induction cs arbitrary: m) (simp_all add: distinct_put)
  from this [of "[]"] show ?thesis by (simp add: count_by_author_def)
qed

lemma in_count_by_author:
  "(a, k) \<in> set (count_by_author cs) \<longleftrightarrow> k = int (length (filter (\<lambda>c. k_authorId c = a) cs)) \<and> k \<noteq> 0"
  using map_of_eq_Some_iff [OF distinct_count_by_author, of cs a k]
  by (auto simp: map_of_count_by_author Let_def split: if_splits)

text \<open>the participants of the analytics are at most ten authors with the number of their comments, the busiest
  first, and nobody who is left out wrote more than one who is listed.\<close>

theorem busiest_authors_listed:
  "length (top_users cs) \<le> 10 \<and> distinct (map fst (top_users cs))
   \<and> sorted_wrt (\<lambda>p q. snd p \<ge> snd q) (top_users cs)
   \<and> (\<forall>(a, k) \<in> set (top_users cs). k = int (length (filter (\<lambda>c. k_authorId c = a) cs)))
   \<and> (\<forall>c \<in> set cs. k_authorId c \<notin> fst ` set (top_users cs) \<longrightarrow> length (top_users cs) = 10
        \<and> (\<forall>(a, k) \<in> set (top_users cs). int (length (filter (\<lambda>e. k_authorId e = k_authorId c) cs)) \<le> k))"
proof -
  let ?n = "\<lambda>a. int (length (filter (\<lambda>c. k_authorId c = a) cs))"
  let ?xs = "sort_key (\<lambda>p. - snd p) (count_by_author cs)"
  have in_xs: "(a, k) \<in> set ?xs \<longleftrightarrow> k = ?n a \<and> k \<noteq> 0" for a k
    by (simp add: in_count_by_author)
  have sorted: "sorted_wrt (\<lambda>p q. snd p \<ge> snd q) ?xs"
    using sorted_sort_key [of "\<lambda>p. - snd p" "count_by_author cs"] by (simp add: sorted_map)
  then have parts: "sorted_wrt (\<lambda>p q. snd p \<ge> snd q) (take 10 ?xs)"
    "\<forall>p \<in> set (take 10 ?xs). \<forall>q \<in> set (drop 10 ?xs). snd p \<ge> snd q"
    by (metis append_take_drop_id sorted_wrt_append)+
  have "distinct (map fst ?xs)"
  proof -
    have "mset (map fst ?xs) = mset (map fst (count_by_author cs))" by simp
    then show ?thesis using distinct_count_by_author by (metis mset_eq_imp_distinct_iff)
  qed
  then have "distinct (map fst (take 10 ?xs))"
    by (simp add: take_map [symmetric])
  moreover have "length (take 10 ?xs) = 10 \<and> (\<forall>(a, k) \<in> set (take 10 ?xs). ?n (k_authorId c) \<le> k)"
    if "c \<in> set cs" "k_authorId c \<notin> fst ` set (take 10 ?xs)" for c
  proof -
    have "?n (k_authorId c) \<noteq> 0"
      using that(1) by (auto simp: filter_empty_conv)
    then have "(k_authorId c, ?n (k_authorId c)) \<in> set (take 10 ?xs @ drop 10 ?xs)"
      by (simp only: append_take_drop_id in_xs) simp
    with that(2) have rest: "(k_authorId c, ?n (k_authorId c)) \<in> set (drop 10 ?xs)"
      by (auto simp del: append_take_drop_id simp: image_iff)
    then have "drop 10 ?xs \<noteq> []" by auto
    moreover have "?n (k_authorId c) \<le> k" if "(a, k) \<in> set (take 10 ?xs)" for a k
      using parts(2) that rest by (metis snd_conv)
    ultimately show ?thesis by auto
  qed
  ultimately show ?thesis
    using parts(1) in_xs by (auto simp: top_users_def dest: in_set_takeD)
qed

lemma busiest_authors_listed_witness:
  "k_authorId (hd (comments (a_db demo_said))) \<in> fst ` set (top_users (comments (a_db demo_said)))"
proof -
  have 1: "length (comments (a_db demo_said)) = 1"
    by code_simp
  have 2: "length (top_users (comments (a_db demo_said))) = 1"
    by code_simp
  show ?thesis
    using busiest_authors_listed [of "comments (a_db demo_said)"] 1 2
    by (cases "comments (a_db demo_said)") (auto split: prod.splits)
qed

lemma day_counts:
  "(\<Sum>i<n. day_count now i cs) = length (filter (\<lambda>c. day_start now 0 \<le> k_createdAt c \<and> k_createdAt c < day_start now n) cs)"
proof (induction n)
  case (Suc n)
  have s: "day_start now (Suc n) = day_start now n + day_ms" "day_start now 0 \<le> day_start now n"
    by (simp_all add: day_start_def day_ms_def algebra_simps)
  have "length (filter (\<lambda>c. day_start now 0 \<le> k_createdAt c \<and> k_createdAt c < day_start now (Suc n)) cs) =
      length (filter (\<lambda>c. day_start now 0 \<le> k_createdAt c \<and> k_createdAt c < day_start now n) cs)
      + length (filter (\<lambda>c. day_start now n \<le> k_createdAt c \<and> k_createdAt c < day_start now n + day_ms) cs)"
    using s(2) by (induction cs) (auto simp: s(1) day_ms_def)
  with Suc show ?case by (simp add: day_count_def)
qed simp

text \<open>the activity of the analytics: of comments that were all written before now, the first 29 days count each
  one of the last 29 days once, and the day of the answer, the last of the thirty, counts none: every
  comment is shown under the day before its own day ended.\<close>

theorem activity_counts_days_before:
  assumes "\<forall>c \<in> set cs. k_createdAt c < now"
  shows "(\<Sum>i<29. day_count now i cs) = length (filter (\<lambda>c. now - 29 * day_ms \<le> k_createdAt c) cs)
    \<and> day_count now 29 cs = 0"
proof
  have "(\<Sum>i<29. day_count now i cs) = length (filter (\<lambda>c. day_start now 0 \<le> k_createdAt c \<and> k_createdAt c < day_start now 29) cs)"
    by (rule day_counts)
  also have "filter (\<lambda>c. day_start now 0 \<le> k_createdAt c \<and> k_createdAt c < day_start now 29) cs =
      filter (\<lambda>c. now - 29 * day_ms \<le> k_createdAt c) cs"
    using assms by (intro filter_cong) (simp_all add: day_start_def)
  finally show "(\<Sum>i<29. day_count now i cs) = length (filter (\<lambda>c. now - 29 * day_ms \<le> k_createdAt c) cs)" .
  show "day_count now 29 cs = 0"
    using assms by (auto simp: day_count_def day_start_def filter_empty_conv)
qed

lemma activity_counts_days_before_witness:
  "day_count 5 29 (comments (a_db demo_said)) = 0"
proof -
  have "list_all (\<lambda>c. k_createdAt c < 5) (comments (a_db demo_said))"
    by code_simp
  then show ?thesis
    using activity_counts_days_before [of "comments (a_db demo_said)" 5] by (simp add: list_all_iff)
qed

end
