(* ===== verification/AuthKeys.thy ===== *)
theory AuthKeys
  imports MemoryCache
begin

text \<open>
  The keys the tokens are signed with: \<open>JwtKeysService\<close> (\<open>api/src/security/jwt-keys.service.ts\<close>) and
  \<open>SecretsService\<close> (\<open>api/src/secrets/secrets.service.ts\<close>). The package \<open>jsonwebtoken\<close> is the
  argument \<open>J\<close>: it signs, reads the key identifier of a token, and verifies a token against a secret at
  a time in seconds; \<open>jwt_laws\<close> says what its documentation promises. A new random secret is the
  argument \<open>rnd\<close> of the operation that may draw it. An exception is \<open>None\<close>.
\<close>

section \<open>Tokens\<close>

record claims =
  cl_sub :: string
  cl_iat :: int
  cl_exp :: int
  cl_type :: "string option"
  cl_jti :: "string option"
  cl_aud :: string
  cl_iss :: string

record 'j jwt =
  jw_sign :: "claims \<Rightarrow> string \<Rightarrow> string \<Rightarrow> 'j"
  jw_kid :: "'j \<Rightarrow> string option"
  jw_verify :: "int \<Rightarrow> 'j \<Rightarrow> string \<Rightarrow> claims option"

definition jwt_laws :: "'j jwt \<Rightarrow> bool" where
  "jwt_laws J \<longleftrightarrow>
     (\<forall>c secret kid. jw_kid J (jw_sign J c secret kid) = Some kid)
     \<and> (\<forall>now c secret kid secret'. jw_verify J now (jw_sign J c secret kid) secret' =
          (if secret' = secret \<and> now < cl_exp c then Some c else None))"

text \<open>A token that is its parts satisfies them.\<close>

definition plain_jwt :: "(claims \<times> string \<times> string) jwt" where
  "plain_jwt = \<lparr>jw_sign = (\<lambda>c secret kid. (c, secret, kid)), jw_kid = (\<lambda>t. Some (snd (snd t))),
     jw_verify = (\<lambda>now t secret. if secret = fst (snd t) \<and> now < cl_exp (fst t) then Some (fst t) else None)\<rparr>"

lemma plain_jwt_laws: "jwt_laws plain_jwt"
  by (simp add: jwt_laws_def plain_jwt_def)

section \<open>Secrets\<close>

text \<open>\<open>vars\<close> is the environment, an absent or empty variable being \<open>''''\<close>.\<close>

definition env_secret :: "(string \<Rightarrow> string) \<Rightarrow> string \<Rightarrow> string" where
  "env_secret vars name = vars name"

definition vault_secret :: "(string \<Rightarrow> string) \<Rightarrow> string \<Rightarrow> string" where
  "vault_secret vars name =
     (if vars (tmpl ''VAULT_'' name) \<noteq> [] then vars (tmpl ''VAULT_'' name) else vars name)"

definition secrets_get :: "(string \<Rightarrow> string) \<Rightarrow> string \<Rightarrow> string" where
  "secrets_get vars =
     (let mode = to_lower (if vars ''SECRETS_PROVIDER'' \<noteq> [] then vars ''SECRETS_PROVIDER'' else ''env'')
      in if mode = ''vault'' then vault_secret vars else env_secret vars)"

section \<open>The key store\<close>

record key_store =
  ks_current :: string
  ks_keys :: "(string \<times> (string \<times> int)) list"

definition ks_ns :: string where
  "ks_ns = ''jwt:keys''"

definition key_json :: "string \<times> (string \<times> int) \<Rightarrow> string \<times> json" where
  "key_json r = (fst r, JObj [(''secret'', JStr (fst (snd r))), (''createdAt'', JNum (snd (snd r)))])"

definition ks_json :: "key_store \<Rightarrow> json" where
  "ks_json ks = JObj [(''currentKid'', JStr (ks_current ks)), (''keys'', JObj (map key_json (ks_keys ks)))]"

definition key_of_json :: "string \<times> json \<Rightarrow> string \<times> (string \<times> int)" where
  "key_of_json p = (fst p, (jstr ''secret'' (snd p), jnum ''createdAt'' (snd p)))"

definition ks_of_json :: "json \<Rightarrow> key_store" where
  "ks_of_json j = \<lparr>ks_current = jstr ''currentKid'' j,
     ks_keys = (case jfield ''keys'' j of Some (JObj kvs) \<Rightarrow> map key_of_json kvs | _ \<Rightarrow> [])\<rparr>"

definition ks_load :: "redis \<Rightarrow> key_store" where
  "ks_load s = (case r_get ks_ns s of Some (Js j) \<Rightarrow> ks_of_json j | _ \<Rightarrow> \<lparr>ks_current = [], ks_keys = []\<rparr>)"

definition ks_save :: "key_store \<Rightarrow> redis \<Rightarrow> redis" where
  "ks_save ks s = r_set ks_ns (Js (ks_json ks)) s"

definition now_sec :: "redis \<Rightarrow> int" where
  "now_sec s = clock s div 1000"

definition ensureInitialized :: "(string \<Rightarrow> string) \<Rightarrow> string \<Rightarrow> redis \<Rightarrow> redis" where
  "ensureInitialized vars rnd s =
     (let store = ks_load s in
      if ks_current store \<noteq> [] then s
      else
        let bootstrap = (if secrets_get vars ''JWT_SECRET'' \<noteq> [] then secrets_get vars ''JWT_SECRET'' else rnd)
        in ks_save \<lparr>ks_current = ''k1'', ks_keys = map_put ''k1'' (bootstrap, now_sec s) (ks_keys store)\<rparr> s)"

definition next_kid :: "key_store \<Rightarrow> string" where
  "next_kid store = tmpl ''k'' (show_nat (length (ks_keys store) + 1))"

definition rotated :: "env \<Rightarrow> string \<Rightarrow> int \<Rightarrow> key_store \<Rightarrow> key_store" where
  "rotated E rnd now store =
     \<lparr>ks_current = next_kid store,
      ks_keys = filter (\<lambda>r. \<not> snd (snd r) < now - jwt_rotate_days E * 3 * 24 * 60 * 60)
                  (map_put (next_kid store) (rnd, now) (ks_keys store))\<rparr>"

definition ensureRotation :: "env \<Rightarrow> (string \<Rightarrow> string) \<Rightarrow> string \<Rightarrow> redis \<Rightarrow> redis" where
  "ensureRotation E vars rnd s =
     (let store = ks_load s in
      case map_of (ks_keys store) (ks_current store) of
        None \<Rightarrow> ensureInitialized vars rnd s
      | Some (secret, createdAt) \<Rightarrow>
          if now_sec s - createdAt \<ge> jwt_rotate_days E * (60 * 60 * 24)
          then ks_save (rotated E rnd (now_sec s) store) s else s)"

definition getCurrent :: "env \<Rightarrow> (string \<Rightarrow> string) \<Rightarrow> string \<Rightarrow> redis \<Rightarrow> (string \<times> string) option \<times> redis" where
  "getCurrent E vars rnd s =
     (let s1 = ensureRotation E vars rnd s; store = ks_load s1
      in (map_option (\<lambda>r. (ks_current store, fst r)) (map_of (ks_keys store) (ks_current store)), s1))"

definition getByKid :: "string \<Rightarrow> redis \<Rightarrow> string option" where
  "getByKid kid s = map_option fst (map_of (ks_keys (ks_load s)) kid)"

text \<open>\<open>sign\<close>: the expiry time the library adds is that of issue and \<open>ttlSec\<close>.\<close>

definition keys_sign ::
  "env \<Rightarrow> (string \<Rightarrow> string) \<Rightarrow> 'j jwt \<Rightarrow> string \<Rightarrow> string option \<Rightarrow> string option \<Rightarrow> int \<Rightarrow> string \<Rightarrow> int \<Rightarrow> redis \<Rightarrow>
   'j option \<times> redis" where
  "keys_sign E vars J rnd type jti iat subject ttlSec s =
     (let (cur, s1) = getCurrent E vars rnd s
      in (map_option (\<lambda>(kid, secret). jw_sign J
            \<lparr>cl_sub = subject, cl_iat = iat, cl_exp = iat + ttlSec, cl_type = type, cl_jti = jti,
             cl_aud = ''rce-web'', cl_iss = ''rce-api''\<rparr> secret kid) cur, s1))"

definition verify_current ::
  "env \<Rightarrow> (string \<Rightarrow> string) \<Rightarrow> 'j jwt \<Rightarrow> string \<Rightarrow> 'j \<Rightarrow> redis \<Rightarrow> claims option \<times> redis" where
  "verify_current E vars J rnd token s =
     (let (cur, s1) = getCurrent E vars rnd s
      in (Option.bind cur (\<lambda>(kid, secret). jw_verify J (now_sec s) token secret), s1))"

definition keys_verify ::
  "env \<Rightarrow> (string \<Rightarrow> string) \<Rightarrow> 'j jwt \<Rightarrow> string \<Rightarrow> 'j \<Rightarrow> redis \<Rightarrow> claims option \<times> redis" where
  "keys_verify E vars J rnd token s =
     (case jw_kid J token of
        Some kid \<Rightarrow>
          (if kid = [] then verify_current E vars J rnd token s
           else case getByKid kid s of
               Some secret \<Rightarrow> if secret \<noteq> [] then (jw_verify J (now_sec s) token secret, s)
                              else verify_current E vars J rnd token s
             | None \<Rightarrow> verify_current E vars J rnd token s)
      | None \<Rightarrow> verify_current E vars J rnd token s)"

section \<open>The store is read as it was written\<close>

lemma ks_of_json_json [simp]: "ks_of_json (ks_json ks) = ks"
proof -
  have "key_of_json \<circ> key_json = id"
    by (simp add: fun_eq_iff key_json_def key_of_json_def jstr_def jnum_def)
  then show ?thesis
    by (simp add: ks_of_json_def ks_json_def jstr_def)
qed

lemma ks_load_save [simp]: "ks_load (ks_save ks s) = ks"
  by (simp add: ks_load_def ks_save_def key_simps)

lemma ks_save_clock [simp]: "clock (ks_save ks s) = clock s" "now_sec (ks_save ks s) = now_sec s"
  by (simp_all add: ks_save_def now_sec_def)

lemma ks_save_other: "k \<noteq> ks_ns \<Longrightarrow> entry (ks_save ks s) k = entry s k"
  by (simp add: ks_save_def key_simps)

lemma ks_load_cong: "entry s ks_ns = entry s' ks_ns \<Longrightarrow> ks_load s = ks_load s'"
  by (simp add: ks_load_def r_get_def)

lemma ensureRotation_other: "k \<noteq> ks_ns \<Longrightarrow> entry (ensureRotation E vars rnd s) k = entry s k"
  by (simp add: ensureRotation_def ensureInitialized_def ks_save_other Let_def split: option.split)

lemma ensureRotation_clock [simp]:
  "clock (ensureRotation E vars rnd s) = clock s" "now_sec (ensureRotation E vars rnd s) = now_sec s"
  by (simp_all add: ensureRotation_def ensureInitialized_def now_sec_def Let_def split: option.split)

section \<open>Rotation\<close>

text \<open>The store as it is until a key is dropped: \<open>k1\<close>, \<open>k2\<close> and so on, the last one current.\<close>

definition numbered :: "key_store \<Rightarrow> bool" where
  "numbered ks \<longleftrightarrow> ks_keys ks \<noteq> []
     \<and> map fst (ks_keys ks) = map (\<lambda>i. tmpl ''k'' (show_nat i)) [1..<length (ks_keys ks) + 1]
     \<and> ks_current ks = tmpl ''k'' (show_nat (length (ks_keys ks)))"

lemma map_put_new: "k \<notin> fst ` set m \<Longrightarrow> map_put k v m = m @ [(k, v)]"
  by (induction m) auto

lemma next_kid_new: "numbered ks \<Longrightarrow> next_kid ks \<notin> fst ` set (ks_keys ks)"
proof -
  assume n: "numbered ks"
  have "set (map fst (ks_keys ks)) = (\<lambda>i. tmpl ''k'' (show_nat i)) ` {1..<length (ks_keys ks) + 1}"
    using n unfolding numbered_def by (metis set_map set_upt)
  then show ?thesis by (auto simp: next_kid_def)
qed

lemma rotated_numbered:
  assumes "numbered ks" and "\<forall>(k, (secret, t)) \<in> set (ks_keys ks). now - jwt_rotate_days E * 3 * 24 * 60 * 60 \<le> t"
    and "0 \<le> jwt_rotate_days E"
  shows "numbered (rotated E rnd now ks)"
    and "ks_keys (rotated E rnd now ks) = ks_keys ks @ [(next_kid ks, (rnd, now))]"
proof -
  show 1: "ks_keys (rotated E rnd now ks) = ks_keys ks @ [(next_kid ks, (rnd, now))]"
    using assms(2,3) by (auto simp: rotated_def map_put_new [OF next_kid_new [OF assms(1)]] filter_id_conv)
  show "numbered (rotated E rnd now ks)"
    using assms(1) by (simp add: numbered_def 1) (simp add: rotated_def next_kid_def)
qed

lemma ensureRotation_numbered:
  assumes "numbered (ks_load s)"
    and "\<forall>(k, (secret, t)) \<in> set (ks_keys (ks_load s)). now_sec s - jwt_rotate_days E * 3 * 24 * 60 * 60 \<le> t"
    and "0 \<le> jwt_rotate_days E"
  shows "numbered (ks_load (ensureRotation E vars rnd s))"
    and "\<exists>new. ks_keys (ks_load (ensureRotation E vars rnd s)) = ks_keys (ks_load s) @ new"
proof -
  have "ks_current (ks_load s) \<noteq> []"
    using assms(1) by (simp add: numbered_def tmpl_def)
  then have "ks_load (ensureRotation E vars rnd s) = ks_load s
      \<or> ks_load (ensureRotation E vars rnd s) = rotated E rnd (now_sec s) (ks_load s)"
    by (auto simp: ensureRotation_def ensureInitialized_def Let_def split: option.split)
  then show "numbered (ks_load (ensureRotation E vars rnd s))"
    "\<exists>new. ks_keys (ks_load (ensureRotation E vars rnd s)) = ks_keys (ks_load s) @ new"
    using assms(1) rotated_numbered [OF assms] by auto
qed

text \<open>C38: rotation: as long as no key is old enough to be dropped, the check of the age of the current key keeps
  the store numbered without a gap, and every token signed with one of its keys is still accepted after
  it, whether it added a key or not.\<close>

theorem tokens_survive_rotation:
  assumes "jwt_laws J" and "numbered (ks_load s)"
    and "\<forall>(k, (secret, t)) \<in> set (ks_keys (ks_load s)). now_sec s - jwt_rotate_days E * 3 * 24 * 60 * 60 \<le> t"
    and "0 \<le> jwt_rotate_days E"
    and "getByKid kid s = Some secret" and "secret \<noteq> []" and "now_sec s < cl_exp c"
  shows "numbered (ks_load (ensureRotation E vars rnd s))
    \<and> fst (keys_verify E vars J rnd' (jw_sign J c secret kid) (ensureRotation E vars rnd s)) = Some c"
proof
  show "numbered (ks_load (ensureRotation E vars rnd s))"
    by (rule ensureRotation_numbered [OF assms(2-4)])
  obtain new where new: "ks_keys (ks_load (ensureRotation E vars rnd s)) = ks_keys (ks_load s) @ new"
    using ensureRotation_numbered(2) [OF assms(2-4)] by blast
  have "map_of (ks_keys (ks_load s)) kid \<noteq> None"
    using assms(5) by (auto simp: getByKid_def)
  then have k: "getByKid kid (ensureRotation E vars rnd s) = Some secret"
    using assms(5) by (auto simp: getByKid_def new map_add_def split: option.split)
  have "kid \<noteq> []"
  proof
    assume "kid = []"
    then have "[] \<in> set (map fst (ks_keys (ks_load s)))"
      using assms(5) by (force simp: getByKid_def dest: map_of_SomeD)
    then have "[] \<in> (\<lambda>i. tmpl ''k'' (show_nat i)) ` {1..<length (ks_keys (ks_load s)) + 1}"
      using assms(2) unfolding numbered_def by (metis set_map set_upt)
    then show False by (auto simp: tmpl_def)
  qed
  with k show "fst (keys_verify E vars J rnd' (jw_sign J c secret kid) (ensureRotation E vars rnd s)) = Some c"
    using assms(1,6,7) by (simp add: keys_verify_def jwt_laws_def)
qed

definition demo_keys :: redis where
  "demo_keys = ensureInitialized (\<lambda>_. []) ''s1'' (empty_redis 1000)"

definition demo_claims :: claims where
  "demo_claims = \<lparr>cl_sub = ''u'', cl_iat = 1, cl_exp = 9000000, cl_type = None, cl_jti = None, cl_aud = ''rce-web'',
     cl_iss = ''rce-api''\<rparr>"

lemma demo_keys_saved:
  "demo_keys = ks_save \<lparr>ks_current = ''k1'', ks_keys = [(''k1'', (''s1'', 1))]\<rparr> (empty_redis 1000)"
proof -
  have "entry (empty_redis 1000) ks_ns = None"
    by (simp add: entry_def empty_redis_def)
  then have "ks_load (empty_redis 1000) = \<lparr>ks_current = [], ks_keys = []\<rparr>"
    by (simp add: ks_load_def r_get_def)
  moreover have "secrets_get (\<lambda>_. []) ''JWT_SECRET'' = []"
    by (simp add: secrets_get_def env_secret_def vault_secret_def Let_def)
  moreover have "now_sec (empty_redis 1000) = 1"
    by (simp add: now_sec_def empty_redis_def)
  ultimately show ?thesis
    by (simp add: demo_keys_def ensureInitialized_def)
qed

lemma tokens_survive_rotation_witness:
  "fst (keys_verify default_env (\<lambda>_. []) plain_jwt ''x'' (jw_sign plain_jwt demo_claims ''s1'' ''k1'')
     (ensureRotation default_env (\<lambda>_. []) ''s2'' (tick 2678400000 demo_keys))) = Some demo_claims"
proof -
  let ?s = "tick 2678400000 demo_keys"
  have "entry ?s ks_ns = entry demo_keys ks_ns"
    by (simp add: demo_keys_saved entry_tick) (simp add: ks_save_def key_simps)
  then have "ks_load ?s = ks_load demo_keys"
    by (rule ks_load_cong)
  then have l: "ks_load ?s = \<lparr>ks_current = ''k1'', ks_keys = [(''k1'', (''s1'', 1))]\<rparr>"
    by (simp add: demo_keys_saved)
  have n: "now_sec ?s = 2678401"
    by (simp add: now_sec_def demo_keys_saved) (simp add: empty_redis_def)
  have m: "numbered \<lparr>ks_current = ''k1'', ks_keys = [(''k1'', (''s1'', 1))]\<rparr>"
    by code_simp
  show ?thesis
    by (rule conjunct2 [OF tokens_survive_rotation [OF plain_jwt_laws]])
      (simp_all add: l n m getByKid_def demo_claims_def default_env_def)
qed

text \<open>
  The identifier of a new key is the number of keys and one. After the first keys were dropped it is
  taken: with the default period the fifth rotation puts its secret over the one the tokens of the
  month before were signed with, and a token of the same day is refused.
\<close>

definition month_passes :: "string \<Rightarrow> redis \<Rightarrow> redis" where
  "month_passes rnd s = ensureRotation default_env (\<lambda>_. []) rnd (tick (30 * 86400000) s)"

lemma fifth_rotation_overwrites:
  "let s4 = fold month_passes [''s2'', ''s3'', ''s4'', ''s5''] demo_keys; s5 = month_passes ''s6'' s4
   in ks_current (ks_load s4) = ''k5'' \<and> getByKid ''k5'' s4 = Some ''s5'' \<and>
      ks_current (ks_load s5) = ''k5'' \<and> getByKid ''k5'' s5 = Some ''s6'' \<and>
      fst (keys_verify default_env (\<lambda>_. []) plain_jwt ''x''
        (jw_sign plain_jwt (demo_claims\<lparr>cl_exp := 99999999\<rparr>) ''s5'' ''k5'') s5) = None"
  by code_simp

end
