(* ===== verification/Auth.thy ===== *)
theory Auth
  imports AuthKeys Documents
begin

text \<open>
  Signing in: \<open>AuthService\<close> (\<open>api/src/auth/auth.service.ts\<close>), \<open>AuthController\<close>
  (\<open>api/src/auth/auth.controller.ts\<close>) and \<open>AuthGuard\<close> (\<open>api/src/auth/auth.guard.ts\<close>), with
  \<open>verifyCaptcha\<close> and \<open>hashPassword\<close> of \<open>api/src/common\<close>. The packages are the argument \<open>A\<close>:
  \<open>jsonwebtoken\<close>, \<open>bcryptjs\<close> (\<open>compare\<close> and \<open>hash\<close>) and \<open>otplib\<close>; the random values an operation draws
  are arguments too. The identifiers of users are their texts, also where a row's \<open>_id\<close> is passed to
  the token library.
\<close>

section \<open>Packages, requests, results\<close>

record 'j auth_lib =
  al_jwt :: "'j jwt"
  al_compare :: "string \<Rightarrow> string \<Rightarrow> bool"
  al_hash :: "int \<Rightarrow> string \<Rightarrow> string"
  al_totp :: "string \<Rightarrow> string \<Rightarrow> bool"

definition bcrypt_laws :: "'j auth_lib \<Rightarrow> bool" where
  "bcrypt_laws A \<longleftrightarrow> (\<forall>rounds p q. (al_compare A p (al_hash A rounds q) \<longleftrightarrow> p = q) \<and> al_hash A rounds q \<noteq> [])"

record conn =
  cn_forwarded :: string
  cn_remote :: string
  cn_ua :: "string option"

definition client_ip :: "conn \<Rightarrow> string" where
  "client_ip c = (if cn_forwarded c \<noteq> [] then cn_forwarded c
     else if cn_remote c \<noteq> [] then cn_remote c else ''ip-unknown'')"

definition log_ip :: "conn \<Rightarrow> (string \<times> json) list" where
  "log_ip c = (let a = (if cn_forwarded c \<noteq> [] then cn_forwarded c else cn_remote c)
     in if a \<noteq> [] then [(''ip'', JStr a)] else [])"

record 'j token_pair =
  tp_access :: 'j
  tp_refresh :: 'j
  tp_id :: string

record 'j cookie =
  ck_value :: 'j
  ck_secure :: bool
  ck_sameSite :: string
  ck_maxAge :: int

definition refresh_cookie :: "(string \<Rightarrow> string) \<Rightarrow> 'j \<Rightarrow> int \<Rightarrow> 'j cookie" where
  "refresh_cookie vars token maxAge =
     (let isProd = (vars ''NODE_ENV'' = ''production'')
      in \<lparr>ck_value = token, ck_secure = isProd, ck_sameSite = (if isProd then ''none'' else ''lax''), ck_maxAge = maxAge\<rparr>)"

definition getBcryptCost :: "(string \<Rightarrow> int option) \<Rightarrow> (string \<Rightarrow> string) \<Rightarrow> int" where
  "getBcryptCost num vars =
     (let v = (if vars ''BCRYPT_COST'' \<noteq> [] then vars ''BCRYPT_COST''
               else if vars ''PASSWORD_SALT_ROUNDS'' \<noteq> [] then vars ''PASSWORD_SALT_ROUNDS'' else ''12'')
      in case num v of Some n \<Rightarrow> if n \<ge> 12 then n else 12 | None \<Rightarrow> 12)"

definition hashPassword :: "'j auth_lib \<Rightarrow> (string \<Rightarrow> int option) \<Rightarrow> (string \<Rightarrow> string) \<Rightarrow> string \<Rightarrow> string" where
  "hashPassword A num vars plain = al_hash A (getBcryptCost num vars) plain"

definition verifyCaptcha :: "env \<Rightarrow> string \<Rightarrow> bool" where
  "verifyCaptcha E token =
     (if captcha_enabled E = [] then True
      else if captcha_test_mode E = ''true'' then token = ''pass'' else False)"

section \<open>AuthService\<close>

definition refreshKey :: "string \<Rightarrow> string" where
  "refreshKey jti = tmpl ''refresh:'' jti"

definition sessionKey :: "string \<Rightarrow> string" where
  "sessionKey jti = tmpl ''session:'' jti"

definition userSessionsKey :: "string \<Rightarrow> string" where
  "userSessionsKey userId = tmpl ''user-sessions:'' userId"

definition verifyKey :: "string \<Rightarrow> string" where
  "verifyKey token = tmpl ''verify:'' token"

definition resetKey :: "string \<Rightarrow> string" where
  "resetKey token = tmpl ''reset:'' token"

definition validateUser :: "'j auth_lib \<Rightarrow> string \<Rightarrow> string \<Rightarrow> db \<Rightarrow> user option" where
  "validateUser A email password d = (case user_findByEmail (to_lower (js_trim email)) d of
     None \<Rightarrow> None
   | Some u \<Rightarrow> if al_compare A password (us_passwordHash u) then Some u else None)"

definition session_meta :: "string \<Rightarrow> string \<Rightarrow> string \<Rightarrow> string option \<Rightarrow> int \<Rightarrow> json" where
  "session_meta userId jti ip ua now =
     JObj ([(''userId'', JStr userId), (''jti'', JStr jti), (''ip'', JStr ip)]
       @ (case ua of Some a \<Rightarrow> [(''ua'', JStr a)] | None \<Rightarrow> [])
       @ [(''createdAt'', JNum now), (''lastRotatedAt'', JNum now)])"

definition track_session :: "string \<Rightarrow> string \<Rightarrow> int \<Rightarrow> string \<Rightarrow> string option \<Rightarrow> redis \<Rightarrow> redis" where
  "track_session userId jti ttl ip ua s =
     (let s1 = cache_setJson (refreshKey jti) (JObj [(''userId'', JStr userId), (''jti'', JStr jti)]) ttl s;
          s2 = cache_setJson (sessionKey jti) (session_meta userId jti ip ua (clock s)) ttl s1;
          s3 = snd (r_sadd (userSessionsKey userId) jti s2)
      in r_expire (userSessionsKey userId) ttl s3)"

text \<open>\<open>rnd\<close> gives the secrets a rotation may draw, \<open>jti\<close> is the new identifier; \<open>None\<close> is an exception.\<close>

definition generateTokenPair ::
  "env \<Rightarrow> (string \<Rightarrow> string) \<Rightarrow> 'j auth_lib \<Rightarrow> (nat \<Rightarrow> string) \<Rightarrow> string \<Rightarrow> string \<Rightarrow> int option \<Rightarrow> string \<Rightarrow>
   string option \<Rightarrow> redis \<Rightarrow> 'j token_pair option \<times> redis" where
  "generateTokenPair E vars A rnd jti userId refreshTtlSec ip ua s =
     (let ttl = (case refreshTtlSec of Some n \<Rightarrow> n | None \<Rightarrow> jwt_refresh_ttl E);
          (acc, s1) = keys_sign E vars (al_jwt A) (rnd 0) None None (now_sec s) userId (jwt_access_ttl E) s
      in case acc of
           None \<Rightarrow> (None, s1)
         | Some accessToken \<Rightarrow>
             let (ref, s2) = keys_sign E vars (al_jwt A) (rnd 1) (Some ''refresh'') (Some jti) (now_sec s) userId ttl s1
             in case ref of
                  None \<Rightarrow> (None, s2)
                | Some refreshToken \<Rightarrow>
                    (Some \<lparr>tp_access = accessToken, tp_refresh = refreshToken, tp_id = jti\<rparr>,
                     track_session userId jti ttl ip ua s2))"

definition forget_session :: "string \<Rightarrow> string \<Rightarrow> redis \<Rightarrow> redis" where
  "forget_session userId jti s =
     r_srem (userSessionsKey userId) jti (cache_del (sessionKey jti) (cache_del (refreshKey jti) s))"

definition pair_or_crash :: "'a option \<times> redis \<Rightarrow> (api_error + 'a) \<times> redis" where
  "pair_or_crash r = (case fst r of Some p \<Rightarrow> Inr p | None \<Rightarrow> Inl (Crash ''no signing key''), snd r)"

definition rotateRefreshToken ::
  "env \<Rightarrow> (string \<Rightarrow> string) \<Rightarrow> 'j auth_lib \<Rightarrow> (nat \<Rightarrow> string) \<Rightarrow> string \<Rightarrow> 'j \<Rightarrow> string \<Rightarrow> string option \<Rightarrow> redis \<Rightarrow>
   (api_error + 'j token_pair) \<times> redis" where
  "rotateRefreshToken E vars A rnd jti oldToken ip ua s =
     (let (payload, s1) = keys_verify E vars (al_jwt A) (rnd 2) oldToken s
      in case payload of
           None \<Rightarrow> (Inl (Crash ''jwt''), s1)
         | Some p \<Rightarrow>
             let old = (case cl_jti p of Some j \<Rightarrow> j | None \<Rightarrow> [])
             in if cl_type p \<noteq> Some ''refresh'' \<or> old = [] then (Inl (Unauthorized ''Invalid token''), s1)
                else if cache_getJson (refreshKey old) s1 = None then (Inl (Unauthorized ''Refresh expired''), s1)
                else pair_or_crash (generateTokenPair E vars A rnd jti (cl_sub p) None ip ua
                       (forget_session (cl_sub p) old s1)))"

definition revokeRefresh :: "string \<Rightarrow> redis \<Rightarrow> redis" where
  "revokeRefresh jti s =
     (let s1 = cache_del (refreshKey jti) s;
          session = cache_getJson (sessionKey jti) s1;
          s2 = cache_del (sessionKey jti) s1;
          userId = (case session of Some j \<Rightarrow> jstr ''userId'' j | None \<Rightarrow> [])
      in if userId \<noteq> [] then r_srem (userSessionsKey userId) jti s2 else s2)"

definition newEmailVerificationToken :: "string \<Rightarrow> string \<Rightarrow> redis \<Rightarrow> redis" where
  "newEmailVerificationToken token userId s = cache_setJson (verifyKey token) (JObj [(''userId'', JStr userId)]) 86400 s"

definition consume_token :: "string \<Rightarrow> redis \<Rightarrow> string option \<times> redis" where
  "consume_token key s = (case cache_getJson key s of
     None \<Rightarrow> (None, s) | Some j \<Rightarrow> (Some (jstr ''userId'' j), cache_del key s))"

definition consumeEmailVerificationToken :: "string \<Rightarrow> redis \<Rightarrow> string option \<times> redis" where
  "consumeEmailVerificationToken token s = consume_token (verifyKey token) s"

definition newPasswordResetToken :: "string \<Rightarrow> string \<Rightarrow> redis \<Rightarrow> redis" where
  "newPasswordResetToken token userId s = cache_setJson (resetKey token) (JObj [(''userId'', JStr userId)]) 1800 s"

definition consumePasswordResetToken :: "string \<Rightarrow> redis \<Rightarrow> string option \<times> redis" where
  "consumePasswordResetToken token s = consume_token (resetKey token) s"

section \<open>AuthGuard\<close>

definition share_key :: "string \<Rightarrow> string" where
  "share_key token = tmpl ''share:link:'' token"

definition grant_of :: "string \<Rightarrow> json \<Rightarrow> share_grant" where
  "grant_of token rec = \<lparr>sg_token = token, sg_documentId = jstr ''documentId'' rec, sg_role = jstr ''role'' rec,
     sg_anonymousComment = truthy (jfield ''allowAnonymousComment'' rec)\<rparr>"

definition guest_of :: "string \<Rightarrow> json \<Rightarrow> req_user" where
  "guest_of token rec = \<lparr>ru_id = Text (''guest:'' @ token), ru_email = None, ru_share = Some (grant_of token rec)\<rparr>"

text \<open>\<open>secret\<close> is \<open>process.env.JWT_SECRET || 'changeme'\<close>; absent headers and parameters are \<open>''''\<close>.\<close>

definition guard_secret :: "(string \<Rightarrow> string) \<Rightarrow> string" where
  "guard_secret vars = (if vars ''JWT_SECRET'' \<noteq> [] then vars ''JWT_SECRET'' else ''changeme'')"

definition guard_share :: "'j auth_lib \<Rightarrow> string \<Rightarrow> string \<Rightarrow> redis \<Rightarrow> api_error + req_user" where
  "guard_share A shareToken pass s =
     (if shareToken = [] then Inl (Unauthorized ''Missing bearer token'')
      else case r_get (share_key shareToken) s of
          Some (Js rec) \<Rightarrow>
            (let h = jstr ''passwordHash'' rec in
             if h \<noteq> [] \<and> pass = [] then Inl (Unauthorized ''Share password required'')
             else if h \<noteq> [] \<and> \<not> al_compare A pass h then Inl (Unauthorized ''Invalid share password'')
             else Inr (guest_of shareToken rec))
        | _ \<Rightarrow> Inl (Unauthorized ''Invalid or expired token''))"

definition auth_guard ::
  "(string \<Rightarrow> string) \<Rightarrow> 'j auth_lib \<Rightarrow> 'j option \<Rightarrow> string \<Rightarrow> string \<Rightarrow> api \<Rightarrow> api_error + req_user" where
  "auth_guard vars A bearer shareToken pass st = (case bearer of
     None \<Rightarrow> guard_share A shareToken pass (a_redis st)
   | Some token \<Rightarrow>
       (case jw_verify (al_jwt A) (now_sec (a_redis st)) token (guard_secret vars) of
          None \<Rightarrow> Inl (Unauthorized ''Invalid or expired token'')
        | Some p \<Rightarrow>
            (case user_findById (cl_sub p) (a_db st) of
               None \<Rightarrow> Inl (Unauthorized ''Invalid or expired token'')
             | Some u \<Rightarrow> Inr \<lparr>ru_id = Oid (us_id u), ru_email = Some (us_email u), ru_share = None\<rparr>)))"

section \<open>AuthController\<close>

record login_body =
  lb_email :: string
  lb_password :: string
  lb_otp :: string
  lb_rememberMe :: bool
  lb_captcha :: string

definition login_key :: "string \<Rightarrow> string \<Rightarrow> string" where
  "login_key email ip = tmpl ''login:'' (email @ '':'' @ ip)"

definition account_lock :: "string \<Rightarrow> string" where
  "account_lock email = tmpl ''lock:'' email"

definition login_is_admin :: "env \<Rightarrow> string \<Rightarrow> bool" where
  "login_is_admin E email \<longleftrightarrow> to_lower email \<in> set (map (\<lambda>e. to_lower (js_trim e)) (split_on (CHR '','') (admin_emails E)))"

definition mfa_passes :: "env \<Rightarrow> 'j auth_lib \<Rightarrow> string \<Rightarrow> string \<Rightarrow> bool" where
  "mfa_passes E A email otp \<longleftrightarrow>
     (login_is_admin E email \<longrightarrow> otp \<noteq> [] \<and> mfa_totp_secret E \<noteq> [] \<and> al_totp A otp (mfa_totp_secret E))"

definition fail_login :: "env \<Rightarrow> login_body \<Rightarrow> string \<Rightarrow> api \<Rightarrow> (api_error + 'r) \<times> api" where
  "fail_login E b ip st =
     (Inl (Unauthorized ''Invalid credentials''),
      with_redis (sec_log E ''auth.login.failed'' [(''email'', JStr (lb_email b)), (''ip'', JStr ip)]) st)"

definition login_attempt ::
  "env \<Rightarrow> (string \<Rightarrow> string) \<Rightarrow> 'j auth_lib \<Rightarrow> (nat \<Rightarrow> string) \<Rightarrow> string \<Rightarrow> login_body \<Rightarrow> conn \<Rightarrow> api \<Rightarrow>
   (api_error + ('j token_pair \<times> user \<times> 'j cookie)) \<times> api" where
  "login_attempt E vars A rnd jti b c st =
     (let ip = client_ip c in
      case validateUser A (lb_email b) (lb_password b) (a_db st) of
        None \<Rightarrow> fail_login E b ip st
      | Some u \<Rightarrow>
          if \<not> mfa_passes E A (us_email u) (lb_otp b)
          then fail_login E b ip (with_redis (sec_log E ''auth.mfa.failed'' [(''email'', JStr (us_email u)), (''ip'', JStr ip)]) st)
          else
            let (pair, s1) = generateTokenPair E vars A rnd jti (us_id u)
                               (if lb_rememberMe b then Some 2592000 else None) ip (cn_ua c) (a_redis st)
            in case pair of
                 None \<Rightarrow> fail_login E b ip (st\<lparr>a_redis := s1\<rparr>)
               | Some p \<Rightarrow>
                   (Inr (p, u, refresh_cookie vars (tp_refresh p) (if lb_rememberMe b then 2592000000 else 604800000)),
                    st\<lparr>a_redis := sec_log E ''auth.login.success''
                      [(''userId'', JStr (us_id u)), (''email'', JStr (us_email u)), (''ip'', JStr ip)]
                      (cache_del (login_key (lb_email b) ip) s1)\<rparr>))"

definition login ::
  "env \<Rightarrow> (string \<Rightarrow> string) \<Rightarrow> 'j auth_lib \<Rightarrow> (nat \<Rightarrow> string) \<Rightarrow> string \<Rightarrow> login_body \<Rightarrow> conn \<Rightarrow> api \<Rightarrow>
   (api_error + ('j token_pair \<times> user \<times> 'j cookie)) \<times> api" where
  "login E vars A rnd jti b c st =
     (let ip = client_ip c; who = [(''email'', JStr (lb_email b)), (''ip'', JStr ip)] in
      if truthy (cache_getJson (account_lock (lb_email b)) (a_redis st))
      then (Inl (Unauthorized ''Account locked. Try again later''), st)
      else
        let (attempts, s1) = cache_incr (login_key (lb_email b) ip) (Some 60) (a_redis st)
        in if attempts > 5
           then (Inl (Unauthorized ''Too many attempts, account temporarily locked''),
                 st\<lparr>a_redis := sec_log E ''auth.lockout'' who (cache_setJson (account_lock (lb_email b)) (JNum 1) 600 s1)\<rparr>)
           else if attempts > 3 \<and> captcha_enabled E \<noteq> [] \<and> \<not> verifyCaptcha E (lb_captcha b)
           then (Inl (Unauthorized ''Captcha verification required''),
                 st\<lparr>a_redis := sec_log E ''auth.captcha.required'' who s1\<rparr>)
           else login_attempt E vars A rnd jti b c (st\<lparr>a_redis := s1\<rparr>))"

text \<open>\<open>cookie\<close> is the refresh token of the request, if it has one.\<close>

definition auth_refresh ::
  "env \<Rightarrow> (string \<Rightarrow> string) \<Rightarrow> 'j auth_lib \<Rightarrow> (nat \<Rightarrow> string) \<Rightarrow> string \<Rightarrow> 'j option \<Rightarrow> conn \<Rightarrow> api \<Rightarrow>
   (api_error + ('j \<times> 'j cookie)) \<times> api" where
  "auth_refresh E vars A rnd jti cookie c st = (case cookie of
     None \<Rightarrow> (Inl (Unauthorized ''Missing refresh token''), st)
   | Some token \<Rightarrow>
       (case rotateRefreshToken E vars A rnd jti token (client_ip c) (cn_ua c) (a_redis st) of
          (Inl e, s1) \<Rightarrow> (Inl e, st\<lparr>a_redis := s1\<rparr>)
        | (Inr p, s1) \<Rightarrow>
            (Inr (tp_access p, refresh_cookie vars (tp_refresh p) 604800000),
             st\<lparr>a_redis := sec_log E ''auth.refresh'' (log_ip c) s1\<rparr>)))"

text \<open>The cookie is cleared whatever happens; the token is checked with the secret of \<open>AuthGuard\<close>.\<close>

definition auth_logout ::
  "env \<Rightarrow> (string \<Rightarrow> string) \<Rightarrow> 'j auth_lib \<Rightarrow> 'j option \<Rightarrow> conn \<Rightarrow> api \<Rightarrow> api" where
  "auth_logout E vars A cookie c st =
     (let revoke = (case cookie of
            None \<Rightarrow> (\<lambda>s. s)
          | Some token \<Rightarrow>
              (case jw_verify (al_jwt A) (now_sec (a_redis st)) token (guard_secret vars) of
                 Some p \<Rightarrow> (case cl_jti p of Some j \<Rightarrow> if j \<noteq> [] then revokeRefresh j else (\<lambda>s. s) | None \<Rightarrow> (\<lambda>s. s))
               | None \<Rightarrow> (\<lambda>s. s)))
      in with_redis (\<lambda>s. sec_log E ''auth.logout'' (log_ip c) (revoke s)) st)"

text \<open>\<open>digits\<close> is the random password of a new account.\<close>

definition auth_oauth ::
  "env \<Rightarrow> (string \<Rightarrow> string) \<Rightarrow> (string \<Rightarrow> int option) \<Rightarrow> 'j auth_lib \<Rightarrow> (nat \<Rightarrow> string) \<Rightarrow> string \<Rightarrow> string \<Rightarrow>
   string \<Rightarrow> string \<Rightarrow> string option \<Rightarrow> conn \<Rightarrow> api \<Rightarrow> (api_error + ('j token_pair \<times> user \<times> 'j cookie)) \<times> api" where
  "auth_oauth E vars num A rnd jti digits provider bodyEmail name c st =
     (let email = to_lower (js_trim bodyEmail);
          found = (case user_findByEmail email (a_db st) of
             Some u \<Rightarrow> Some (u, a_db st)
           | None \<Rightarrow> user_create email (hashPassword A num vars digits) name (a_db st))
      in case found of
           None \<Rightarrow> (Inl (Crash ''duplicate key''), st)
         | Some (u, d1) \<Rightarrow>
             let (pair, s1) = generateTokenPair E vars A rnd jti (us_id u) None (client_ip c) (cn_ua c) (a_redis st)
             in case pair of
                  None \<Rightarrow> (Inl (Crash ''no signing key''), st\<lparr>a_db := d1, a_redis := s1\<rparr>)
                | Some p \<Rightarrow>
                    (Inr (p, u, refresh_cookie vars (tp_refresh p) 604800000),
                     st\<lparr>a_db := d1, a_redis := sec_log E ''auth.oauth''
                       [(''provider'', JStr provider), (''email'', JStr email)] s1\<rparr>))"

definition session_entry :: "string \<Rightarrow> redis \<Rightarrow> json option" where
  "session_entry jti s = (case cache_getJson (sessionKey jti) s of
     Some (JObj kvs) \<Rightarrow>
       Some (JObj ((''jti'', (case map_of kvs ''jti'' of Some v \<Rightarrow> v | None \<Rightarrow> JStr jti))
         # filter (\<lambda>p. fst p \<noteq> ''jti'') kvs))
   | _ \<Rightarrow> None)"

definition auth_sessions :: "req_user \<Rightarrow> redis \<Rightarrow> json list" where
  "auth_sessions u s = List.map_filter (\<lambda>j. session_entry j s) (r_smembers (userSessionsKey (id_text (ru_id u))) s)"

definition revokeSession :: "env \<Rightarrow> string \<Rightarrow> req_user \<Rightarrow> redis \<Rightarrow> redis" where
  "revokeSession E refreshId u s = sec_log E ''auth.session.revoke''
     [(''jti'', JStr refreshId), (''userId'', JStr (id_text (ru_id u)))] (revokeRefresh refreshId s)"

definition requestEmailVerification :: "env \<Rightarrow> string \<Rightarrow> req_user \<Rightarrow> redis \<Rightarrow> string \<times> redis" where
  "requestEmailVerification E token u s =
     (token, sec_log E ''auth.verify.request'' [(''userId'', JStr (id_text (ru_id u)))]
        (newEmailVerificationToken token (id_text (ru_id u)) s))"

definition verifyEmail :: "env \<Rightarrow> string \<Rightarrow> api \<Rightarrow> (api_error + unit) \<times> api" where
  "verifyEmail E token st =
     (let (userId, s1) = consumeEmailVerificationToken token (a_redis st) in
      case userId of
        None \<Rightarrow> (Inl (Unauthorized ''Invalid or expired token''), st\<lparr>a_redis := s1\<rparr>)
      | Some i \<Rightarrow>
          if i = [] then (Inl (Unauthorized ''Invalid or expired token''), st\<lparr>a_redis := s1\<rparr>)
          else (Inr (), st\<lparr>a_redis := sec_log E ''auth.verify.success'' [(''userId'', JStr i)] s1,
                 a_db := snd (user_updateById i (\<lambda>u. u\<lparr>us_emailVerifiedAt := Some (api_clock st)\<rparr>) (a_db st))\<rparr>))"

text \<open>The answer of the request carries the token.\<close>

definition requestPasswordReset :: "env \<Rightarrow> string \<Rightarrow> string \<Rightarrow> api \<Rightarrow> string option \<times> api" where
  "requestPasswordReset E token email st = (case user_findByEmail (to_lower (js_trim email)) (a_db st) of
     None \<Rightarrow> (None, st)
   | Some u \<Rightarrow> (Some token, with_redis (\<lambda>s. sec_log E ''auth.reset.request'' [(''email'', JStr email)]
                  (newPasswordResetToken token (us_id u) s)) st))"

definition resetPassword ::
  "env \<Rightarrow> (string \<Rightarrow> string) \<Rightarrow> (string \<Rightarrow> int option) \<Rightarrow> 'j auth_lib \<Rightarrow> string \<Rightarrow> string \<Rightarrow> api \<Rightarrow> (api_error + unit) \<times> api" where
  "resetPassword E vars num A token newPassword st =
     (let (userId, s1) = consumePasswordResetToken token (a_redis st) in
      case userId of
        None \<Rightarrow> (Inl (Unauthorized ''Invalid or expired token''), st\<lparr>a_redis := s1\<rparr>)
      | Some i \<Rightarrow>
          if i = [] then (Inl (Unauthorized ''Invalid or expired token''), st\<lparr>a_redis := s1\<rparr>)
          else (Inr (), st\<lparr>a_redis := sec_log E ''auth.reset.success'' [(''userId'', JStr i)] s1,
                 a_db := snd (user_updateById i (\<lambda>u. u\<lparr>us_passwordHash := hashPassword A num vars newPassword\<rparr>) (a_db st))\<rparr>))"

section \<open>SharingController\<close>

record link_body =
  kb_documentId :: string
  kb_role :: string
  kb_expiresInSec :: int
  kb_password :: string
  kb_allowAnonymousComment :: bool
  kb_allowedDomainsCsv :: string

definition link_ttl :: "int \<Rightarrow> int" where
  "link_ttl n = max 60 (min 2592000 (if n \<noteq> 0 then n else 86400))"

text \<open>\<open>iso\<close> prints a time; \<open>al_hash A 10\<close> is \<open>bcrypt.hash(password, 10)\<close>.\<close>

definition link_json :: "(int \<Rightarrow> string) \<Rightarrow> 'j auth_lib \<Rightarrow> link_body \<Rightarrow> req_user \<Rightarrow> int \<Rightarrow> json" where
  "link_json isodate A b u now = JObj
     ([(''documentId'', JStr (kb_documentId b)), (''role'', JStr (or_text (kb_role b) ''viewer'')),
       (''allowAnonymousComment'', JBool (kb_allowAnonymousComment b)),
       (''allowedDomains'', JArr (map JStr (map to_lower (csv_fields (kb_allowedDomainsCsv b))))),
       (''createdBy'', JStr (id_text (ru_id u))), (''createdAt'', JStr (isodate now)),
       (''expiresAt'', JStr (isodate (now + link_ttl (kb_expiresInSec b) * 1000)))]
      @ (if kb_password b \<noteq> [] then [(''passwordHash'', JStr (al_hash A 10 (kb_password b)))] else []))"

definition createLink ::
  "env \<Rightarrow> (int \<Rightarrow> string) \<Rightarrow> 'j auth_lib \<Rightarrow> string \<Rightarrow> link_body \<Rightarrow> req_user \<Rightarrow> redis \<Rightarrow>
   (api_error + (string \<times> string \<times> int)) \<times> redis" where
  "createLink E isodate A token b u s =
     (if kb_documentId b = [] then (Inl (BadRequest ''Missing documentId''), s)
      else
        let expires = link_ttl (kb_expiresInSec b);
            s1 = r_setex (share_key token) (Js (link_json isodate A b u (clock s))) expires s;
            s2 = snd (r_incr ''metrics:sharing:links'' s1)
        in (Inr (token, public_web_base E @ ''/share/'' @ token, expires),
            sec_log E ''share.link.create''
              [(''documentId'', JStr (kb_documentId b)), (''role'', JStr (or_text (kb_role b) ''viewer'')),
               (''expiresInSec'', JNum expires)] s2))"

definition resolveLink :: "string \<Rightarrow> redis \<Rightarrow> (api_error + json) \<times> redis" where
  "resolveLink token s = (case r_get (share_key token) s of
     Some (Js rec) \<Rightarrow>
       (Inr (JObj ([(''token'', JStr token), (''documentId'', JStr (jstr ''documentId'' rec)),
          (''role'', JStr (jstr ''role'' rec)), (''expiresAt'', JStr (jstr ''expiresAt'' rec)),
          (''allowAnonymousComment'', JBool (truthy (jfield ''allowAnonymousComment'' rec)))])),
        snd (r_incr ''metrics:sharing:views'' s))
   | _ \<Rightarrow> (Inl (BadRequest ''Invalid or expired token''), s))"

end
