(* ===== verification/AuthProps.thy ===== *)
theory AuthProps
  imports Auth
begin

text \<open>
  What signing in promises: the lock after repeated failures, refresh tokens that work once, reset
  tokens, share links; and what the endpoints let through.
\<close>

section \<open>Keys\<close>

lemma auth_not_log [simp]:
  "\<not> log_key (login_key e ip)" "\<not> log_key (account_lock e)" "\<not> log_key (refreshKey j)" "\<not> log_key (sessionKey j)"
  "\<not> log_key (userSessionsKey u)" "\<not> log_key (verifyKey t)" "\<not> log_key (resetKey t)" "\<not> log_key (share_key t)"
  "\<not> log_key ks_ns"
  by (simp_all add: log_key_def login_key_def account_lock_def refreshKey_def sessionKey_def userSessionsKey_def
      verifyKey_def resetKey_def share_key_def ks_ns_def)

lemma auth_keys_neq [simp]:
  "login_key e ip \<noteq> account_lock e'" "account_lock e' \<noteq> login_key e ip"
  "refreshKey j \<noteq> sessionKey j'" "sessionKey j' \<noteq> refreshKey j"
  "refreshKey j \<noteq> userSessionsKey u" "userSessionsKey u \<noteq> refreshKey j"
  "sessionKey j \<noteq> userSessionsKey u" "userSessionsKey u \<noteq> sessionKey j"
  "refreshKey j \<noteq> ks_ns" "sessionKey j \<noteq> ks_ns" "userSessionsKey u \<noteq> ks_ns"
  "ks_ns \<noteq> refreshKey j" "ks_ns \<noteq> sessionKey j" "ks_ns \<noteq> userSessionsKey u"
  "refreshKey j = refreshKey j' \<longleftrightarrow> j = j'"
  by (simp_all add: login_key_def account_lock_def refreshKey_def sessionKey_def userSessionsKey_def ks_ns_def)

lemma entry_sec_log_cache: "\<not> log_key k \<Longrightarrow> cache_getJson k (sec_log E ev ds s) = cache_getJson k s"
  by (rule cache_getJson_cong) (simp add: frame_simps)

lemma with_redis_redis [simp]: "a_redis (with_redis f st) = f (a_redis st)" "a_db (with_redis f st) = a_db st"
  by (simp_all add: with_redis_def)

section \<open>The lock on an account\<close>

text \<open>Attempts with one spelling of an address from one client, each after a delay.\<close>

definition attempt_step ::
  "env \<Rightarrow> (string \<Rightarrow> string) \<Rightarrow> 'j auth_lib \<Rightarrow> (nat \<Rightarrow> string) \<Rightarrow> string \<Rightarrow> conn \<Rightarrow> int \<times> login_body \<Rightarrow> api \<Rightarrow> api" where
  "attempt_step E vars A rnd jti c p st = snd (login E vars A rnd jti (snd p) c (api_tick (fst p) st))"

definition is_locked :: "string \<Rightarrow> api \<Rightarrow> bool" where
  "is_locked email st \<longleftrightarrow> truthy (cache_getJson (account_lock email) (a_redis st))"

lemma locked_login:
  "is_locked (lb_email b) st \<Longrightarrow> login E vars A rnd jti b c st =
     (Inl (Unauthorized ''Account locked. Try again later''), st)"
  by (simp add: login_def is_locked_def Let_def)

lemma incr_counter:
  "entry s k = None \<Longrightarrow> fst (cache_incr k (Some 60) s) = 1
     \<and> entry (snd (cache_incr k (Some 60) s)) k = Some (RText (Num 1), Some (clock s + 60000))"
  "entry s k = Some (RText (Num n), e) \<Longrightarrow> 1 \<le> n \<Longrightarrow> fst (cache_incr k (Some 60) s) = n + 1
     \<and> entry (snd (cache_incr k (Some 60) s)) k = Some (RText (Num (n + 1)), e)"
  by (auto simp: cache_incr_def redis_defs key_simps dest: entry_live)

text \<open>The counter of an account and a client stands at \<open>n\<close> until \<open>t\<close>, and the account is not locked.\<close>

definition counted :: "string \<Rightarrow> string \<Rightarrow> int \<Rightarrow> int \<Rightarrow> api \<Rightarrow> bool" where
  "counted email ip n t st \<longleftrightarrow> entry (a_redis st) (account_lock email) = None
     \<and> (if n = 0 then entry (a_redis st) (login_key email ip) = None \<and> clock (a_redis st) + 60000 = t
        else entry (a_redis st) (login_key email ip) = Some (RText (Num n), Some t))"

lemma failed_attempt:
  assumes "counted (lb_email b) (client_ip c) n t st" and "0 \<le> n" and "n < 5"
    and "validateUser A (lb_email b) (lb_password b) (a_db st) = None"
  shows "counted (lb_email b) (client_ip c) (n + 1) t (snd (login E vars A rnd jti b c st))
    \<and> clock (a_redis (snd (login E vars A rnd jti b c st))) = clock (a_redis st)
    \<and> a_db (snd (login E vars A rnd jti b c st)) = a_db st"
proof -
  let ?k = "login_key (lb_email b) (client_ip c)"
  obtain m s1 where m: "cache_incr ?k (Some 60) (a_redis st) = (m, s1)"
    by (cases "cache_incr ?k (Some 60) (a_redis st)")
  have s1: "m = n + 1" "entry s1 ?k = Some (RText (Num (n + 1)), Some t)"
    using assms(1,2) incr_counter(1) [of "a_redis st" ?k] incr_counter(2) [of "a_redis st" ?k n "Some t"] m
    by (auto simp: counted_def split: if_splits)
  have l: "entry s1 (account_lock (lb_email b)) = None"
    using assms(1) cache_other(3) [of "account_lock (lb_email b)" ?k "Some 60" "a_redis st"] m
    by (simp add: counted_def)
  have c1: "clock s1 = clock (a_redis st)"
    using cache_clock(3) [of ?k "Some 60" "a_redis st"] m by simp
  have "cache_getJson (account_lock (lb_email b)) (a_redis st) = None"
    using assms(1) by (simp add: counted_def cache_getJson_def r_get_def)
  moreover have "\<not> m > 5" using s1(1) assms(3) by simp
  ultimately show ?thesis
    using m s1(2) l c1 assms(2,4)
    by (auto simp: login_def login_attempt_def fail_login_def counted_def Let_def frame_simps)
qed

lemma sixth_attempt:
  assumes "counted (lb_email b) (client_ip c) 5 t st"
  shows "is_locked (lb_email b) (snd (login E vars A rnd jti b c st))
    \<and> entry (a_redis (snd (login E vars A rnd jti b c st))) (account_lock (lb_email b)) =
        Some (RText (Js (JNum 1)), Some (clock (a_redis st) + 600000))
    \<and> clock (a_redis (snd (login E vars A rnd jti b c st))) = clock (a_redis st)"
proof -
  let ?k = "login_key (lb_email b) (client_ip c)"
  obtain m s1 where m: "cache_incr ?k (Some 60) (a_redis st) = (m, s1)"
    by (cases "cache_incr ?k (Some 60) (a_redis st)")
  have "m = 6"
    using assms incr_counter(2) [of "a_redis st" ?k 5 "Some t"] m by (simp add: counted_def)
  moreover have "clock s1 = clock (a_redis st)"
    using cache_clock(3) [of ?k "Some 60" "a_redis st"] m by simp
  moreover have "cache_getJson (account_lock (lb_email b)) (a_redis st) = None"
    using assms by (simp add: counted_def cache_getJson_def r_get_def)
  ultimately show ?thesis
    using m by (simp add: login_def is_locked_def Let_def entry_sec_log_cache frame_simps key_simps)
      (simp add: cache_setJson_def key_simps)
qed

lemma counted_tick:
  assumes "counted email ip n t st" and "0 \<le> n" and "0 \<le> d" and "n = 0 \<or> clock (a_redis st) + d < t"
  shows "counted email ip n (if n = 0 then t + d else t) (api_tick d st)"
  using assms by (auto simp: counted_def api_tick_def entry_tick)

lemma failures_counted:
  assumes "counted email (client_ip c) n t st" and "1 \<le> n" and "n + int (length ps) \<le> 5"
    and "\<forall>(d, b) \<in> set ps. 0 \<le> d \<and> lb_email b = email \<and> validateUser A email (lb_password b) (a_db st) = None"
    and "clock (a_redis st) + sum_list (map fst ps) < t"
  shows "counted email (client_ip c) (n + int (length ps)) t (fold (attempt_step E vars A rnd jti c) ps st)
    \<and> clock (a_redis (fold (attempt_step E vars A rnd jti c) ps st)) = clock (a_redis st) + sum_list (map fst ps)"
  using assms
proof (induction ps arbitrary: n st)
  case Nil
  then show ?case by simp
next
  case (Cons p ps)
  obtain d b where p: "p = (d, b)" by (cases p)
  let ?st = "attempt_step E vars A rnd jti c p st"
  have "0 \<le> sum_list (map fst ps)"
    using Cons.prems(4) by (intro sum_list_nonneg) auto
  then have "counted email (client_ip c) n t (api_tick d st)"
    using counted_tick [OF Cons.prems(1), of d] Cons.prems p by auto
  then have "counted email (client_ip c) (n + 1) t ?st \<and> clock (a_redis ?st) = clock (a_redis st) + d
      \<and> a_db ?st = a_db st"
    using failed_attempt [of b c n t "api_tick d st" A E vars rnd jti] Cons.prems p
    by (auto simp: attempt_step_def api_tick_def)
  then show ?case
    using Cons.IH [of "n + 1" ?st] Cons.prems p by (auto simp: add.assoc)
qed


definition demo_packages :: "(claims \<times> string \<times> string) auth_lib" where
  "demo_packages = \<lparr>al_jwt = plain_jwt, al_compare = (\<lambda>p h. h = ''#'' @ p), al_hash = (\<lambda>_ p. ''#'' @ p),
     al_totp = (\<lambda>_ _. False)\<rparr>"

lemma demo_bcrypt: "bcrypt_laws demo_packages"
  by (auto simp: bcrypt_laws_def demo_packages_def)

definition demo_account :: user where
  "demo_account = \<lparr>us_id = ''o'', us_email = ''o@x.org'', us_passwordHash = ''#right'', us_name = None, us_emailVerifiedAt = None\<rparr>"

definition demo_site :: api where
  "demo_site = demo_api\<lparr>a_db := demo_db\<lparr>users := [demo_account]\<rparr>, a_redis := demo_keys\<rparr>"

definition demo_conn :: conn where
  "demo_conn = \<lparr>cn_forwarded = [], cn_remote = ''1.2.3.4'', cn_ua = None\<rparr>"

definition demo_login :: "string \<Rightarrow> string \<Rightarrow> login_body" where
  "demo_login email pw = \<lparr>lb_email = email, lb_password = pw, lb_otp = [], lb_rememberMe = False, lb_captcha = []\<rparr>"

lemma demo_site_entry: "k \<noteq> ks_ns \<Longrightarrow> entry (a_redis demo_site) k = None"
  by (simp add: demo_site_def demo_keys_saved ks_save_other) (simp add: entry_def empty_redis_def)


text \<open>The lock is on the spelling of the address as it was sent, the account is found by its lower case.\<close>

lemma other_spelling_gets_in:
  "let st = with_redis (cache_setJson (account_lock ''o@x.org'') (JNum 1) 600) demo_site
   in is_locked ''o@x.org'' st \<and>
      \<not> (\<exists>e. fst (login default_env (\<lambda>_. []) demo_packages (\<lambda>_. ''s'') ''j'' (demo_login ''O@x.org'' ''right'') demo_conn st) = Inl e)"
proof -
  let ?st = "with_redis (cache_setJson (account_lock ''o@x.org'') (JNum 1) 600) demo_site"
  have "is_locked ''o@x.org'' ?st \<and>
     (case fst (login default_env (\<lambda>_. []) demo_packages (\<lambda>_. ''s'') ''j'' (demo_login ''O@x.org'' ''right'') demo_conn ?st)
      of Inr _ \<Rightarrow> True | Inl _ \<Rightarrow> False)"
    by code_simp
  then show ?thesis by (auto simp: Let_def)
qed

section \<open>Refresh tokens\<close>

lemma keys_sign_other: "k \<noteq> ks_ns \<Longrightarrow> entry (snd (keys_sign E vars J rnd ty jti iat sub ttl s)) k = entry s k"
  by (simp add: keys_sign_def getCurrent_def ensureRotation_other Let_def)

lemma keys_sign_clock [simp]: "clock (snd (keys_sign E vars J rnd ty jti iat sub ttl s)) = clock s"
  by (simp add: keys_sign_def getCurrent_def Let_def)

lemma keys_verify_other: "k \<noteq> ks_ns \<Longrightarrow> entry (snd (keys_verify E vars J rnd tok s)) k = entry s k"
  by (simp add: keys_verify_def verify_current_def getCurrent_def ensureRotation_other Let_def split: option.split)

lemma keys_verify_clock [simp]: "clock (snd (keys_verify E vars J rnd tok s)) = clock s"
  by (simp add: keys_verify_def verify_current_def getCurrent_def Let_def split: option.split)

lemma keys_verify_signed:
  assumes "jwt_laws J" and "fst (keys_verify E vars J rnd (jw_sign J c secret kid) s) = Some p"
  shows "p = c"
proof -
  have v: "jw_verify J now (jw_sign J c secret kid) x = Some q \<Longrightarrow> q = c" for now x q
    using assms(1) by (simp add: jwt_laws_def split: if_splits)
  have "fst (verify_current E vars J rnd (jw_sign J c secret kid) s) = Some q \<Longrightarrow> q = c" for q
    by (auto simp: verify_current_def Let_def case_prod_beta bind_eq_Some_conv dest: v)
  with assms(2) show ?thesis
    by (auto simp: keys_verify_def dest: v split: option.splits if_splits)
qed

lemma track_session_other:
  "k \<notin> {refreshKey jti, sessionKey jti, userSessionsKey u} \<Longrightarrow> entry (track_session u jti ttl ip ua s) k = entry s k"
  by (simp add: track_session_def Let_def frame_simps)

lemma generate_other:
  assumes "k \<notin> {refreshKey jti, sessionKey jti, userSessionsKey u, ks_ns}"
  shows "entry (snd (generateTokenPair E vars A rnd jti u ttl ip ua s)) k = entry s k"
proof -
  have k: "k \<noteq> ks_ns" "k \<notin> {refreshKey jti, sessionKey jti, userSessionsKey u}" using assms by auto
  show ?thesis
    by (simp add: generateTokenPair_def Let_def case_prod_beta track_session_other [OF k(2)] keys_sign_other [OF k(1)]
        split: option.split)
qed

lemma forget_session_refresh: "entry (forget_session u j s) (refreshKey j) = None"
  by (simp add: forget_session_def frame_simps) (simp add: cache_del_def key_simps)

text \<open>C17: a refresh token works once: after a rotation with it that went through, presenting it again, at any later
  time, is refused, whatever keys were rotated in between.\<close>

theorem refresh_token_used_once:
  assumes "jwt_laws (al_jwt A)" and "token = jw_sign (al_jwt A) c secret kid" and "cl_jti c = Some old"
    and "rotateRefreshToken E vars A rnd jti token ip ua s = (Inr pair, s')"
    and "jti \<noteq> old" and "0 \<le> d"
  shows "\<exists>e. fst (rotateRefreshToken E vars A rnd' jti' token ip' ua' (tick d s')) = Inl e"
proof -
  obtain p s1 where v: "keys_verify E vars (al_jwt A) (rnd 2) token s = (p, s1)"
    by (cases "keys_verify E vars (al_jwt A) (rnd 2) token s")
  have "p \<noteq> None"
    using assms(4) v by (cases p) (simp_all add: rotateRefreshToken_def)
  then have p: "p = Some c"
    using keys_verify_signed [OF assms(1), of E vars "rnd 2" c secret kid s] v assms(2) by auto
  have "s' = snd (generateTokenPair E vars A rnd jti (cl_sub c) None ip ua (forget_session (cl_sub c) old s1))"
    using assms(3,4) v p by (auto simp: rotateRefreshToken_def pair_or_crash_def Let_def split: if_splits)
  then have "entry s' (refreshKey old) = None"
    using assms(5) by (simp add: generate_other forget_session_refresh)
  then have gone: "entry (tick d s') (refreshKey old) = None"
    by (rule entry_tick_None [OF assms(6)])
  obtain q s2 where w: "keys_verify E vars (al_jwt A) (rnd' 2) token (tick d s') = (q, s2)"
    by (cases "keys_verify E vars (al_jwt A) (rnd' 2) token (tick d s')")
  have "entry s2 (refreshKey old) = None"
    using keys_verify_other [of "refreshKey old" E vars "al_jwt A" "rnd' 2" token "tick d s'"] gone w by simp
  then have none: "cache_getJson (refreshKey old) s2 = None"
    by (simp add: cache_getJson_def r_get_def)
  have "q = None \<or> q = Some c"
    using keys_verify_signed [OF assms(1), of E vars "rnd' 2" c secret kid "tick d s'"] w assms(2)
    by (cases q) auto
  then show ?thesis
    using w none assms(3) by (auto simp: rotateRefreshToken_def Let_def)
qed

lemma refresh_token_used_once_witness:
  "\<exists>e. fst (rotateRefreshToken default_env (\<lambda>_. []) demo_packages (\<lambda>_. ''s'') ''j3''
      (tp_refresh (the (fst (generateTokenPair default_env (\<lambda>_. []) demo_packages (\<lambda>_. ''s'') ''j1'' ''o'' None [] None demo_keys))))
      [] None (tick 5 (snd (rotateRefreshToken default_env (\<lambda>_. []) demo_packages (\<lambda>_. ''s'') ''j2''
        (tp_refresh (the (fst (generateTokenPair default_env (\<lambda>_. []) demo_packages (\<lambda>_. ''s'') ''j1'' ''o'' None [] None demo_keys))))
        [] None (snd (generateTokenPair default_env (\<lambda>_. []) demo_packages (\<lambda>_. ''s'') ''j1'' ''o'' None [] None demo_keys)))))) = Inl e"
proof -
  let ?g = "generateTokenPair default_env (\<lambda>_. []) demo_packages (\<lambda>_. ''s'') ''j1'' ''o'' None [] None demo_keys"
  let ?c = "\<lparr>cl_sub = ''o'', cl_iat = 1, cl_exp = 604801, cl_type = Some ''refresh'', cl_jti = Some ''j1'',
    cl_aud = ''rce-web'', cl_iss = ''rce-api''\<rparr>"
  have t: "tp_refresh (the (fst ?g)) = jw_sign (al_jwt demo_packages) ?c ''s1'' ''k1''"
    by code_simp
  have ok: "case fst (rotateRefreshToken default_env (\<lambda>_. []) demo_packages (\<lambda>_. ''s'') ''j2''
      (tp_refresh (the (fst ?g))) [] None (snd ?g)) of Inr _ \<Rightarrow> True | Inl _ \<Rightarrow> False"
    by code_simp
  obtain pair s' where r: "rotateRefreshToken default_env (\<lambda>_. []) demo_packages (\<lambda>_. ''s'') ''j2''
      (tp_refresh (the (fst ?g))) [] None (snd ?g) = (Inr pair, s')"
    using ok by (cases "rotateRefreshToken default_env (\<lambda>_. []) demo_packages (\<lambda>_. ''s'') ''j2''
      (tp_refresh (the (fst ?g))) [] None (snd ?g)") (auto split: sum.splits)
  have "jwt_laws (al_jwt demo_packages)"
    by (simp add: demo_packages_def plain_jwt_laws)
  from refresh_token_used_once [OF this t _ r, where old = "''j1''" and d = 5 and rnd' = "\<lambda>_. ''s''" and jti' = "''j3''"
      and ip' = "[]" and ua' = None]
  show ?thesis by (simp add: r)
qed

text \<open>A revoked session cannot be refreshed; whose it was is not asked.\<close>

lemma anyone_revokes: "entry (revokeSession E j u s) (refreshKey j) = None"
  by (simp add: revokeSession_def revokeRefresh_def frame_simps Let_def) (simp add: cache_del_def key_simps)

text \<open>
  \<open>AuthGuard\<close> checks tokens with \<open>JWT_SECRET\<close> and not with the keys they are signed with: after a
  rotation every token is refused, and a logout leaves the session as it was. It does not read the type of
  the token: a refresh token opens the API.
\<close>

lemma rotated_token_refused:
  assumes "jwt_laws (al_jwt A)" and "secret \<noteq> guard_secret vars"
  shows "auth_guard vars A (Some (jw_sign (al_jwt A) c secret kid)) x y st = Inl (Unauthorized ''Invalid or expired token'')"
  using assms by (simp add: auth_guard_def jwt_laws_def)

lemma logout_keeps_session:
  assumes "jwt_laws (al_jwt A)" and "secret \<noteq> guard_secret vars"
  shows "entry (a_redis (auth_logout E vars A (Some (jw_sign (al_jwt A) c secret kid)) cn st)) (refreshKey j) =
    entry (a_redis st) (refreshKey j)"
  using assms by (simp add: auth_logout_def jwt_laws_def frame_simps)

lemma refresh_token_opens_api:
  assumes "jwt_laws (al_jwt A)" and "cl_type c = Some ''refresh''" and "now_sec (a_redis st) < cl_exp c"
    and "user_findById (cl_sub c) (a_db st) = Some u"
  shows "auth_guard vars A (Some (jw_sign (al_jwt A) c (guard_secret vars) kid)) x y st =
    Inr \<lparr>ru_id = Oid (us_id u), ru_email = Some (us_email u), ru_share = None\<rparr>"
  using assms by (simp add: auth_guard_def jwt_laws_def)

section \<open>Resetting a password\<close>

lemma consume_again:
  "fst (consume_token k (snd (consume_token k s))) = None"
  by (auto simp: consume_token_def cache_get_set split: option.split)

lemma findByEmail_update:
  assumes "user_findById i d = Some u" and "user_findByEmail (us_email u) d = Some u"
    and "\<And>x. us_id (f x) = us_id x \<and> us_email (f x) = us_email x"
  shows "user_findByEmail (us_email u) (snd (user_updateById i f d)) = Some (f u)"
proof -
  have "find (\<lambda>x. us_email x = us_email u) (update_row (\<lambda>x. us_id x = i) (\<lambda>x. (f x)\<lparr>us_id := us_id x\<rparr>) xs) =
      Some ((f u)\<lparr>us_id := us_id u\<rparr>)"
    if "find (\<lambda>x. us_id x = i) xs = Some u" "find (\<lambda>x. us_email x = us_email u) xs = Some u" for xs
    using that by (induction xs) (auto simp: assms(3) split: if_splits dest: find_Some_set)
  moreover have "(f u)\<lparr>us_id := us_id u\<rparr> = f u"
    using assms(3) [of u] by (metis user.surjective user.update_convs(1) user.simps)
  ultimately show ?thesis
    using assms(1,2) by (simp add: user_findById_def user_findByEmail_def user_updateById_def Let_def)
qed



text \<open>The answer to a request for a reset is the token: who knows an address sets the password of its account.\<close>

lemma anyone_resets_password:
  assumes "user_findByEmail (to_lower (js_trim email)) (a_db st) = Some u" and "us_id u \<noteq> []"
  shows "fst (requestPasswordReset E token email st) = Some token
    \<and> fst (resetPassword E vars num A token new (snd (requestPasswordReset E token email st))) = Inr ()"
proof -
  have "cache_getJson (resetKey token) (a_redis (snd (requestPasswordReset E token email st))) =
      Some (JObj [(''userId'', JStr (us_id u))])"
    using assms(1) by (simp add: requestPasswordReset_def entry_sec_log_cache newPasswordResetToken_def cache_get_set)
  then show ?thesis
    using assms by (simp add: resetPassword_def consumePasswordResetToken_def consume_token_def jstr_def)
      (simp add: requestPasswordReset_def)
qed

text \<open>The callback of the providers asks for an address and nothing else, not even of an administrator.\<close>

lemma oauth_signs_anybody_in:
  assumes "user_findByEmail (to_lower (js_trim email)) (a_db st) = Some u"
    and "fst (generateTokenPair E vars A rnd jti (us_id u) None (client_ip c) (cn_ua c) (a_redis st)) = Some p"
  shows "\<exists>ck. fst (auth_oauth E vars num A rnd jti digits provider email name c st) = Inr (p, u, ck)"
  using assms by (cases "generateTokenPair E vars A rnd jti (us_id u) None (client_ip c) (cn_ua c) (a_redis st)")
    (simp add: auth_oauth_def Let_def)

section \<open>Share links\<close>

lemma createLink_entry:
  assumes "createLink E isodate A token b u s = (Inr r, s')"
  shows "entry s' (share_key token) = Some (RText (Js (link_json isodate A b u (clock s))),
      Some (clock s + 1000 * link_ttl (kb_expiresInSec b))) \<and> clock s' = clock s"
proof -
  have "share_key token \<noteq> ''metrics:sharing:links''"
    by (simp add: share_key_def)
  moreover have "0 < link_ttl (kb_expiresInSec b)"
    by (simp add: link_ttl_def)
  ultimately show ?thesis
    using assms by (auto simp: createLink_def Let_def frame_simps key_simps split: if_splits)
qed

lemma link_json_fields:
  "jstr ''documentId'' (link_json isodate A b u t) = kb_documentId b"
  "jstr ''role'' (link_json isodate A b u t) = or_text (kb_role b) ''viewer''"
  "truthy (jfield ''allowAnonymousComment'' (link_json isodate A b u t)) = kb_allowAnonymousComment b"
  "jstr ''passwordHash'' (link_json isodate A b u t) = (if kb_password b \<noteq> [] then al_hash A 10 (kb_password b) else [])"
  by (simp_all add: link_json_def jstr_def)


definition demo_link :: link_body where
  "demo_link = \<lparr>kb_documentId = ''d'', kb_role = [], kb_expiresInSec = 5, kb_password = ''pw'',
     kb_allowAnonymousComment = False, kb_allowedDomainsCsv = []\<rparr>"


text \<open>
  The guard of the document routes looks for the route parameters \<open>id\<close> and \<open>documentId\<close>; the document of a new link is in the
  body of the request, so any signed-in user passes and gets a link to any document with any role. The domains
  a link is restricted to are stored and read by nothing.
\<close>

lemma anyone_creates_links:
  assumes "ru_id u \<noteq> Text []" and "kb_documentId b \<noteq> []"
  shows "fst (document_guard E d ''editor'' (Some u) None s) = Allow
    \<and> (\<exists>r. fst (createLink E isodate A token b u s) = Inr r)"
  using assms by (simp add: document_guard_def createLink_def Let_def)

end
