(* ===== verification/Jobs.thy ===== *)
theory Jobs
  imports DocumentOps Comments
begin

text \<open>
  Background work: \<open>JobQueueService\<close> in its in-process mode (\<open>api/src/jobs/job-queue.service.ts\<close>; the
  other mode is the package BullMQ), \<open>DocumentJobsService\<close> (\<open>document-jobs.service.ts\<close>) and
  \<open>MaintenanceService\<close> (\<open>maintenance.service.ts\<close>). The timers of the queue are its list of pending
  runs with their due times; what a handler does is the argument \<open>exec\<close> of the queue: the message of
  its exception, if it throws, and the new state, or \<open>None\<close> when it does not return. The order in which
  MongoDB groups is that of first occurrence here.
\<close>

section \<open>The queue\<close>

record job =
  jb_name :: string
  jb_data :: string
  jb_due :: int
  jb_try :: nat
  jb_attempts :: nat

record job_queue =
  jq_handlers :: "string list"
  jq_pending :: "job list"

definition jq_register :: "string \<Rightarrow> job_queue \<Rightarrow> job_queue" where
  "jq_register name q = q\<lparr>jq_handlers := add_new name (jq_handlers q)\<rparr>"

definition jq_add :: "string \<Rightarrow> string \<Rightarrow> int \<Rightarrow> nat option \<Rightarrow> int \<Rightarrow> job_queue \<Rightarrow> job_queue" where
  "jq_add name data delayMs attempts now q = q\<lparr>jq_pending := jq_pending q @
     [\<lparr>jb_name = name, jb_data = data, jb_due = now + delayMs, jb_try = 1,
       jb_attempts = (case attempts of Some n \<Rightarrow> n | None \<Rightarrow> 3)\<rparr>]\<rparr>"

type_synonym executor = "string \<Rightarrow> string \<Rightarrow> api \<Rightarrow> (string option \<times> api) option"

definition bump_counter :: "string \<Rightarrow> api \<Rightarrow> api" where
  "bump_counter k st = with_redis (\<lambda>r. snd (r_incr k r)) st"

text \<open>One run: the run that follows, if there is one, and the state.\<close>

definition jq_run :: "env \<Rightarrow> executor \<Rightarrow> string list \<Rightarrow> job \<Rightarrow> api \<Rightarrow> (job option \<times> api) option" where
  "jq_run E exec handlers j st =
     (if jb_name j \<notin> set handlers then Some (None, st)
      else case exec (jb_name j) (jb_data j) st of
          None \<Rightarrow> None
        | Some (None, st1) \<Rightarrow> Some (None, bump_counter ''jobs:processed'' st1)
        | Some (Some err, st1) \<Rightarrow>
            let st2 = audit E ''jobs.fail'' [(''name'', JStr (jb_name j)), (''err'', JStr err),
                        (''tryNo'', JNum (int (jb_try j)))] (bump_counter ''jobs:failed'' st1)
            in Some (if jb_try j < jb_attempts j
                     then Some (j\<lparr>jb_try := jb_try j + 1, jb_due := api_clock st2 + 2000 * int (jb_try j)\<rparr>)
                     else None, st2))"

text \<open>The timers of a job: each run at its time, until none is set.\<close>

function jq_live :: "env \<Rightarrow> executor \<Rightarrow> string list \<Rightarrow> job \<Rightarrow> api \<Rightarrow> api option" where
  "jq_live E exec handlers j st =
     (case jq_run E exec handlers j (api_tick (max 0 (jb_due j - api_clock st)) st) of
        None \<Rightarrow> None
      | Some (None, st1) \<Rightarrow> Some st1
      | Some (Some j1, st1) \<Rightarrow> jq_live E exec handlers j1 st1)"
  by pat_completeness auto
termination
  by (relation "measure (\<lambda>(E, exec, handlers, j, st). jb_attempts j + 1 - jb_try j)")
    (auto simp: jq_run_def Let_def split: if_splits option.splits)

declare jq_live.simps [simp del]

definition jq_health :: "redis \<Rightarrow> int \<times> int" where
  "jq_health s = (r_num ''jobs:processed'' s, r_num ''jobs:failed'' s)"

text \<open>The worker of the other mode, the function BullMQ calls with a job: what it throws, and the state. When and how
  often a job is tried is the package's.\<close>

definition bull_worker :: "env \<Rightarrow> executor \<Rightarrow> string list \<Rightarrow> string \<Rightarrow> string \<Rightarrow> api \<Rightarrow> (string option \<times> api) option" where
  "bull_worker E exec handlers name data st =
     (if name \<notin> set handlers then Some (None, st)
      else case exec name data st of
          None \<Rightarrow> None
        | Some (None, st1) \<Rightarrow> Some (None, bump_counter ''jobs:processed'' st1)
        | Some (Some err, st1) \<Rightarrow> Some (Some err, audit E ''jobs.fail'' [(''name'', JStr name), (''err'', JStr err)]
            (bump_counter ''jobs:failed'' st1)))"

section \<open>Jobs on documents\<close>

text \<open>
  The state a \<open>doc.snapshot\<close> run leaves, \<open>None\<close> when its loop does not end. Its loop is that of the
  repair.
\<close>

definition processSnapshot :: "env \<Rightarrow> 'y ylib \<Rightarrow> string \<Rightarrow> api \<Rightarrow> api option" where
  "processSnapshot E L documentId st =
     map_option (\<lambda>(cursor, y). audit E ''doc.snapshot.regenerated''
         [(''documentId'', JStr documentId), (''cursor'', JNum cursor)]
         (st\<lparr>a_db := store_rebuilt L documentId y (a_db st)\<rparr>))
       (rebuild_loop L documentId (a_db st) (0, y_empty L))"

definition processCompact :: "env \<Rightarrow> string \<Rightarrow> api \<Rightarrow> api" where
  "processCompact E documentId st =
     (let latest = latestSeq documentId (a_db st);
          cutoff = latest - doc_update_keep E;
          d1 = (if cutoff > 0 then compactUpTo documentId cutoff (a_db st) else a_db st)
      in audit E ''doc.compact.run''
           [(''documentId'', JStr documentId), (''latest'', JNum latest), (''cutoff'', JNum cutoff)] (st\<lparr>a_db := d1\<rparr>))"

text \<open>\<open>show_err\<close> prints an exception.\<close>

definition processCacheWarm :: "env \<Rightarrow> 'y ylib \<Rightarrow> (api_error \<Rightarrow> string) \<Rightarrow> string \<Rightarrow> api \<Rightarrow> api" where
  "processCacheWarm E L show_err documentId st =
     (case getYState E L documentId st of
        (Inr _, st1) \<Rightarrow> audit E ''doc.cache.warm'' [(''documentId'', JStr documentId)] st1
      | (Inl e, st1) \<Rightarrow> audit E ''doc.cache.warm.fail''
            [(''documentId'', JStr documentId), (''err'', JStr (show_err e))] st1)"

definition enqueueCompaction :: "string \<Rightarrow> int \<Rightarrow> int \<Rightarrow> job_queue \<Rightarrow> job_queue" where
  "enqueueCompaction documentId delayMs now q = jq_add ''doc.compact'' documentId delayMs None now q"

text \<open>The timer of a minute: three jobs for each document with many updates.\<close>

definition schedule_hot :: "env \<Rightarrow> db \<Rightarrow> int \<Rightarrow> job_queue \<Rightarrow> job_queue" where
  "schedule_hot E d now q =
     fold (\<lambda>h q. jq_add ''doc.snapshot'' (fst h) 0 (Some 1) now
               (jq_add ''doc.cache.warm'' (fst h) 0 (Some 1) now (enqueueCompaction (fst h) 0 now q)))
       (hotDocuments (doc_compact_threshold E) 50 d) q"

section \<open>Maintenance\<close>

definition day_millis :: int where
  "day_millis = 24 * 3600 * 1000"

definition cleanupDeleted :: "env \<Rightarrow> api \<Rightarrow> api" where
  "cleanupDeleted E st =
     (let cutoff = api_clock st - doc_delete_ttl_days E * day_millis;
          ids = listDeletedBefore cutoff (a_db st)
      in if ids = [] then st
         else audit E ''doc.cleanup.deleted'' [(''count'', JNum (int (length ids)))]
                (st\<lparr>a_db := deleteByDocumentIds ids (a_db st)\<rparr>))"

definition cleanupOrphans :: "env \<Rightarrow> api \<Rightarrow> api" where
  "cleanupOrphans E st =
     (let d = a_db st;
          ids = take 1000 (map c_documentId (filter (\<lambda>c. doc_findById (c_documentId c) d = None) (contents d)));
          d1 = (if ids \<noteq> [] then deleteByDocumentIds ids d else d)
      in audit E ''doc.cleanup.orphans'' [(''count'', JNum (int (length ids)))] (st\<lparr>a_db := d1\<rparr>))"

definition syncIndexes :: "env \<Rightarrow> api \<Rightarrow> api" where
  "syncIndexes E st = audit E ''db.index.sync'' [(''ok'', JBool True)] st"

text \<open>\<open>found\<close>: the answer to \<open>KEYS docs:ws:*\<close>.\<close>

definition cleanupCache :: "env \<Rightarrow> string list \<Rightarrow> api \<Rightarrow> api" where
  "cleanupCache E found st =
     audit E ''cache.cleanup'' [(''count'', JNum (int (length found)))] (with_redis (fold r_del found) st)"

definition rotateAudit :: "env \<Rightarrow> api \<Rightarrow> api" where
  "rotateAudit E st =
     (let mx = audit_log_max E
      in audit E ''audit.rotate'' [(''max'', JNum mx)]
           (with_redis (r_ltrim ''audit-log'' (nat (max 0 (mx - 1)) + 1)) st))"

definition archivable :: "int \<Rightarrow> comment \<Rightarrow> bool" where
  "archivable cutoff c \<longleftrightarrow>
     k_parentId c = None \<and> k_status c = ''resolved'' \<and> k_archivedAt c = None \<and> k_updatedAt c \<le> cutoff"

definition archiveOldComments :: "env \<Rightarrow> api \<Rightarrow> api" where
  "archiveOldComments E st =
     (let now = api_clock st;
          cutoff = now - comment_archive_days E * day_millis;
          n = int (length (filter (archivable cutoff) (comments (a_db st))))
      in audit E ''comments.archive'' [(''matched'', JNum n), (''modified'', JNum n)]
           (st\<lparr>a_db := (a_db st)\<lparr>comments := map (\<lambda>c. if archivable cutoff c
              then c\<lparr>k_archivedAt := Some now, k_updatedAt := now\<rparr> else c) (comments (a_db st))\<rparr>\<rparr>))"

text \<open>The snapshots of a document the retention deletes.\<close>

definition expired_snaps :: "nat \<Rightarrow> int \<Rightarrow> string \<Rightarrow> db \<Rightarrow> snap list" where
  "expired_snaps keepLast cutoff documentId d =
     filter (\<lambda>x. \<not> s_isMilestone x \<and> s_createdAt x < cutoff)
       (drop keepLast (sort_key (\<lambda>x. - s_seq x) (filter (\<lambda>x. s_documentId x = documentId) (snaps d))))"

definition retain_doc :: "env \<Rightarrow> int \<Rightarrow> string \<Rightarrow> api \<Rightarrow> api" where
  "retain_doc E cutoff documentId st =
     (let gone = map s_id (expired_snaps (nat (snapshot_keep_last E)) cutoff documentId (a_db st));
          d1 = (a_db st)\<lparr>snaps := filter (\<lambda>x. s_id x \<notin> set gone) (snaps (a_db st))\<rparr>
      in audit E ''snapshot.retention''
           [(''documentId'', JStr documentId), (''deleted'', JNum (int (length gone)))] (st\<lparr>a_db := d1\<rparr>))"

definition crowded_docs :: "env \<Rightarrow> db \<Rightarrow> string list" where
  "crowded_docs E d =
     take 200 (filter (\<lambda>i. int (length (filter (\<lambda>x. s_documentId x = i) (snaps d))) > snapshot_keep_last E)
       (js_set (map s_documentId (snaps d))))"

definition snapshotRetention :: "env \<Rightarrow> api \<Rightarrow> api" where
  "snapshotRetention E st =
     (let cutoff = api_clock st - snapshot_max_age_days E * day_millis
      in fold (retain_doc E cutoff) (crowded_docs E (a_db st)) st)"

definition schedule_maintenance :: "int \<Rightarrow> job_queue \<Rightarrow> job_queue" where
  "schedule_maintenance now q =
     fold (\<lambda>(name, delay) q. jq_add name [] delay (Some 1) now q)
       [(''doc.cleanup.deleted'', 0), (''orphan.cleanup'', 0), (''index.maintain'', 2000), (''audit.rotate'', 3000),
        (''comments.archive'', 4000), (''snapshot.retention'', 5000)] q"

section \<open>The handlers\<close>

definition job_names :: "string list" where
  "job_names = [''doc.compact'', ''doc.snapshot'', ''doc.cache.warm'', ''doc.cleanup.deleted'', ''orphan.cleanup'',
     ''index.maintain'', ''cache.cleanup'', ''audit.rotate'', ''comments.archive'', ''snapshot.retention'']"

text \<open>What \<open>register\<close> binds to the names; none of these throws in this model.\<close>

definition exec_job :: "env \<Rightarrow> 'y ylib \<Rightarrow> (api_error \<Rightarrow> string) \<Rightarrow> (api \<Rightarrow> string list) \<Rightarrow> executor" where
  "exec_job E L show_err found name data st =
     (let ok = (\<lambda>st. Some (None, st)) in
      if name = ''doc.compact'' then ok (processCompact E data st)
      else if name = ''doc.snapshot'' then map_option (Pair None) (processSnapshot E L data st)
      else if name = ''doc.cache.warm'' then ok (processCacheWarm E L show_err data st)
      else if name = ''doc.cleanup.deleted'' then ok (cleanupDeleted E st)
      else if name = ''orphan.cleanup'' then ok (cleanupOrphans E st)
      else if name = ''index.maintain'' then ok (syncIndexes E st)
      else if name = ''cache.cleanup'' then ok (cleanupCache E (found st) st)
      else if name = ''audit.rotate'' then ok (rotateAudit E st)
      else if name = ''comments.archive'' then ok (archiveOldComments E st)
      else if name = ''snapshot.retention'' then ok (snapshotRetention E st)
      else ok st)"

end
