(* ===== verification/JobProps.thy ===== *)
theory JobProps
  imports Jobs
begin

text \<open>
  What the background work promises: how often and when a job runs, what the retention of snapshots deletes,
  what a document is after its log was compacted and its state rebuilt, what the clean-up removes.
\<close>

section \<open>Runs of a job\<close>

text \<open>A counter that does not expire.\<close>

definition lasting :: "string \<Rightarrow> redis \<Rightarrow> bool" where
  "lasting k s \<longleftrightarrow> ttl_of k s = None"

lemma lasting_tick:
  assumes "lasting k s" and "0 \<le> d"
  shows "lasting k (tick d s) \<and> r_num k (tick d s) = r_num k s"
  using assms by (auto simp: lasting_def ttl_of_def r_num_def r_get_def entry_tick split: option.splits)

lemma lasting_incr:
  "lasting k s \<Longrightarrow> lasting k (snd (r_incr k s)) \<and> r_num k (snd (r_incr k s)) = r_num k s + 1"
  by (auto simp: lasting_def ttl_of_def r_num_def r_get_def r_incr_def r_incrby_def key_simps
      split: option.splits rval.splits rtext.splits)

lemma lasting_cong: "entry s' k = entry s k \<Longrightarrow> lasting k s \<Longrightarrow> lasting k s' \<and> r_num k s' = r_num k s"
  by (simp add: lasting_def ttl_of_def r_num_def r_get_def)

lemma jobs_not_log [simp]: "\<not> log_key ''jobs:failed''" "\<not> log_key ''jobs:processed''"
  by (simp_all add: log_key_def)

text \<open>A handler that throws whenever it is called and leaves the clock and the counters to the queue.\<close>

definition always_throws :: "executor \<Rightarrow> string \<Rightarrow> string \<Rightarrow> bool" where
  "always_throws exec name data \<longleftrightarrow> (\<forall>st. \<exists>err st'. exec name data st = Some (Some err, st')
     \<and> api_clock st' = api_clock st
     \<and> entry (a_redis st') ''jobs:failed'' = entry (a_redis st) ''jobs:failed'')"

lemma failing_run:
  assumes "always_throws exec (jb_name j) (jb_data j)" and "jb_name j \<in> set handlers"
    and "lasting ''jobs:failed'' (a_redis st)"
  shows "\<exists>st'. jq_run E exec handlers j st = Some (if jb_try j < jb_attempts j
        then Some (j\<lparr>jb_try := jb_try j + 1, jb_due := api_clock st + 2000 * int (jb_try j)\<rparr>) else None, st')
    \<and> api_clock st' = api_clock st \<and> lasting ''jobs:failed'' (a_redis st')
    \<and> r_num ''jobs:failed'' (a_redis st') = r_num ''jobs:failed'' (a_redis st) + 1"
proof -
  obtain err st1 where x: "exec (jb_name j) (jb_data j) st = Some (Some err, st1)"
    "api_clock st1 = api_clock st" "entry (a_redis st1) ''jobs:failed'' = entry (a_redis st) ''jobs:failed''"
    using assms(1) unfolding always_throws_def by metis
  let ?st2 = "audit E ''jobs.fail'' [(''name'', JStr (jb_name j)), (''err'', JStr err), (''tryNo'', JNum (int (jb_try j)))]
    (bump_counter ''jobs:failed'' st1)"
  have c: "api_clock ?st2 = api_clock st"
    using x(2) by (simp add: audit_def bump_counter_def with_redis_def api_clock_def)
  have "entry (a_redis ?st2) ''jobs:failed'' = entry (snd (r_incr ''jobs:failed'' (a_redis st1))) ''jobs:failed''"
    by (simp add: audit_def bump_counter_def with_redis_def frame_simps)
  moreover have "lasting ''jobs:failed'' (a_redis st1)" "r_num ''jobs:failed'' (a_redis st1) = r_num ''jobs:failed'' (a_redis st)"
    using lasting_cong [OF x(3) assms(3)] by simp_all
  ultimately have "lasting ''jobs:failed'' (a_redis ?st2)
      \<and> r_num ''jobs:failed'' (a_redis ?st2) = r_num ''jobs:failed'' (a_redis st) + 1"
    using lasting_incr [of "''jobs:failed''" "a_redis st1"]
      lasting_cong [of "a_redis ?st2" "''jobs:failed''" "snd (r_incr ''jobs:failed'' (a_redis st1))"] by simp
  with c show ?thesis
    using assms(2) x(1) by (auto simp: jq_run_def Let_def)
qed

lemma health_cong:
  "entry s' ''jobs:processed'' = entry s ''jobs:processed'' \<Longrightarrow> entry s' ''jobs:failed'' = entry s ''jobs:failed'' \<Longrightarrow> jq_health s' = jq_health s"
  by (simp add: jq_health_def r_num_def r_get_def)

lemma log_health: "jq_health (sec_log E ev ds s) = jq_health s"
  by (rule health_cong) (simp_all add: frame_simps)

text \<open>a run is counted alike in both modes of the queue: what a run does, whether it throws, and the answer of the
  health route after it are the same.\<close>

theorem modes_count_alike:
  "case (bull_worker E exec handlers (jb_name j) (jb_data j) st, jq_run E exec handlers j st) of
     (None, None) \<Rightarrow> True
   | (Some (err, st1), Some (again, st2)) \<Rightarrow> jq_health (a_redis st1) = jq_health (a_redis st2) \<and> a_db st1 = a_db st2
       \<and> (again \<noteq> None \<longleftrightarrow> err \<noteq> None \<and> jb_try j < jb_attempts j)
   | (_, _) \<Rightarrow> False"
  by (auto simp: bull_worker_def jq_run_def Let_def audit_def with_redis_def log_health split: option.split prod.split)

text \<open>The number of milliseconds the tries \<open>t\<close> to \<open>n\<close> wait for.\<close>

lemma failing_job:
  assumes "always_throws exec (jb_name j) (jb_data j)" and "jb_name j \<in> set handlers"
    and "lasting ''jobs:failed'' (a_redis st)" and "jb_try j \<le> jb_attempts j" and "api_clock st \<le> jb_due j"
  shows "\<exists>st'. jq_live E exec handlers j st = Some st'
    \<and> r_num ''jobs:failed'' (a_redis st') = r_num ''jobs:failed'' (a_redis st) + int (jb_attempts j + 1 - jb_try j)
    \<and> api_clock st' = jb_due j + 1000 * (int (jb_attempts j) * (int (jb_attempts j) - 1) - int (jb_try j) * (int (jb_try j) - 1))"
  using assms
proof (induction "jb_attempts j - jb_try j" arbitrary: j st)
  case 0
  then have "jb_try j = jb_attempts j" by simp
  let ?st = "api_tick (max 0 (jb_due j - api_clock st)) st"
  have t: "lasting ''jobs:failed'' (a_redis ?st)" "r_num ''jobs:failed'' (a_redis ?st) = r_num ''jobs:failed'' (a_redis st)"
    "api_clock ?st = jb_due j"
    using lasting_tick [OF 0(4), of "max 0 (jb_due j - api_clock st)"] 0(6) by (simp_all add: api_tick_def api_clock_def)
  obtain st1 where "jq_run E exec handlers j ?st = Some (None, st1)"
    "api_clock st1 = jb_due j" "r_num ''jobs:failed'' (a_redis st1) = r_num ''jobs:failed'' (a_redis st) + 1"
    using failing_run [OF 0(2,3) t(1), of E] t \<open>jb_try j = jb_attempts j\<close> by auto
  then show ?case
    using \<open>jb_try j = jb_attempts j\<close> by (subst jq_live.simps) simp
next
  case (Suc k)
  let ?st = "api_tick (max 0 (jb_due j - api_clock st)) st"
  let ?j = "j\<lparr>jb_try := jb_try j + 1, jb_due := jb_due j + 2000 * int (jb_try j)\<rparr>"
  have lt: "jb_try j < jb_attempts j" using Suc(2) by simp
  have t: "lasting ''jobs:failed'' (a_redis ?st)" "r_num ''jobs:failed'' (a_redis ?st) = r_num ''jobs:failed'' (a_redis st)"
    "api_clock ?st = jb_due j"
    using lasting_tick [OF Suc(5), of "max 0 (jb_due j - api_clock st)"] Suc(7) by (simp_all add: api_tick_def api_clock_def)
  obtain st1 where run: "jq_run E exec handlers j ?st = Some (Some ?j, st1)"
    "api_clock st1 = jb_due j" "lasting ''jobs:failed'' (a_redis st1)"
    "r_num ''jobs:failed'' (a_redis st1) = r_num ''jobs:failed'' (a_redis st) + 1"
    using failing_run [OF Suc(3,4) t(1), of E] t lt by auto
  have "k = jb_attempts ?j - jb_try ?j" using Suc(2) by simp
  from Suc(1) [OF this, of st1] obtain st' where "jq_live E exec handlers ?j st1 = Some st'"
    "r_num ''jobs:failed'' (a_redis st') = r_num ''jobs:failed'' (a_redis st1) + int (jb_attempts j + 1 - (jb_try j + 1))"
    "api_clock st' = jb_due j + 2000 * int (jb_try j)
      + 1000 * (int (jb_attempts j) * (int (jb_attempts j) - 1) - int (jb_try j + 1) * (int (jb_try j + 1) - 1))"
    using Suc(3,4) run(2,3) lt by auto
  then show ?case
    using run lt by (subst jq_live.simps) (auto simp: algebra_simps)
qed

text \<open>C40: a job whose handler always throws runs exactly as often as it has attempts, each time two seconds times the
  number of tries later, and then is given up: the counter of failures shows every run, and the last one is
  \<open>n (n - 1)\<close> seconds after the first.\<close>

theorem failing_job_gives_up:
  assumes "always_throws exec name data" and "name \<in> set handlers" and "lasting ''jobs:failed'' (a_redis st)"
    and "1 \<le> n" and "0 \<le> delay"
  shows "\<exists>st'. jq_live E exec handlers
      (last (jq_pending (jq_add name data delay (Some n) (api_clock st) q))) st = Some st'
    \<and> r_num ''jobs:failed'' (a_redis st') = r_num ''jobs:failed'' (a_redis st) + int n
    \<and> api_clock st' = api_clock st + delay + 1000 * (int n * (int n - 1))"
proof -
  let ?j = "\<lparr>jb_name = name, jb_data = data, jb_due = api_clock st + delay, jb_try = 1, jb_attempts = n\<rparr>"
  have "last (jq_pending (jq_add name data delay (Some n) (api_clock st) q)) = ?j"
    by (simp add: jq_add_def)
  then show ?thesis
    using failing_job [of exec ?j handlers st E] assms by simp
qed

lemma failing_job_gives_up_witness:
  "\<exists>st'. jq_live default_env (\<lambda>_ _ st. Some (Some ''boom'', st)) [''x'']
      (last (jq_pending (jq_add ''x'' [] 0 (Some 3) (api_clock demo_api) \<lparr>jq_handlers = [''x''], jq_pending = []\<rparr>))) demo_api = Some st'
    \<and> r_num ''jobs:failed'' (a_redis st') = 3 \<and> api_clock st' = 6000"
proof -
  have 1: "always_throws (\<lambda>_ _ st. Some (Some ''boom'', st)) ''x'' []"
    by (simp add: always_throws_def)
  have 2: "lasting ''jobs:failed'' (a_redis demo_api)" "r_num ''jobs:failed'' (a_redis demo_api) = 0" "api_clock demo_api = 0"
    by (simp_all add: lasting_def ttl_of_def r_num_def r_get_def demo_api_ok(2))
      (simp add: demo_api_def api_clock_def empty_redis_def)
  show ?thesis
    using failing_job_gives_up [OF 1 _ 2(1), of "[''x'']" 3 0 default_env "\<lparr>jq_handlers = [''x''], jq_pending = []\<rparr>"] 2(2,3)
    by simp
qed

section \<open>Retention of snapshots\<close>

lemma audit_db [simp]: "a_db (audit E ev ds st) = a_db st"
  by (simp add: audit_def)

definition newest_first :: "string \<Rightarrow> db \<Rightarrow> snap list" where
  "newest_first i d = sort_key (\<lambda>x. - s_seq x) (filter (\<lambda>x. s_documentId x = i) (snaps d))"

text \<open>A snapshot the retention gives up: beyond the last ones of its document, no milestone, too old.\<close>

definition given_up :: "nat \<Rightarrow> int \<Rightarrow> db \<Rightarrow> snap \<Rightarrow> bool" where
  "given_up keepLast cutoff d x \<longleftrightarrow> \<not> s_isMilestone x \<and> s_createdAt x < cutoff
     \<and> x \<in> set (drop keepLast (newest_first (s_documentId x) d))"

lemma in_expired: "x \<in> set (expired_snaps k cutoff i d) \<longleftrightarrow> given_up k cutoff d x \<and> s_documentId x = i"
proof -
  have "y \<in> set (drop k (newest_first i d)) \<Longrightarrow> s_documentId y = i" for y
    by (drule in_set_dropD) (simp add: newest_first_def)
  then show ?thesis
    by (auto simp: expired_snaps_def given_up_def newest_first_def [symmetric])
qed

lemma given_up_in: "given_up k cutoff d x \<Longrightarrow> x \<in> set (snaps d)"
  by (auto simp: given_up_def newest_first_def dest: in_set_dropD)

lemma retain_docs:
  assumes "distinct (map s_id (snaps d))" and "distinct (js @ is)" and "0 \<le> snapshot_keep_last E"
    and "snaps (a_db st) = filter (\<lambda>x. \<not> (s_documentId x \<in> set js \<and> given_up (nat (snapshot_keep_last E)) cutoff d x)) (snaps d)"
  shows "snaps (a_db (fold (retain_doc E cutoff) is st)) =
    filter (\<lambda>x. \<not> (s_documentId x \<in> set (js @ is) \<and> given_up (nat (snapshot_keep_last E)) cutoff d x)) (snaps d)"
  using assms(2,4)
proof (induction "is" arbitrary: js st)
  case Nil
  then show ?case by simp
next
  case (Cons i "is")
  let ?k = "nat (snapshot_keep_last E)"
  let ?gone = "expired_snaps ?k cutoff i d"
  have "filter (\<lambda>x. s_documentId x = i) (snaps (a_db st)) = filter (\<lambda>x. s_documentId x = i) (snaps d)"
    using Cons.prems by (auto simp: intro!: filter_cong)
  then have e: "expired_snaps ?k cutoff i (a_db st) = ?gone"
    by (simp add: expired_snaps_def)
  have id: "s_id x \<in> s_id ` set ?gone \<longleftrightarrow> s_documentId x = i \<and> given_up ?k cutoff d x" if "x \<in> set (snaps d)" for x
  proof
    assume "s_id x \<in> s_id ` set ?gone"
    then obtain y where y: "y \<in> set ?gone" "s_id x = s_id y" by auto
    then have "y \<in> set (snaps d)" by (auto simp: in_expired given_up_in)
    with y(2) that have "x = y" using assms(1) by (auto simp: distinct_map dest: inj_onD)
    with y(1) show "s_documentId x = i \<and> given_up ?k cutoff d x" by (simp add: in_expired)
  qed (auto simp: in_expired)
  have "snaps (a_db (retain_doc E cutoff i st)) =
      filter (\<lambda>x. \<not> (s_documentId x \<in> set (js @ [i]) \<and> given_up ?k cutoff d x)) (snaps d)"
    using id by (auto simp: retain_doc_def e Let_def Cons.prems(2) intro!: filter_cong)
  with Cons.IH [of "js @ [i]" "retain_doc E cutoff i st"] Cons.prems(1) show ?case
    by simp
qed

lemma uncrowded_kept:
  assumes "given_up (nat (snapshot_keep_last E)) cutoff d x"
  shows "int (length (filter (\<lambda>y. s_documentId y = s_documentId x) (snaps d))) > snapshot_keep_last E"
proof (rule ccontr)
  assume "\<not> ?thesis"
  then have "length (newest_first (s_documentId x) d) \<le> nat (snapshot_keep_last E)"
    by (simp add: newest_first_def)
  with assms show False by (simp add: given_up_def)
qed


definition demo_snap :: "string \<Rightarrow> int \<Rightarrow> bool \<Rightarrow> snap" where
  "demo_snap i seq m = \<lparr>s_id = i, s_documentId = ''d'', s_seq = seq, s_state = [], s_vector = [], s_checksum = None,
     s_label = [], s_description = [], s_tags = [], s_category = [], s_isMilestone = m, s_createdBy = None,
     s_createdReason = ''auto'', s_createdAt = 0\<rparr>"

definition demo_history :: api where
  "demo_history = api_tick (91 * day_millis)
     (demo_api\<lparr>a_db := demo_db\<lparr>snaps := [demo_snap ''a'' 1 False, demo_snap ''b'' 2 True, demo_snap ''c'' 3 False]\<rparr>\<rparr>)"


section \<open>Compacting and rebuilding a document\<close>

lemma find_upsertState: "findByDocumentId i (upsertState i gz v c d) \<noteq> None
    \<and> c_state (the (findByDocumentId i (upsertState i gz v c d))) = gz"
  by (simp add: findByDocumentId_def upsertState_def find_upsert split: option.split)

lemma stored_after_rebuild:
  assumes "yjs_laws L join dec" and "zip_laws L"
  shows "stored_doc L (findByDocumentId i (store_rebuilt L i y d)) = y"
  using find_upsertState [of i "gzip L (y_encode L y)" "y_vector L y" "Some (sha256 L (y_encode L y))" d] assms
  by (auto simp: stored_doc_def store_rebuilt_def Let_def zip_laws_def yjs_apply [OF assms(1)]
      yjs_dec_encode [OF assms(1)] yjs_ac [OF assms(1)])

lemma processSnapshot_result:
  assumes "yjs_laws L join dec" and "zip_laws L" and "seqs_distinct i (a_db st)"
    and "length (filter (bad_row L dec) (rows_above i 0 (a_db st))) < 1000"
  shows "\<exists>st'. processSnapshot E L i st = Some st' \<and> stored_doc L (findByDocumentId i (a_db st')) =
    joined join (row_dec L dec) (map u_update (rows_above i 0 (a_db st))) (y_empty L)"
  using rebuild_ends [OF assms(1,3,4), of "y_empty L"]
  by (auto simp: processSnapshot_def stored_after_rebuild [OF assms(1,2)])

lemma rows_compacted:
  "rows_above i 0 (compactUpTo i c d) = filter (\<lambda>x. u_seq x > c) (rows_above i 0 d)"
  unfolding rows_above_def compactUpTo_def filter_sort
  by (simp, rule arg_cong [where f = "sort_key u_seq"], rule filter_cong) (auto simp: not_le)

lemma compact_db:
  "rows_above i 0 (a_db (processCompact E i st)) =
     filter (\<lambda>x. u_seq x > latestSeq i (a_db st) - doc_update_keep E) (rows_above i 0 (a_db st))"
proof (cases "latestSeq i (a_db st) - doc_update_keep E > 0")
  case True
  then show ?thesis by (simp add: processCompact_def Let_def rows_compacted)
next
  case False
  then have "\<forall>x \<in> set (rows_above i 0 (a_db st)). u_seq x > latestSeq i (a_db st) - doc_update_keep E"
    by (auto simp: rows_above_def)
  with False show ?thesis by (simp add: processCompact_def Let_def)
qed

lemma length_filter_filter: "length (filter P (filter Q xs)) \<le> length (filter P xs)"
  by (induction xs) auto

lemma compact_distinct: "seqs_distinct i (a_db st) \<Longrightarrow> seqs_distinct i (a_db (processCompact E i st))"
proof -
  assume s: "seqs_distinct i (a_db st)"
  have "distinct (map u_seq (filter (\<lambda>x. u_documentId x = i) (filter P (updates (a_db st)))))" for P
  proof -
    have "filter (\<lambda>x. u_documentId x = i) (filter P (updates (a_db st))) =
        filter P (filter (\<lambda>x. u_documentId x = i) (updates (a_db st)))"
      by (simp add: conj_commute)
    then show ?thesis
      using s distinct_map_filter unfolding seqs_distinct_def by metis
  qed
  with s show ?thesis
    by (simp add: processCompact_def compactUpTo_def seqs_distinct_def Let_def)
qed


definition demo_row :: "int \<Rightarrow> bytes \<Rightarrow> upd" where
  "demo_row n b = \<lparr>u_documentId = ''d'', u_seq = n, u_update = gzip byte_lib b, u_sizeBytes = int (length b)\<rparr>"

definition demo_edited :: api where
  "demo_edited = demo_api\<lparr>a_db := demo_db\<lparr>
     contents := [\<lparr>c_documentId = ''d'', c_state = gzip byte_lib [1, 2], c_vector = [], c_checksum = None\<rparr>],
     updates := [demo_row 1 [1], demo_row 2 [2]]\<rparr>\<rparr>"

lemma demo_edited_rows: "rows_above ''d'' 0 (a_db demo_edited) = [demo_row 1 [1], demo_row 2 [2]]"
  "latestSeq ''d'' (a_db demo_edited) = 2" "seqs_distinct ''d'' (a_db demo_edited)"
  by (simp_all add: rows_above_def latestSeq_def seqs_distinct_def demo_edited_def demo_row_def)


section \<open>Cleaning up\<close>

lemma find_content_delete:
  "findByDocumentId i (deleteByDocumentIds is d) = (if i \<in> set is then None else findByDocumentId i d)"
proof -
  have "find (\<lambda>c. c_documentId c = i) (filter (\<lambda>c. c_documentId c \<notin> set is) cs) =
      (if i \<in> set is then None else find (\<lambda>c. c_documentId c = i) cs)" for cs
    by (induction cs) auto
  from this [of "contents d"] show ?thesis
    unfolding findByDocumentId_def deleteByDocumentIds_def by simp
qed

lemma in_listDeletedBefore:
  "i \<in> set (listDeletedBefore cutoff d) \<Longrightarrow> \<exists>x \<in> set (docs d). d_id x = i \<and> d_status x = Deleted
     \<and> (\<exists>t. d_deletedAt x = Some t \<and> t \<le> cutoff)"
proof -
  assume "i \<in> set (listDeletedBefore cutoff d)"
  then obtain x where "d_id x = i" "x \<in> set (filter (\<lambda>x. d_status x = Deleted
      \<and> (case d_deletedAt x of Some t \<Rightarrow> t \<le> cutoff | None \<Rightarrow> False)) (docs d))"
    unfolding listDeletedBefore_def by (metis (no_types, lifting) imageE in_set_takeD list.set_map)
  then show ?thesis by (auto split: option.splits)
qed

text \<open>the clean-up of deleted documents removes the content of documents that were deleted longer ago than the
  limit and of no others; running it again removes nothing more, so that of more than a thousand such
  documents only the first thousand are ever cleaned.\<close>

theorem cleanup_removes_deleted:
  "(findByDocumentId i (a_db (cleanupDeleted E st)) \<noteq> findByDocumentId i (a_db st) \<longrightarrow>
      findByDocumentId i (a_db (cleanupDeleted E st)) = None \<and>
      (\<exists>x \<in> set (docs (a_db st)). d_id x = i \<and> d_status x = Deleted
        \<and> (\<exists>t. d_deletedAt x = Some t \<and> t \<le> api_clock st - doc_delete_ttl_days E * day_millis)))
   \<and> a_db (cleanupDeleted E (cleanupDeleted E st)) = a_db (cleanupDeleted E st)"
proof
  let ?is = "listDeletedBefore (api_clock st - doc_delete_ttl_days E * day_millis) (a_db st)"
  have d: "a_db (cleanupDeleted E st) = deleteByDocumentIds ?is (a_db st)"
  proof (cases "?is = []")
    case True
    then show ?thesis by (simp add: cleanupDeleted_def deleteByDocumentIds_def)
  next
    case False
    then show ?thesis by (simp add: cleanupDeleted_def Let_def)
  qed
  show "findByDocumentId i (a_db (cleanupDeleted E st)) \<noteq> findByDocumentId i (a_db st) \<longrightarrow>
      findByDocumentId i (a_db (cleanupDeleted E st)) = None \<and>
      (\<exists>x \<in> set (docs (a_db st)). d_id x = i \<and> d_status x = Deleted
        \<and> (\<exists>t. d_deletedAt x = Some t \<and> t \<le> api_clock st - doc_delete_ttl_days E * day_millis))"
    using in_listDeletedBefore [of i] by (auto simp: d find_content_delete)
  have same: "listDeletedBefore c (deleteByDocumentIds is d) = listDeletedBefore c d" for c "is" d
    by (simp add: listDeletedBefore_def deleteByDocumentIds_def)
  have "api_clock (cleanupDeleted E st) = api_clock st"
    by (simp add: cleanupDeleted_def api_clock_def audit_def Let_def)
  then have "a_db (cleanupDeleted E (cleanupDeleted E st)) = deleteByDocumentIds ?is (deleteByDocumentIds ?is (a_db st))"
    by (simp add: cleanupDeleted_def [of E "cleanupDeleted E st"] d same Let_def)
      (simp add: deleteByDocumentIds_def)
  also have "\<dots> = deleteByDocumentIds ?is (a_db st)"
    by (simp add: deleteByDocumentIds_def)
  finally show "a_db (cleanupDeleted E (cleanupDeleted E st)) = a_db (cleanupDeleted E st)"
    by (simp add: d)
qed

lemma cleanup_removes_deleted_witness:
  "findByDocumentId ''d'' (a_db (cleanupDeleted default_env demo_edited)) = findByDocumentId ''d'' (a_db demo_edited)"
proof (rule ccontr)
  assume "\<not> ?thesis"
  then have "\<exists>x \<in> set (docs (a_db demo_edited)). d_status x = Deleted"
    using cleanup_removes_deleted [of "''d''" default_env demo_edited] by auto
  then show False by (simp add: demo_edited_def demo_db_def demo_doc_def)
qed

section \<open>The retention of the repository\<close>

text \<open>\<open>enforceRetention\<close> of \<open>document-snapshot.repo.ts\<close>, which counts what it keeps: \<open>kept\<close> is that count, the result the
  identifiers it deletes.\<close>

fun retention_loop :: "nat \<Rightarrow> int \<Rightarrow> nat \<Rightarrow> snap list \<Rightarrow> string list" where
  "retention_loop keepLast cutoff kept [] = []"
| "retention_loop keepLast cutoff kept (x # xs) =
     (let rest = retention_loop keepLast cutoff (kept + 1) xs in
      if kept + 1 \<le> keepLast then rest
      else if \<not> s_isMilestone x \<and> s_createdAt x < cutoff then s_id x # rest
      else rest)"

definition enforceRetention :: "int \<Rightarrow> string \<Rightarrow> nat \<Rightarrow> int \<Rightarrow> db \<Rightarrow> nat \<times> db" where
  "enforceRetention now documentId keepLast maxAgeDays d =
     (let cutoff = now - maxAgeDays * day_millis;
          toDelete = retention_loop keepLast cutoff 0 (sort_key (\<lambda>x. - s_seq x) (filter (\<lambda>x. s_documentId x = documentId) (snaps d)))
      in (length toDelete, if toDelete = [] then d else d\<lparr>snaps := filter (\<lambda>x. s_id x \<notin> set toDelete) (snaps d)\<rparr>))"

lemma retention_loop_eq:
  "retention_loop keepLast cutoff kept xs =
     map s_id (filter (\<lambda>x. \<not> s_isMilestone x \<and> s_createdAt x < cutoff) (drop (keepLast - kept) xs))"
proof (induction xs arbitrary: kept)
  case (Cons x xs)
  then show ?case
    by (cases "keepLast - kept") (auto simp: Let_def diff_Suc split: nat.splits)
qed simp

text \<open>the repository's retention, which counts as it goes, deletes the same snapshots of a document as the nightly
  job, which cuts the list, with the same limits.\<close>

theorem retentions_agree:
  "snd (enforceRetention (api_clock st) i (nat (snapshot_keep_last E)) (snapshot_max_age_days E) (a_db st))
     = a_db (retain_doc E (api_clock st - snapshot_max_age_days E * day_millis) i st)"
proof -
  let ?gone = "expired_snaps (nat (snapshot_keep_last E)) (api_clock st - snapshot_max_age_days E * day_millis) i (a_db st)"
  have "(if map s_id ?gone = [] then d else d\<lparr>snaps := filter (\<lambda>x. s_id x \<notin> set (map s_id ?gone)) (snaps d)\<rparr>)
      = d\<lparr>snaps := filter (\<lambda>x. s_id x \<notin> set (map s_id ?gone)) (snaps d)\<rparr>" for d :: db
    by simp
  then show ?thesis
    unfolding enforceRetention_def Let_def retention_loop_eq snd_conv diff_zero expired_snaps_def [symmetric]
    by (simp add: retain_doc_def Let_def audit_def)
qed

end
