(* ===== verification/Workspaces.thy ===== *)
theory Workspaces
  imports DocumentOps Sanitize
begin

text \<open>
  Workspaces: \<open>WorkspacesService\<close> and \<open>WorkspacesController\<close> (\<open>api/src/workspaces\<close>). A transaction
  changes the database as a whole or not at all. The guards of the membership routes are those of
  \<open>Access\<close>; the routes for a workspace itself have none but \<open>AuthGuard\<close>.
\<close>

section \<open>WorkspacesService\<close>

definition ws_create :: "string \<Rightarrow> string \<Rightarrow> string \<Rightarrow> db \<Rightarrow> (api_error + workspace) \<times> db" where
  "ws_create name slug ownerId d = (case workspace_create name slug ownerId d of
     None \<Rightarrow> (Inl (Crash ''duplicate key''), d)
   | Some (w, d1) \<Rightarrow> (Inr w, member_upsert (w_id w) ownerId ''owner'' d1))"

definition ws_list :: "string \<Rightarrow> db \<Rightarrow> workspace list" where
  "ws_list ownerId d = workspace_listByOwner ownerId d"

record ws_patch =
  wp_name :: "string option"
  wp_slug :: "string option"

definition patch_ws :: "ws_patch \<Rightarrow> workspace \<Rightarrow> workspace" where
  "patch_ws p w = w\<lparr>w_name := (case wp_name p of Some n \<Rightarrow> n | None \<Rightarrow> w_name w),
     w_slug := (case wp_slug p of Some s \<Rightarrow> to_lower s | None \<Rightarrow> w_slug w)\<rparr>"

text \<open>The unique index refuses a slug that another workspace has.\<close>

definition slug_taken :: "string \<Rightarrow> (workspace \<Rightarrow> workspace) \<Rightarrow> db \<Rightarrow> bool" where
  "slug_taken i f d = (case workspace_findById i d of
     None \<Rightarrow> False
   | Some w \<Rightarrow> w_slug (f w) \<in> w_slug ` set (filter (\<lambda>x. w_id x \<noteq> i) (workspaces d)))"

definition ws_change :: "string \<Rightarrow> (workspace \<Rightarrow> workspace) \<Rightarrow> db \<Rightarrow> (api_error + workspace option) \<times> db" where
  "ws_change i f d =
     (if slug_taken i f d then (Inl (Crash ''duplicate key''), d)
      else let (w, d1) = workspace_update i f d in (Inr w, d1))"

definition ws_update :: "string \<Rightarrow> (workspace \<Rightarrow> workspace) \<Rightarrow> db \<Rightarrow> (api_error + workspace) \<times> db" where
  "ws_update i f d = (case ws_change i f d of
     (Inl e, d1) \<Rightarrow> (Inl e, d1)
   | (Inr None, d1) \<Rightarrow> (Inl (NotFound ''Workspace not found''), d1)
   | (Inr (Some w), d1) \<Rightarrow> (Inr w, d1))"

definition ws_get :: "string \<Rightarrow> db \<Rightarrow> workspace option" where
  "ws_get i d = workspace_findById i d"

definition ws_remove :: "string \<Rightarrow> db \<Rightarrow> (api_error + workspace option) \<times> db" where
  "ws_remove i d = (case workspace_findById i d of
     None \<Rightarrow> (Inl (NotFound ''Workspace not found''), d)
   | Some ws \<Rightarrow> ws_change i (\<lambda>w. w\<lparr>w_slug := w_slug ws, w_name := w_name ws @ '' (deleted)''\<rparr>) d)"

definition ws_addOrUpdateMember :: "string \<Rightarrow> string \<Rightarrow> string \<Rightarrow> db \<Rightarrow> db" where
  "ws_addOrUpdateMember workspaceId userId role d = member_upsert workspaceId userId role d"

definition ws_removeMember :: "string \<Rightarrow> string \<Rightarrow> db \<Rightarrow> db" where
  "ws_removeMember workspaceId userId d = member_remove workspaceId userId d"

section \<open>WorkspacesController\<close>

definition with_db :: "('r \<times> db) \<Rightarrow> api \<Rightarrow> 'r \<times> api" where
  "with_db r st = (fst r, st\<lparr>a_db := snd r\<rparr>)"

definition wc_create :: "req_user \<Rightarrow> string \<Rightarrow> string \<Rightarrow> api \<Rightarrow> (api_error + workspace) \<times> api" where
  "wc_create u name slug st = with_db (ws_create name slug (id_text (ru_id u)) (a_db st)) st"

text \<open>The patch of \<open>UpdateWorkspaceDto\<close>; it has no settings.\<close>

definition wc_update :: "string \<Rightarrow> ws_patch \<Rightarrow> api \<Rightarrow> (api_error + workspace) \<times> api" where
  "wc_update i p st = with_db (ws_update i (patch_ws (p\<lparr>wp_name := map_option stripHtml (wp_name p)\<rparr>)) (a_db st)) st"

definition wc_remove :: "string \<Rightarrow> api \<Rightarrow> (api_error + workspace option) \<times> api" where
  "wc_remove i st = with_db (ws_remove i (a_db st)) st"

definition ws_guarded ::
  "env \<Rightarrow> string \<Rightarrow> req_user \<Rightarrow> string \<Rightarrow> (api \<Rightarrow> (api_error + 'a) \<times> api) \<Rightarrow> api \<Rightarrow> (api_error + 'a) \<times> api" where
  "ws_guarded E required u ws act st =
     (case workspace_guard E (a_db st) required (Some u) (if ws = [] then None else Some ws) (a_redis st) of
        (Allow, s) \<Rightarrow> act (st\<lparr>a_redis := s\<rparr>)
      | (Forbid m, s) \<Rightarrow> (Inl (Forbidden m), st\<lparr>a_redis := s\<rparr>))"

definition wc_listMembers :: "env \<Rightarrow> req_user \<Rightarrow> string \<Rightarrow> api \<Rightarrow> (api_error + member list) \<times> api" where
  "wc_listMembers E u ws st = ws_guarded E ''admin'' u ws (\<lambda>st. (Inr (listMembers ws (a_db st)), st)) st"

text \<open>The user named in the body, by identifier or address.\<close>

definition member_user :: "string \<Rightarrow> string \<Rightarrow> db \<Rightarrow> api_error + string" where
  "member_user bodyUser bodyEmail d =
     (if bodyUser \<noteq> [] then Inr bodyUser
      else if bodyEmail = [] then Inl (Crash ''userId or email required'')
      else case user_findByEmail (js_trim (to_lower bodyEmail)) d of
          None \<Rightarrow> Inl (Crash ''User not found'')
        | Some v \<Rightarrow> Inr (us_id v))"

definition wc_addMember ::
  "env \<Rightarrow> req_user \<Rightarrow> string \<Rightarrow> string \<Rightarrow> string \<Rightarrow> string \<Rightarrow> api \<Rightarrow> (api_error + unit) \<times> api" where
  "wc_addMember E u ws bodyUser bodyEmail role st = ws_guarded E ''admin'' u ws
     (\<lambda>st. case member_user bodyUser bodyEmail (a_db st) of
          Inl e \<Rightarrow> (Inl e, st)
        | Inr userId \<Rightarrow> (Inr (), audit E ''security.role.update''
            [(''workspaceId'', JStr ws), (''userId'', JStr userId), (''role'', JStr role)]
            (st\<lparr>a_db := ws_addOrUpdateMember ws userId role (a_db st)\<rparr>))) st"

definition wc_removeMember :: "env \<Rightarrow> req_user \<Rightarrow> string \<Rightarrow> string \<Rightarrow> api \<Rightarrow> (api_error + unit) \<times> api" where
  "wc_removeMember E u ws userId st = ws_guarded E ''admin'' u ws
     (\<lambda>st. (Inr (), st\<lparr>a_db := ws_removeMember ws userId (a_db st)\<rparr>)) st"

text \<open>The body of the settings route is stored as it is, field by field.\<close>

definition settings_of :: "json \<Rightarrow> workspace \<Rightarrow> workspace" where
  "settings_of j w = w\<lparr>
     w_description := (case jfield ''description'' j of Some (JStr s) \<Rightarrow> Some s | _ \<Rightarrow> None),
     w_maxDocuments := (case jfield ''resourceLimits'' j of Some r \<Rightarrow> jnum ''maxDocuments'' r | None \<Rightarrow> 0),
     w_defaultRole := (case jfield ''defaultRole'' j of Some (JStr s) \<Rightarrow> Some s | _ \<Rightarrow> None)\<rparr>"

fun set_ws_field :: "string \<times> json \<Rightarrow> workspace \<Rightarrow> workspace" where
  "set_ws_field (f, JStr s) w =
     (if f = ''name'' then w\<lparr>w_name := s\<rparr>
      else if f = ''slug'' then w\<lparr>w_slug := to_lower s\<rparr>
      else if f = ''ownerId'' then w\<lparr>w_ownerId := s\<rparr>
      else w)"
| "set_ws_field (f, JObj kvs) w = (if f = ''settings'' then settings_of (JObj kvs) w else w)"
| "set_ws_field (f, _) w = w"

definition wc_updateSettings ::
  "env \<Rightarrow> req_user \<Rightarrow> string \<Rightarrow> (string \<times> json) list \<Rightarrow> api \<Rightarrow> (api_error + workspace) \<times> api" where
  "wc_updateSettings E u ws body st = ws_guarded E ''admin'' u ws
     (\<lambda>st. with_db (ws_update ws (fold set_ws_field body) (a_db st)) st) st"

section \<open>Slugs\<close>

definition slugs_unique :: "db \<Rightarrow> bool" where
  "slugs_unique d \<longleftrightarrow> distinct (map w_slug (workspaces d)) \<and> distinct (map w_id (workspaces d))"

text \<open>The requests of the controller that change something.\<close>

datatype ws_request =
    WsCreate string string
  | WsUpdate string ws_patch
  | WsRemove string
  | WsAddMember string string string string
  | WsRemoveMember string string
  | WsSettings string "(string \<times> json) list"

fun ws_step :: "env \<Rightarrow> req_user \<times> ws_request \<Rightarrow> api \<Rightarrow> api" where
  "ws_step E (u, WsCreate name slug) st = snd (wc_create u name slug st)"
| "ws_step E (u, WsUpdate i p) st = snd (wc_update i p st)"
| "ws_step E (u, WsRemove i) st = snd (wc_remove i st)"
| "ws_step E (u, WsAddMember ws v e role) st = snd (wc_addMember E u ws v e role st)"
| "ws_step E (u, WsRemoveMember ws v) st = snd (wc_removeMember E u ws v st)"
| "ws_step E (u, WsSettings ws body) st = snd (wc_updateSettings E u ws body st)"

text \<open>What the database of workspaces has to be: identifiers handed out, no two alike, nor two slugs.\<close>

definition ws_sound :: "db \<Rightarrow> bool" where
  "ws_sound d \<longleftrightarrow> slugs_unique d \<and> (\<forall>w \<in> set (workspaces d). \<exists>n < next_id d. w_id w = show_nat n)"

lemma update_row_map_same:
  "(\<And>x. P x \<Longrightarrow> h (g x) = h x) \<Longrightarrow> map h (update_row P g xs) = map h xs"
  by (induction xs) auto

lemma ws_change_ids:
  "map w_id (workspaces (snd (ws_change i f d))) = map w_id (workspaces d)
   \<and> next_id (snd (ws_change i f d)) = next_id d \<and> members (snd (ws_change i f d)) = members d"
  by (simp add: ws_change_def workspace_update_def Let_def update_row_map_same)

lemma update_row_slugs:
  assumes "distinct (map w_slug ws)" and "distinct (map w_id ws)"
    and "find (\<lambda>w. w_id w = i) ws = Some w"
    and "w_slug (f w) \<notin> w_slug ` set (filter (\<lambda>x. w_id x \<noteq> i) ws)"
  shows "distinct (map w_slug (update_row (\<lambda>w. w_id w = i) (\<lambda>w. (f w)\<lparr>w_id := w_id w\<rparr>) ws))"
  using assms
proof (induction ws)
  case (Cons x xs)
  show ?case
  proof (cases "w_id x = i")
    case True
    with Cons.prems have "w = x" "filter (\<lambda>x. w_id x \<noteq> i) xs = xs" by (auto simp: filter_id_conv image_iff)
    with True Cons.prems show ?thesis by auto
  next
    case False
    have "w_slug ` set (update_row (\<lambda>w. w_id w = i) (\<lambda>w. (f w)\<lparr>w_id := w_id w\<rparr>) xs)
        \<subseteq> insert (w_slug (f w)) (w_slug ` set xs)"
      using Cons.prems(3) False
      by (induction xs) (auto split: if_splits)
    with False Cons show ?thesis by auto
  qed
qed simp

lemma ws_change_sound:
  assumes "ws_sound d"
  shows "ws_sound (snd (ws_change i f d))"
proof (cases "slug_taken i f d")
  case True
  with assms show ?thesis by (simp add: ws_change_def)
next
  case False
  let ?d = "snd (ws_change i f d)"
  have ids: "map w_id (workspaces ?d) = map w_id (workspaces d)" "next_id ?d = next_id d"
    using ws_change_ids by simp_all
  have "distinct (map w_slug (workspaces ?d))"
  proof (cases "workspace_findById i d")
    case None
    then have "workspaces ?d = workspaces d"
      using False by (simp add: ws_change_def workspace_update_def Let_def workspace_findById_def find_None_iff update_row_none)
    with assms show ?thesis by (simp add: ws_sound_def slugs_unique_def)
  next
    case (Some w)
    then have "distinct (map w_slug (update_row (\<lambda>w. w_id w = i) (\<lambda>w. (f w)\<lparr>w_id := w_id w\<rparr>) (workspaces d)))"
      using assms False
      by (intro update_row_slugs [where w = w]) (auto simp: ws_sound_def slugs_unique_def slug_taken_def workspace_findById_def)
    with False show ?thesis by (simp add: ws_change_def workspace_update_def Let_def)
  qed
  moreover have "\<forall>w \<in> set (workspaces ?d). \<exists>n < next_id ?d. w_id w = show_nat n"
  proof
    fix w assume "w \<in> set (workspaces ?d)"
    then have "w_id w \<in> set (map w_id (workspaces d))" using ids(1) by (metis image_eqI set_map)
    with assms ids(2) show "\<exists>n < next_id ?d. w_id w = show_nat n" by (auto simp: ws_sound_def)
  qed
  ultimately show ?thesis
    using assms ids(1) by (simp add: ws_sound_def slugs_unique_def)
qed

lemma ws_update_change: "snd (ws_update i f d) = snd (ws_change i f d)"
  by (cases "ws_change i f d") (auto simp: ws_update_def split: sum.split option.split)

lemma ws_create_sound:
  assumes "ws_sound d"
  shows "ws_sound (snd (ws_create name slug owner d))"
proof (cases "workspace_create name slug owner d")
  case None
  with assms show ?thesis by (simp add: ws_create_def)
next
  case (Some p)
  then obtain w d1 where p: "p = (w, d1)" "w_id w = show_nat (next_id d)" "w_slug w = to_lower slug"
    "workspaces d1 = workspaces d @ [w]" "next_id d1 = next_id d + 1"
    "\<forall>x \<in> set (workspaces d). w_slug x \<noteq> to_lower slug"
    by (auto simp: workspace_create_def fresh_id_def Let_def split: if_splits)
  have "show_nat (next_id d) \<notin> w_id ` set (workspaces d)"
    using assms by (auto simp: ws_sound_def)
  moreover have "\<exists>n < next_id d + 1. w_id x = show_nat n" if "x \<in> set (workspaces d)" for x
    using assms that by (auto simp: ws_sound_def intro: less_trans [OF _ lessI] dest!: bspec)
  ultimately show ?thesis
    using assms Some p by (auto simp: ws_create_def ws_sound_def slugs_unique_def member_upsert_def)
qed

lemma ws_guarded_db:
  assumes "\<And>s. P (a_db (snd (act (st\<lparr>a_redis := s\<rparr>))))" and "P (a_db st)"
  shows "P (a_db (snd (ws_guarded E req u ws act st)))"
  using assms by (auto simp: ws_guarded_def split: prod.split verdict.split)

lemma sound_cong: "workspaces d' = workspaces d \<Longrightarrow> next_id d' = next_id d \<Longrightarrow> ws_sound d' = ws_sound d"
  by (simp add: ws_sound_def slugs_unique_def)

lemma ws_step_sound:
  assumes "ws_sound (a_db st)"
  shows "ws_sound (a_db (ws_step E r st))"
proof -
  obtain u q where r: "r = (u, q)" by (cases r)
  have remove: "ws_sound (snd (ws_remove i (a_db st)))" for i
    using assms ws_change_sound [OF assms] by (auto simp: ws_remove_def split: option.split)
  show ?thesis
  proof (cases q)
    case (WsAddMember ws v e role)
    then show ?thesis
      unfolding r ws_step.simps WsAddMember wc_addMember_def
      by (intro ws_guarded_db [where P = ws_sound] assms)
        (auto simp: ws_addOrUpdateMember_def member_upsert_def audit_def assms split: sum.split
          intro!: iffD2 [OF sound_cong assms])
  next
    case (WsRemoveMember ws v)
    show ?thesis
      unfolding r ws_step.simps WsRemoveMember wc_removeMember_def
      by (intro ws_guarded_db [where P = ws_sound] assms)
        (auto simp: ws_removeMember_def member_remove_def intro!: iffD2 [OF sound_cong assms])
  next
    case (WsSettings ws body)
    show ?thesis
      unfolding r ws_step.simps WsSettings wc_updateSettings_def
      by (intro ws_guarded_db [where P = ws_sound] assms)
        (simp add: with_db_def ws_update_change ws_change_sound assms)
  qed (simp_all add: r wc_create_def wc_update_def wc_remove_def with_db_def ws_create_sound ws_update_change
      ws_change_sound remove assms)
qed


definition demo_editor :: req_user where
  "demo_editor = \<lparr>ru_id = Oid ''m'', ru_email = None, ru_share = None\<rparr>"


section \<open>Members\<close>

definition ws_members :: "string \<Rightarrow> db \<Rightarrow> member list" where
  "ws_members ws d = filter (\<lambda>m. m_workspaceId m = ws) (members d)"

definition is_ws_admin :: "string \<Rightarrow> req_user \<Rightarrow> db \<Rightarrow> bool" where
  "is_ws_admin ws u d \<longleftrightarrow> (case findRole ws (id_text (ru_id u)) d of
     None \<Rightarrow> False | Some m \<Rightarrow> js_ge (ws_rank (m_role m)) (ws_rank ''admin''))"

lemma findRole_members: "findRole ws v d = find (\<lambda>m. m_userId m = v) (ws_members ws d)"
proof -
  have "find (\<lambda>m. m_workspaceId m = ws \<and> m_userId m = v) ms = find (\<lambda>m. m_userId m = v) (filter (\<lambda>m. m_workspaceId m = ws) ms)" for ms
    by (induction ms) auto
  then show ?thesis by (simp add: findRole_def ws_members_def)
qed

lemma ws_admin_cong: "ws_members ws d' = ws_members ws d \<Longrightarrow> is_ws_admin ws u d' = is_ws_admin ws u d"
  by (simp add: is_ws_admin_def findRole_members)

lemma ws_members_other:
  "ws' \<noteq> ws \<Longrightarrow> ws_members ws (member_upsert ws' v role d) = ws_members ws d"
  "ws' \<noteq> ws \<Longrightarrow> ws_members ws (member_remove ws' v d) = ws_members ws d"
proof -
  assume ne: "ws' \<noteq> ws"
  have "filter (\<lambda>m. m_workspaceId m = ws) (upsert_row (\<lambda>m. m_workspaceId m = ws' \<and> m_userId m = v) (\<lambda>m. m\<lparr>m_role := role\<rparr>)
      \<lparr>m_workspaceId = ws', m_userId = v, m_role = role\<rparr> ms) = filter (\<lambda>m. m_workspaceId m = ws) ms" for ms
    using ne by (induction ms) auto
  then show "ws_members ws (member_upsert ws' v role d) = ws_members ws d"
    by (simp add: ws_members_def member_upsert_def)
  have "filter (\<lambda>m. m_workspaceId m = ws) (delete_row (\<lambda>m. m_workspaceId m = ws' \<and> m_userId m = v) ms) =
      filter (\<lambda>m. m_workspaceId m = ws) ms" for ms
    using ne by (induction ms) auto
  then show "ws_members ws (member_remove ws' v d) = ws_members ws d"
    by (simp add: ws_members_def member_remove_def)
qed

lemma not_admin_refused:
  "\<not> is_ws_admin ws u (a_db st) \<Longrightarrow> ws \<noteq> [] \<Longrightarrow> a_db (snd (ws_guarded E ''admin'' u ws act st)) = a_db st"
  by (auto simp: ws_guarded_def workspace_guard_def denied_def is_ws_admin_def Let_def split: option.splits)

lemma ws_step_members:
  assumes "ws \<noteq> []" and "\<not> is_ws_admin ws u (a_db st)" and "\<forall>n \<ge> next_id (a_db st). ws \<noteq> show_nat n"
  shows "ws_members ws (a_db (ws_step E (u, q) st)) = ws_members ws (a_db st)
    \<and> next_id (a_db st) \<le> next_id (a_db (ws_step E (u, q) st))"
proof -
  have change: "ws_members ws (snd (ws_change i f (a_db st))) = ws_members ws (a_db st)
      \<and> next_id (snd (ws_change i f (a_db st))) = next_id (a_db st)" for i f
    using ws_change_ids by (simp add: ws_members_def)
  have guarded: "ws_members ws (a_db (snd (ws_guarded E ''admin'' u ws' act st))) = ws_members ws (a_db st)
      \<and> next_id (a_db st) \<le> next_id (a_db (snd (ws_guarded E ''admin'' u ws' act st)))"
    if "\<And>s. ws' \<noteq> ws \<Longrightarrow> ws_members ws (a_db (snd (act (st\<lparr>a_redis := s\<rparr>)))) = ws_members ws (a_db st)
      \<and> next_id (a_db st) \<le> next_id (a_db (snd (act (st\<lparr>a_redis := s\<rparr>))))" for ws' and act :: "api \<Rightarrow> (api_error + 'r) \<times> api"
  proof (cases "ws' = ws")
    case True
    then show ?thesis by (simp add: not_admin_refused [OF assms(2,1)])
  next
    case False
    then show ?thesis
      using ws_guarded_db [where P = "\<lambda>d. ws_members ws d = ws_members ws (a_db st) \<and> next_id (a_db st) \<le> next_id d"] that
      by blast
  qed
  show ?thesis
  proof (cases q)
    case (WsCreate name slug)
    have "ws \<noteq> show_nat (next_id (a_db st))" using assms(3) by simp
    then show ?thesis
      using WsCreate ws_members_other(1) [of "show_nat (next_id (a_db st))" ws]
      by (auto simp: wc_create_def with_db_def ws_create_def workspace_create_def fresh_id_def Let_def)
        (auto simp: ws_members_def member_upsert_def)
  next
    case (WsRemove i)
    then show ?thesis
      using change by (auto simp: wc_remove_def with_db_def ws_remove_def split: option.split)
  next
    case (WsAddMember ws' v e role)
    show ?thesis
      unfolding WsAddMember ws_step.simps wc_addMember_def
      by (rule guarded) (auto simp: ws_addOrUpdateMember_def ws_members_other audit_def split: sum.split,
        simp add: member_upsert_def)
  next
    case (WsRemoveMember ws' v)
    show ?thesis
      unfolding WsRemoveMember ws_step.simps wc_removeMember_def
      by (rule guarded) (auto simp: ws_removeMember_def ws_members_other, simp add: member_remove_def)
  next
    case (WsSettings ws' body)
    show ?thesis
      unfolding WsSettings ws_step.simps wc_updateSettings_def
      by (rule guarded) (simp add: with_db_def ws_update_change change)
  qed (simp add: wc_update_def with_db_def ws_update_change change)
qed

text \<open>C24: who is a member of a workspace and with which role changes only through an administrator or owner of it:
  requests of others, in any number and order, leave its members as they are.\<close>

theorem membership_needs_admin:
  assumes "ws \<noteq> []" and "\<forall>n \<ge> next_id (a_db st). ws \<noteq> show_nat n"
    and "\<forall>(u, q) \<in> set rs. \<not> is_ws_admin ws u (a_db st)"
  shows "ws_members ws (a_db (fold (ws_step E) rs st)) = ws_members ws (a_db st)"
  using assms(2,3)
proof (induction rs arbitrary: st)
  case (Cons r rs)
  obtain u q where r: "r = (u, q)" by (cases r)
  let ?st = "ws_step E r st"
  have 1: "ws_members ws (a_db ?st) = ws_members ws (a_db st)" "next_id (a_db st) \<le> next_id (a_db ?st)"
    using ws_step_members [OF assms(1), of u st E q] Cons.prems r by auto
  have "ws_members ws (a_db (fold (ws_step E) rs ?st)) = ws_members ws (a_db ?st)"
    using Cons.prems 1 ws_admin_cong [OF 1(1)] by (intro Cons.IH) auto
  with 1 show ?case by simp
qed simp

lemma membership_needs_admin_witness:
  "ws_members ''w'' (a_db (fold (ws_step default_env)
     [(demo_editor, WsAddMember ''w'' ''z'' [] ''admin''), (demo_editor, WsRemoveMember ''w'' ''m'')] demo_api)) =
   [\<lparr>m_workspaceId = ''w'', m_userId = ''m'', m_role = ''editor''\<rparr>]"
proof -
  have m: "members (a_db demo_api) = [\<lparr>m_workspaceId = ''w'', m_userId = ''m'', m_role = ''editor''\<rparr>]"
    by (simp add: demo_api_def demo_db_def)
  have "''w'' \<noteq> show_nat n" for n
  proof
    assume w: "''w'' = show_nat n"
    then have "read_nat ''w'' = n" by (metis read_show_nat)
    moreover have "read_nat ''w'' = 71 \<and> ''w'' \<noteq> show_nat 71" by code_simp
    ultimately show False using w by simp
  qed
  then show ?thesis
    using membership_needs_admin [of "''w''" demo_api "[(demo_editor, WsAddMember ''w'' ''z'' [] ''admin''),
      (demo_editor, WsRemoveMember ''w'' ''m'')]" default_env]
    by (simp add: is_ws_admin_def findRole_members ws_members_def m demo_editor_def ws_rank_def)
qed

text \<open>
  The routes for a workspace itself ask for no role: anybody signed in renames one or marks it deleted. The
  description of the settings is cleaned by a route whose requests may not carry it, and stored
  uncleaned by the other.
\<close>

lemma anyone_removes_workspace:
  assumes "workspace_findById i (a_db st) = Some w" and "ws_sound (a_db st)"
  shows "\<exists>v. fst (wc_remove i st) = Inr (Some v) \<and> w_name v = w_name w @ '' (deleted)''"
proof -
  have "w_slug w \<notin> w_slug ` set (filter (\<lambda>x. w_id x \<noteq> i) (workspaces (a_db st)))"
    using assms find_Some_set [of "\<lambda>x. w_id x = i" "workspaces (a_db st)" w]
    by (auto simp: workspace_findById_def ws_sound_def slugs_unique_def distinct_map dest: inj_onD)
  then have "\<not> slug_taken i (\<lambda>v. v\<lparr>w_slug := w_slug w, w_name := w_name w @ '' (deleted)''\<rparr>) (a_db st)"
    using assms(1) by (simp add: slug_taken_def)
  then show ?thesis
    using assms(1) find_update [of "\<lambda>x. w_id x = i" "\<lambda>v. (v\<lparr>w_slug := w_slug w, w_name := w_name w @ '' (deleted)''\<rparr>)
      \<lparr>w_id := w_id v\<rparr>" "workspaces (a_db st)"]
    by (simp add: wc_remove_def with_db_def ws_remove_def ws_change_def workspace_update_def workspace_findById_def Let_def)
qed

lemma settings_stored_uncleaned:
  "w_description (set_ws_field (''settings'', JObj [(''description'', JStr ''<script>'')]) w) = Some ''<script>''"
  by (simp add: settings_of_def)

end
