(* ===== verification/Account.thy ===== *)
theory Account
  imports AuthProps Comments
begin

unbundle bit_operations_syntax

text \<open>
  What belongs to a user's account: feature flags (\<open>api/src/features\<close>), the export and deletion of
  personal data (\<open>api/src/privacy\<close>), notifications and their preferences (\<open>api/src/notifications\<close>), and the
  logs administrators read (\<open>api/src/security\<close>, \<open>api/src/common/admin.guard.ts\<close>).
\<close>

section \<open>Feature flags\<close>

text \<open>FNV-1a on 32 bits. The first value is a positive number, every later one signed, as \<open>^\<close> and \<open>Math.imul\<close>
  make it; \<open>%\<close> truncates.\<close>

definition fnv_step :: "int \<Rightarrow> char \<Rightarrow> int" where
  "fnv_step h c = sint (((word_of_int h :: 32 word) XOR of_nat (of_char c)) * 16777619)"

definition js_rem :: "int \<Rightarrow> int \<Rightarrow> int" where
  "js_rem a b = sgn a * (\<bar>a\<bar> mod \<bar>b\<bar>)"

definition hashToPercent :: "string \<Rightarrow> int" where
  "hashToPercent input = (let h = foldl fnv_step 2166136261 input in js_rem (js_rem h 100 + 100) 100)"

record flag =
  fl_key :: string
  fl_enabled :: bool
  fl_rollout :: "int option"
  fl_allow :: "string list option"

text \<open>\<open>allowUsers.includes(userId)\<close> is true for a text only.\<close>

definition ident_truthy :: "ident option \<Rightarrow> bool" where
  "ident_truthy u = (case u of None \<Rightarrow> False | Some i \<Rightarrow> i \<noteq> Text [])"

definition flag_allows :: "flag \<Rightarrow> ident option \<Rightarrow> bool" where
  "flag_allows f u = (case (fl_allow f, u) of
     (Some us, Some i) \<Rightarrow> ident_truthy u \<and> (\<exists>a \<in> set us. strict_eq a i)
   | _ \<Rightarrow> False)"

definition flag_percent :: "flag \<Rightarrow> int" where
  "flag_percent f = max 0 (min 100 (case fl_rollout f of Some n \<Rightarrow> if n \<noteq> 0 then n else 100 | None \<Rightarrow> 100))"

definition flag_on :: "flag \<Rightarrow> ident option \<Rightarrow> bool" where
  "flag_on f u =
     (if \<not> fl_enabled f then False
      else if flag_allows f u then True
      else if flag_percent f \<ge> 100 then True
      else if \<not> ident_truthy u then False
      else hashToPercent (fl_key f @ '':'' @ id_text (the u)) < flag_percent f)"

definition evaluateForUser :: "flag list \<Rightarrow> ident option \<Rightarrow> (string \<times> bool) list" where
  "evaluateForUser flags u = foldl (\<lambda>out f. map_put (fl_key f) (flag_on f u) out) [] flags"

definition flag_json :: "flag \<Rightarrow> json" where
  "flag_json f = JObj ([(''key'', JStr (fl_key f)), (''enabled'', JBool (fl_enabled f))]
     @ (case fl_rollout f of Some n \<Rightarrow> [(''rolloutPercent'', JNum n)] | None \<Rightarrow> [])
     @ (case fl_allow f of Some us \<Rightarrow> [(''allowUsers'', JArr (map JStr us))] | None \<Rightarrow> []))"

definition flag_of_json :: "json \<Rightarrow> flag" where
  "flag_of_json j = \<lparr>fl_key = jstr ''key'' j, fl_enabled = truthy (jfield ''enabled'' j),
     fl_rollout = (case jfield ''rolloutPercent'' j of Some (JNum n) \<Rightarrow> Some n | _ \<Rightarrow> None),
     fl_allow = (case jfield ''allowUsers'' j of Some (JArr js) \<Rightarrow> Some (map (\<lambda>a. js_text (Some a)) js) | _ \<Rightarrow> None)\<rparr>"

definition features_key :: string where
  "features_key = ''features:config''"

definition features_getConfig :: "redis \<Rightarrow> flag list" where
  "features_getConfig s = (case r_get features_key s of
     Some (Js j) \<Rightarrow> (case jfield ''flags'' j of Some (JArr js) \<Rightarrow> map flag_of_json js | _ \<Rightarrow> [])
   | _ \<Rightarrow> [])"

definition features_setConfig :: "flag list \<Rightarrow> redis \<Rightarrow> redis" where
  "features_setConfig flags s = r_set features_key (Js (JObj [(''flags'', JArr (map flag_json flags))])) s"

text \<open>\<open>assertKey\<close>; \<open>key\<close> is the header, \<open>secret\<close> the variable \<open>FEATURE_KEY\<close>, absent ones \<open>''''\<close>. It throws a plain error.\<close>

definition assertKey :: "string \<Rightarrow> string \<Rightarrow> bool" where
  "assertKey secret key \<longleftrightarrow> secret \<noteq> [] \<and> key = secret"

definition features_list :: "req_user \<Rightarrow> redis \<Rightarrow> (string \<times> bool) list" where
  "features_list u s = evaluateForUser (features_getConfig s) (Some (ru_id u))"

definition fc_getConfig :: "string \<Rightarrow> string \<Rightarrow> redis \<Rightarrow> api_error + flag list" where
  "fc_getConfig secret key s = (if assertKey secret key then Inr (features_getConfig s) else Inl (Crash ''Forbidden''))"

definition fc_setConfig :: "string \<Rightarrow> string \<Rightarrow> flag list \<Rightarrow> redis \<Rightarrow> (api_error + unit) \<times> redis" where
  "fc_setConfig secret key flags s =
     (if assertKey secret key then (Inr (), features_setConfig flags s) else (Inl (Crash ''Forbidden''), s))"

section \<open>Privacy\<close>

record privacy_export =
  px_user :: "user option"
  px_owned :: "workspace list"
  px_documents :: "(string \<times> doc list) list"
  px_memberships :: "member list"
  px_sessions :: "string list"

definition privacy_export_of :: "string \<Rightarrow> api \<Rightarrow> privacy_export" where
  "privacy_export_of userId st =
     (let owned = workspace_listByOwner userId (a_db st)
      in \<lparr>px_user = user_findById userId (a_db st), px_owned = owned,
          px_documents = map (\<lambda>w. (w_id w, listByWorkspace (\<lambda>_ _. False) (w_id w) [] [] (a_db st))) owned,
          px_memberships = member_listByUser userId (a_db st),
          px_sessions = r_smembers (userSessionsKey userId) (a_redis st)\<rparr>)"

text \<open>An update whose fields may be \<open>undefined\<close>: Mongoose leaves such a field as it is.\<close>

record user_patch =
  up_email :: "string option"
  up_name :: "string option"
  up_emailVerifiedAt :: "int option"

definition patch_user :: "user_patch \<Rightarrow> user \<Rightarrow> user" where
  "patch_user p u = u\<lparr>us_email := (case up_email p of Some e \<Rightarrow> to_lower (js_trim e) | None \<Rightarrow> us_email u),
     us_name := (case up_name p of Some n \<Rightarrow> Some n | None \<Rightarrow> us_name u),
     us_emailVerifiedAt := (case up_emailVerifiedAt p of Some t \<Rightarrow> Some t | None \<Rightarrow> us_emailVerifiedAt u)\<rparr>"

definition anonymized :: "string \<Rightarrow> user_patch" where
  "anonymized userId = \<lparr>up_email = Some (''deleted+'' @ userId @ ''@example.invalid''), up_name = None,
     up_emailVerifiedAt = None\<rparr>"

text \<open>The unique index refuses an address that another user has.\<close>

definition email_taken :: "string \<Rightarrow> user_patch \<Rightarrow> db \<Rightarrow> bool" where
  "email_taken i p d \<longleftrightarrow> (case user_findById i d of
     None \<Rightarrow> False
   | Some u \<Rightarrow> us_email (patch_user p u) \<in> us_email ` set (filter (\<lambda>x. us_id x \<noteq> i) (users d)))"

definition drop_rights :: "string \<Rightarrow> db \<Rightarrow> db" where
  "drop_rights userId d =
     (let d1 = fold (\<lambda>m. member_remove (m_workspaceId m) userId) (member_listByUser userId d) d
      in fold (\<lambda>p. perm_remove (p_documentId p) userId) (perm_listByUser userId d1) d1)"

definition drop_sessions :: "string \<Rightarrow> redis \<Rightarrow> redis" where
  "drop_sessions userId s = r_del (userSessionsKey userId)
     (fold (\<lambda>j. r_del (sessionKey j)) (r_smembers (userSessionsKey userId) s) s)"

definition privacy_delete :: "string \<Rightarrow> api \<Rightarrow> (api_error + unit) \<times> api" where
  "privacy_delete userId st =
     (if email_taken userId (anonymized userId) (a_db st) then (Inl (Crash ''duplicate key''), st)
      else (Inr (), st\<lparr>a_db := drop_rights userId (snd (user_updateById userId (patch_user (anonymized userId)) (a_db st))),
                       a_redis := drop_sessions userId (a_redis st)\<rparr>))"

definition privacy_analytics :: "string \<Rightarrow> db \<Rightarrow> nat \<times> int \<times> nat" where
  "privacy_analytics userId d =
     (let owned = workspace_listByOwner userId d
      in (length owned, sum_list (map (\<lambda>w. countByWorkspace (w_id w) d) owned), length (member_listByUser userId d)))"

section \<open>Notifications\<close>

definition prefs_key :: "string \<Rightarrow> string" where
  "prefs_key userId = tmpl ''notif:prefs:'' userId"

definition notifications_list :: "req_user \<Rightarrow> db \<Rightarrow> notification list" where
  "notifications_list u d = notif_listByUser (id_text (ru_id u)) 50 d"

definition notifications_read :: "req_user \<Rightarrow> string list \<Rightarrow> api \<Rightarrow> api" where
  "notifications_read u ids st = st\<lparr>a_db := notif_markRead (api_clock st) (id_text (ru_id u)) ids (a_db st)\<rparr>"

record prefs =
  np_web :: bool
  np_email :: bool
  np_digest :: bool

definition prefsGet :: "req_user \<Rightarrow> redis \<Rightarrow> prefs" where
  "prefsGet u s = (let vals = map_of (r_hgetall (prefs_key (id_text (ru_id u))) s)
     in \<lparr>np_web = (vals ''web'' \<noteq> Some ''0''), np_email = (vals ''email'' = Some ''1''), np_digest = (vals ''digest'' = Some ''1'')\<rparr>)"

definition bit_text :: "bool \<Rightarrow> string" where
  "bit_text b = (if b then ''1'' else ''0'')"

definition prefsSet :: "req_user \<Rightarrow> prefs \<Rightarrow> redis \<Rightarrow> redis" where
  "prefsSet u p s = (let key = prefs_key (id_text (ru_id u))
     in r_expire key 31536000 (r_hset key [(''web'', bit_text (np_web p)), (''email'', bit_text (np_email p)),
          (''digest'', bit_text (np_digest p))] s))"

section \<open>Administrators\<close>

definition admin_guard :: "env \<Rightarrow> string option \<Rightarrow> bool" where
  "admin_guard E email = (case email of
     None \<Rightarrow> False
   | Some e \<Rightarrow> e \<noteq> [] \<and> to_lower e \<in> set (map to_lower (csv_fields (admin_emails E))))"

text \<open>\<open>LRANGE k 0 stop\<close>: a negative \<open>stop\<close> counts from the end.\<close>

definition r_lrange0 :: "string \<Rightarrow> int \<Rightarrow> redis \<Rightarrow> rtext list" where
  "r_lrange0 k stop s = (let xs = r_list k s in take (nat ((if stop < 0 then int (length xs) + stop else stop) + 1)) xs)"

text \<open>\<open>limit\<close> is the number of the query, 0 where it is absent or no number.\<close>

definition recent_entries :: "string \<Rightarrow> int \<Rightarrow> int \<Rightarrow> redis \<Rightarrow> rtext list" where
  "recent_entries k dflt limit s = (let n = min (if limit \<noteq> 0 then limit else dflt) 1000 in r_lrange0 k (n - 1) s)"

definition security_audit :: "env \<Rightarrow> req_user \<Rightarrow> int \<Rightarrow> redis \<Rightarrow> api_error + rtext list" where
  "security_audit E u limit s = (if admin_guard E (ru_email u) then Inr (recent_entries ''audit-log'' 200 limit s)
     else Inl (Forbidden ''Admins only''))"

definition security_alerts :: "env \<Rightarrow> req_user \<Rightarrow> int \<Rightarrow> redis \<Rightarrow> api_error + rtext list" where
  "security_alerts E u limit s = (if admin_guard E (ru_email u) then Inr (recent_entries ''security-alerts-recent'' 100 limit s)
     else Inl (Forbidden ''Admins only''))"

text \<open>The counters \<open>MetricsController\<close> shows.\<close>

definition metric_keys :: "string list" where
  "metric_keys = [''jobs:processed'', ''jobs:failed'', ''metrics:presence:sent'', ''metrics:presence:dropped'',
     ''ws:connections:total'', ''metrics:comments:created'', ''metrics:comments:replied'', ''metrics:comments:resolved'',
     ''metrics:comments:deleted'', ''metrics:comments:reacted'', ''metrics:sharing:views'', ''metrics:sharing:links'',
     ''metrics:search:queries'', ''metrics:search:clicks'']"

definition metrics_list :: "redis \<Rightarrow> (string \<times> int) list" where
  "metrics_list s = map (\<lambda>k. (k, r_num k s)) metric_keys"

section \<open>Feature flags: what a rollout promises\<close>

lemma js_rem_bounds: "0 < b \<Longrightarrow> - b < js_rem a b \<and> js_rem a b < b"
proof -
  assume "0 < b"
  define r where "r = \<bar>a\<bar> mod b"
  have "0 \<le> r" "r < b" using \<open>0 < b\<close> by (simp_all add: r_def)
  then have "- b < s * r \<and> s * r < b" if "s = 0 \<or> s = 1 \<or> s = - 1" for s
    using that \<open>0 < b\<close> by auto
  with \<open>0 < b\<close> show ?thesis by (auto simp: js_rem_def sgn_if r_def [symmetric])
qed

lemma js_rem_nonneg: "0 \<le> a \<Longrightarrow> 0 < b \<Longrightarrow> js_rem a b = a mod b"
  by (auto simp: js_rem_def sgn_if)

lemma js_rem_mod: "0 < b \<Longrightarrow> js_rem a b mod b = a mod b"
  by (auto simp: js_rem_def sgn_if mod_minus_eq)

lemma hashToPercent_mod: "hashToPercent input = foldl fnv_step 2166136261 input mod 100"
  using js_rem_bounds [of 100 "foldl fnv_step 2166136261 input"]
  by (simp add: hashToPercent_def Let_def js_rem_nonneg js_rem_mod)

text \<open>the bucket of a user under a flag is one of 0 to 99, the hash modulo 100, also where the signed hash is
  negative.\<close>

theorem hashToPercent_range: "hashToPercent input \<in> {0..<100} \<and> hashToPercent input = foldl fnv_step 2166136261 input mod 100"
  using pos_mod_bound [of 100] by (simp add: hashToPercent_mod)

lemma fnv_step_word:
  "word_of_int (fnv_step h c) = (((word_of_int h :: 32 word) XOR of_nat (of_char c)) * 16777619)"
  by (simp add: fnv_step_def)

definition same_flag :: "flag \<Rightarrow> flag \<Rightarrow> bool" where
  "same_flag f g \<longleftrightarrow> fl_key f = fl_key g \<and> fl_enabled f = fl_enabled g \<and> fl_allow f = fl_allow g"

text \<open>raising the percentage of a flag takes it away from nobody: whoever had it at \<open>p\<close> percent, \<open>p\<close> not 0, still
  has it at \<open>q\<close>. At 0 everybody has it.\<close>

theorem rollout_grows:
  assumes "fl_rollout f = Some p" and "p \<noteq> 0" and "p \<le> q" and "flag_on f u"
  shows "flag_on (f\<lparr>fl_rollout := Some q\<rparr>) u"
  using assms by (auto simp: flag_on_def flag_percent_def flag_allows_def split: if_splits)

definition demo_flag :: flag where
  "demo_flag = \<lparr>fl_key = ''beta'', fl_enabled = True, fl_rollout = Some 60, fl_allow = None\<rparr>"

lemma rollout_grows_witness:
  "flag_on (demo_flag\<lparr>fl_rollout := Some 90\<rparr>) (Some (Oid ''u2''))"
proof (rule rollout_grows [where p = 60])
  have "hashToPercent ''beta:u2'' < 60" by code_simp
  then show "flag_on demo_flag (Some (Oid ''u2''))"
    by (simp add: flag_on_def demo_flag_def flag_percent_def flag_allows_def ident_truthy_def)
qed (simp_all add: demo_flag_def)

lemma zero_rollout_is_all: "fl_enabled f \<Longrightarrow> fl_rollout f = Some 0 \<Longrightarrow> flag_on f u"
  by (simp add: flag_on_def flag_percent_def)

text \<open>The identifier of a signed-in user is no text, so no allow list has it.\<close>

lemma allow_list_never_matches: "\<not> flag_allows f (Some (Oid i))"
  by (auto simp: flag_allows_def split: option.split)

lemma flag_of_flag_json: "flag_of_json (flag_json f) = f"
proof -
  have "map (\<lambda>a. js_text (Some (JStr a))) us = us" for us :: "string list" by (induction us) simp_all
  then show ?thesis
    by (cases f; cases "fl_rollout f"; cases "fl_allow f") (simp_all add: flag_of_json_def flag_json_def jstr_def comp_def)
qed

text \<open>the configuration of the flags is read back as it was stored, and only with the key of the administrators.\<close>

theorem flags_roundtrip:
  "snd (fc_setConfig secret key flags s) = s \<or>
   fc_getConfig secret key (snd (fc_setConfig secret key flags s)) = Inr flags"
  by (simp add: fc_setConfig_def fc_getConfig_def features_setConfig_def features_getConfig_def r_get_set comp_def flag_of_flag_json)

section \<open>Preferences\<close>

lemma hgetall_expire: "0 < sec \<Longrightarrow> r_hgetall k (r_expire k sec s) = r_hgetall k s"
  by (auto simp: r_expire_def r_hgetall_def key_simps split: option.splits)

lemma hgetall_hset: "r_hgetall k (r_hset k kvs s) = kvs @ filter (\<lambda>p. fst p \<notin> fst ` set kvs) (r_hgetall k s)"
  using ttl_of_live [of s k] by (simp add: r_hset_def r_hgetall_def key_simps)

text \<open>the preferences a user stored are the ones the user reads, and storing them changes nobody else's.\<close>

theorem prefs_roundtrip:
  "prefsGet v (prefsSet u p s) = (if id_text (ru_id v) = id_text (ru_id u) then p else prefsGet v s)"
proof (cases "id_text (ru_id v) = id_text (ru_id u)")
  case True
  have "\<lparr>np_web = np_web p, np_email = np_email p, np_digest = np_digest p\<rparr> = p" by simp
  with True show ?thesis
    by (simp add: prefsGet_def prefsSet_def Let_def hgetall_expire hgetall_hset bit_text_def)
next
  case False
  then have "prefs_key (id_text (ru_id v)) \<noteq> prefs_key (id_text (ru_id u))" by (simp add: prefs_key_def)
  then have "r_hgetall (prefs_key (id_text (ru_id v))) (prefsSet u p s) = r_hgetall (prefs_key (id_text (ru_id v))) s"
    by (simp add: prefsSet_def Let_def r_hgetall_def key_simps)
  with False show ?thesis by (simp add: prefsGet_def)
qed

section \<open>Deleting personal data\<close>

lemma fold_delete_all:
  assumes "\<And>x y. key x = key y \<Longrightarrow> P x = P y"
  shows "fold (\<lambda>m. delete_row (\<lambda>x. key x = key m)) (filter P xs) xs = filter (\<lambda>x. \<not> P x) xs"
proof (induction xs)
  case (Cons x xs)
  have skip: "fold (\<lambda>m. delete_row (\<lambda>x. key x = key m)) ys (x # zs) = x # fold (\<lambda>m. delete_row (\<lambda>x. key x = key m)) ys zs"
    if "\<not> P x" "\<forall>y \<in> set ys. P y" for ys zs
    using that
  proof (induction ys arbitrary: zs)
    case (Cons y ys)
    have "\<not> P x" "P y" using Cons.prems by simp_all
    then have "key x \<noteq> key y" using assms by blast
    moreover have "fold (\<lambda>m. delete_row (\<lambda>x. key x = key m)) ys (x # delete_row (\<lambda>x. key x = key y) zs) =
        x # fold (\<lambda>m. delete_row (\<lambda>x. key x = key m)) ys (delete_row (\<lambda>x. key x = key y) zs)"
      using Cons.prems by (intro Cons.IH) simp_all
    ultimately show ?case by simp
  qed simp
  show ?case
  proof (cases "P x")
    case True
    then show ?thesis by (simp add: Cons.IH)
  next
    case False
    then show ?thesis using skip [of "filter P xs" xs] by (simp add: Cons.IH)
  qed
qed simp

lemma fold_member_remove:
  "fold (\<lambda>m. member_remove (m_workspaceId m) u) ms d =
   d\<lparr>members := fold (\<lambda>m. delete_row (\<lambda>x. m_workspaceId x = m_workspaceId m \<and> m_userId x = u)) ms (members d)\<rparr>"
  by (induction ms arbitrary: d) (simp_all add: member_remove_def)

lemma fold_perm_remove:
  "fold (\<lambda>p. perm_remove (p_documentId p) u) ps d =
   d\<lparr>perms := fold (\<lambda>p. delete_row (\<lambda>x. p_documentId x = p_documentId p \<and> p_userId x = u)) ps (perms d)\<rparr>"
  by (induction ps arbitrary: d) (simp_all add: perm_remove_def)

lemma drop_rights_eq:
  "drop_rights u d = d\<lparr>members := filter (\<lambda>m. m_userId m \<noteq> u) (members d), perms := filter (\<lambda>p. p_userId p \<noteq> u) (perms d)\<rparr>"
proof -
  have "fold (\<lambda>m. delete_row (\<lambda>x. m_workspaceId x = m_workspaceId m \<and> m_userId x = u)) (filter (\<lambda>m. m_userId m = u) ms) ms =
      fold (\<lambda>m. delete_row (\<lambda>x. (m_workspaceId x, m_userId x) = (m_workspaceId m, m_userId m))) (filter (\<lambda>m. m_userId m = u) ms) ms"
    for ms by (rule fold_cong) auto
  then have m: "fold (\<lambda>m. delete_row (\<lambda>x. m_workspaceId x = m_workspaceId m \<and> m_userId x = u)) (filter (\<lambda>m. m_userId m = u) ms) ms =
      filter (\<lambda>m. m_userId m \<noteq> u) ms" for ms
    by (rule trans) (rule fold_delete_all [of "\<lambda>m. (m_workspaceId m, m_userId m)" "\<lambda>m. m_userId m = u"], simp)
  have "fold (\<lambda>p. delete_row (\<lambda>x. p_documentId x = p_documentId p \<and> p_userId x = u)) (filter (\<lambda>p. p_userId p = u) ps) ps =
      fold (\<lambda>p. delete_row (\<lambda>x. (p_documentId x, p_userId x) = (p_documentId p, p_userId p))) (filter (\<lambda>p. p_userId p = u) ps) ps"
    for ps by (rule fold_cong) auto
  then have p: "fold (\<lambda>p. delete_row (\<lambda>x. p_documentId x = p_documentId p \<and> p_userId x = u)) (filter (\<lambda>p. p_userId p = u) ps) ps =
      filter (\<lambda>p. p_userId p \<noteq> u) ps" for ps
    by (rule trans) (rule fold_delete_all [of "\<lambda>p. (p_documentId p, p_userId p)" "\<lambda>p. p_userId p = u"], simp)
  show ?thesis
    by (simp add: drop_rights_def Let_def fold_member_remove fold_perm_remove member_listByUser_def perm_listByUser_def m p)
qed

lemma entry_fold_del:
  "entry (fold (\<lambda>j. r_del (f j)) js s) k = (if k \<in> f ` set js then None else entry s k)"
proof (induction js arbitrary: s)
  case (Cons j js)
  then show ?case by (cases "k = f j") (simp_all add: key_simps)
qed simp

lemma entry_drop_sessions:
  "entry (drop_sessions u s) k =
   (if k = userSessionsKey u \<or> k \<in> sessionKey ` set (r_smembers (userSessionsKey u) s) then None else entry s k)"
  by (cases "k = userSessionsKey u") (simp_all add: drop_sessions_def key_simps entry_fold_del)

lemma user_after_patch:
  "user_findById v (snd (user_updateById i (patch_user p) d)) =
   (if v = i then map_option (patch_user p) (user_findById i d) else user_findById v d)"
proof -
  have id: "(patch_user p u)\<lparr>us_id := us_id u\<rparr> = patch_user p u" for u by (simp add: patch_user_def)
  then show ?thesis
    by (auto simp: user_findById_def user_updateById_def Let_def patch_user_def
        intro!: trans [OF find_update] find_update_other option.map_cong)
qed

lemma privacy_delete_done:
  assumes "fst (privacy_delete u st) = Inr ()"
  shows "snd (privacy_delete u st) =
    st\<lparr>a_db := drop_rights u (snd (user_updateById u (patch_user (anonymized u)) (a_db st))),
       a_redis := drop_sessions u (a_redis st)\<rparr>"
  using assms by (auto simp: privacy_delete_def split: if_splits)

text \<open>the deletion of a user's data leaves the user no membership, no permission and no session, under an address
  that says nothing, and takes nothing away from anybody else.\<close>

theorem privacy_delete_forgets:
  assumes "fst (privacy_delete u st) = Inr ()"
  shows "let st' = snd (privacy_delete u st)
    in members (a_db st') = filter (\<lambda>m. m_userId m \<noteq> u) (members (a_db st)) \<and>
       perms (a_db st') = filter (\<lambda>p. p_userId p \<noteq> u) (perms (a_db st)) \<and>
       map_option us_email (user_findById u (a_db st')) =
         map_option (\<lambda>_. to_lower (js_trim (''deleted+'' @ u @ ''@example.invalid''))) (user_findById u (a_db st)) \<and>
       (\<forall>v. v \<noteq> u \<longrightarrow> user_findById v (a_db st') = user_findById v (a_db st)) \<and>
       r_smembers (userSessionsKey u) (a_redis st') = [] \<and>
       (\<forall>k. entry (a_redis st') k = (if k = userSessionsKey u \<or> k \<in> sessionKey ` set (r_smembers (userSessionsKey u) (a_redis st))
          then None else entry (a_redis st) k))"
proof -
  have f: "members (drop_rights u (snd (user_updateById u f d))) = filter (\<lambda>m. m_userId m \<noteq> u) (members d)"
    "perms (drop_rights u (snd (user_updateById u f d))) = filter (\<lambda>p. p_userId p \<noteq> u) (perms d)"
    "user_findById v (drop_rights u d) = user_findById v d" for f d v
    by (simp_all add: drop_rights_eq user_updateById_def Let_def user_findById_def)
  show ?thesis
    unfolding privacy_delete_done [OF assms]
    by (simp add: f user_after_patch entry_drop_sessions r_smembers_def option.map_comp comp_def patch_user_def anonymized_def)
qed

definition demo_member_user :: user where
  "demo_member_user = \<lparr>us_id = ''m'', us_email = ''m@x.org'', us_passwordHash = ''h'', us_name = Some ''Mia'', us_emailVerifiedAt = None\<rparr>"

definition private_api :: api where
  "private_api = demo_api\<lparr>a_db := demo_db\<lparr>users := [demo_member_user]\<rparr>\<rparr>"

lemma demo_delete_accepted: "\<not> email_taken ''m'' (anonymized ''m'') (a_db private_api)"
  by (simp add: private_api_def email_taken_def user_findById_def demo_member_user_def)

lemma privacy_delete_forgets_witness:
  "members (a_db (snd (privacy_delete ''m'' private_api))) = []"
proof -
  have "fst (privacy_delete ''m'' private_api) = Inr ()" using demo_delete_accepted by (simp add: privacy_delete_def)
  note privacy_delete_forgets [OF this]
  then have "members (a_db (snd (privacy_delete ''m'' private_api))) = filter (\<lambda>m. m_userId m \<noteq> ''m'') (members (a_db private_api))"
    unfolding Let_def by (rule conjunct1)
  also have "\<dots> = []" by (simp add: private_api_def demo_db_def)
  finally show ?thesis .
qed

text \<open>
  What stays: the name and the time the address was confirmed, whose new values are \<open>undefined\<close>, and the
  refresh tokens, which are accepted by the key \<open>refresh:\<close> alone, so that a session can go on.
\<close>

lemma privacy_delete_keeps_name:
  "fst (privacy_delete u st) = Inr () \<Longrightarrow>
   map_option us_name (user_findById u (a_db (snd (privacy_delete u st)))) = map_option us_name (user_findById u (a_db st))"
  by (simp add: privacy_delete_done drop_rights_eq user_findById_def [of _ "_\<lparr>perms := _\<rparr>"])
    (simp add: user_findById_def [symmetric] user_after_patch option.map_comp comp_def patch_user_def anonymized_def)

lemma privacy_delete_keeps_refresh:
  "cache_getJson (refreshKey j) (a_redis (snd (privacy_delete u st))) = cache_getJson (refreshKey j) (a_redis st)"
proof (rule cache_getJson_cong)
  have "refreshKey j \<noteq> userSessionsKey u" "\<And>i. refreshKey j \<noteq> sessionKey i"
    by (simp_all add: refreshKey_def userSessionsKey_def sessionKey_def)
  then show "entry (a_redis (snd (privacy_delete u st))) (refreshKey j) = entry (a_redis st) (refreshKey j)"
    by (auto simp: privacy_delete_def entry_drop_sessions)
qed

text \<open>The limit of a log is bounded above only: \<open>-1\<close> asks for all but one entry.\<close>

lemma negative_limit_is_all:
  "r_list k s = xs \<Longrightarrow> recent_entries k dflt (-1) s = take (length xs - 1) xs"
  by (cases xs) (simp_all add: recent_entries_def r_lrange0_def Let_def nat_add_distrib)

text \<open>the logs are shown to nobody but the users whose address is in \<open>ADMIN_EMAILS\<close>, and at most 1000 entries at once
  where the limit is not negative.\<close>

theorem logs_for_admins_only:
  assumes "security_audit E u limit s = Inr es \<or> security_alerts E u limit s = Inr es"
  shows "\<exists>e. ru_email u = Some e \<and> to_lower e \<in> set (map to_lower (csv_fields (admin_emails E))) \<and> (0 \<le> limit \<longrightarrow> length es \<le> 1000)"
proof -
  have "length (recent_entries k dflt n s) \<le> 1000" if "0 \<le> n" "0 < dflt" "dflt \<le> 1000" for k dflt n
    using that by (auto simp: recent_entries_def r_lrange0_def Let_def intro: order_trans [OF take_length_le])
  from this [of limit 200] this [of limit 100] show ?thesis
    using assms by (auto simp: security_audit_def security_alerts_def admin_guard_def split: if_splits option.splits)
qed

definition demo_admin_env :: env where
  "demo_admin_env = default_env\<lparr>admin_emails := ''Root@x.org''\<rparr>"

definition demo_admin :: req_user where
  "demo_admin = \<lparr>ru_id = Oid ''a'', ru_email = Some ''root@X.org'', ru_share = None\<rparr>"

lemma logs_for_admins_only_witness:
  "\<exists>e. ru_email demo_admin = Some e \<and> to_lower e \<in> set (map to_lower (csv_fields (admin_emails demo_admin_env)))"
proof -
  have "admin_guard demo_admin_env (ru_email demo_admin)" by code_simp
  then have "security_audit demo_admin_env demo_admin 0 (empty_redis 0) = Inr (recent_entries ''audit-log'' 200 0 (empty_redis 0))"
    by (simp add: security_audit_def)
  then show ?thesis
    using logs_for_admins_only [of demo_admin_env demo_admin 0 "empty_redis 0"] by blast
qed

end
