(* ===== verification/DocumentRoutes.thy ===== *)
theory DocumentRoutes
  imports Workspaces
begin

text \<open>
  The HTTP routes of documents (\<open>api/src/documents/documents.controller.ts\<close>): each handler behind its guards,
  \<open>WorkspaceGuard\<close> with the workspace the request names in its body or query (\<open>ws\<close>, empty for none) and
  \<open>DocumentGuard\<close> with the document of the path. A run of requests is a run of \<open>doc_step\<close>; the main result is
  that requests of users who may not edit a document change nothing of it.
\<close>

section \<open>The guards of a route\<close>

definition doc_guarded ::
  "env \<Rightarrow> string \<Rightarrow> req_user \<Rightarrow> string \<Rightarrow> string \<Rightarrow> (api \<Rightarrow> (api_error + 'a) \<times> api) \<Rightarrow> api \<Rightarrow> (api_error + 'a) \<times> api" where
  "doc_guarded E role u ws i act st = ws_guarded E ''viewer'' u ws
     (\<lambda>st. case document_guard E (a_db st) role (Some u) (Some i) (a_redis st) of
          (Allow, s) \<Rightarrow> act (st\<lparr>a_redis := s\<rparr>)
        | (Forbid m, s) \<Rightarrow> (Inl (Forbidden m), st\<lparr>a_redis := s\<rparr>)) st"

text \<open>A handler that only reads the database.\<close>

definition reading :: "(db \<Rightarrow> 'a) \<Rightarrow> api \<Rightarrow> (api_error + 'a) \<times> api" where
  "reading f st = (Inr (f (a_db st)), st)"

section \<open>Documents\<close>

text \<open>\<open>CreateDocumentDto\<close> asks for a workspace and a title; the owner in the body is replaced.\<close>

definition dc_create :: "env \<Rightarrow> req_user \<Rightarrow> string \<Rightarrow> string \<Rightarrow> api \<Rightarrow> (api_error + doc) \<times> api" where
  "dc_create E u ws title st = ws_guarded E ''editor'' u ws
     (\<lambda>st. if ws = [] \<or> title = [] then (Inl (BadRequest ''Validation failed''), st)
          else svc_create ws (id_text (ru_id u)) (or_text (stripHtml title) title) st) st"

definition dc_list ::
  "env \<Rightarrow> (string \<Rightarrow> string \<Rightarrow> bool) \<Rightarrow> req_user \<Rightarrow> string \<Rightarrow> string \<Rightarrow> string \<Rightarrow> api \<Rightarrow> (api_error + json) \<times> api" where
  "dc_list E rx u ws q tag st = ws_guarded E ''viewer'' u ws
     (\<lambda>st. let (j, st1) = svc_list rx ws q tag st in (Inr j, st1)) st"

text \<open>What \<open>UpdateDocumentDto\<close> lets through.\<close>

definition update_dto_ok :: "doc_patch \<Rightarrow> bool" where
  "update_dto_ok p \<longleftrightarrow> dp_title p \<noteq> Some [] \<and> dp_status p \<noteq> Some Deleted"

definition dc_update :: "env \<Rightarrow> req_user \<Rightarrow> string \<Rightarrow> string \<Rightarrow> doc_patch \<Rightarrow> api \<Rightarrow> (api_error + doc) \<times> api" where
  "dc_update E u ws i p st = doc_guarded E ''editor'' u ws i
     (\<lambda>st. if \<not> update_dto_ok p then (Inl (BadRequest ''Validation failed''), st)
          else svc_update i (p\<lparr>dp_title := map_option stripHtml (dp_title p)\<rparr>) st) st"

definition dc_remove :: "env \<Rightarrow> req_user \<Rightarrow> string \<Rightarrow> string \<Rightarrow> api \<Rightarrow> (api_error + doc) \<times> api" where
  "dc_remove E u ws i st = doc_guarded E ''editor'' u ws i (svc_softDelete i) st"

section \<open>Content\<close>

definition dc_yGet :: "env \<Rightarrow> 'y ylib \<Rightarrow> req_user \<Rightarrow> string \<Rightarrow> string \<Rightarrow> api \<Rightarrow> (api_error + json) \<times> api" where
  "dc_yGet E L u ws i st = doc_guarded E ''viewer'' u ws i (getYState E L i) st"

text \<open>An empty update is answered with \<open>{ ok: false }\<close>.\<close>

definition dc_yPost ::
  "env \<Rightarrow> 'y ylib \<Rightarrow> string \<Rightarrow> req_user \<Rightarrow> string \<Rightarrow> string \<Rightarrow> string \<Rightarrow> api \<Rightarrow> (api_error + bool) \<times> api" where
  "dc_yPost E L token u ws i upd st = doc_guarded E ''editor'' u ws i
     (\<lambda>st. if upd = [] then (Inr False, st)
          else (case applyYUpdate E L token i upd st of
              (Inl e, st1) \<Rightarrow> (Inl e, st1) | (Inr _, st1) \<Rightarrow> (Inr True, st1))) st"

text \<open>Both formats are the same pair.\<close>

definition dc_export :: "env \<Rightarrow> 'y ylib \<Rightarrow> req_user \<Rightarrow> string \<Rightarrow> string \<Rightarrow> api \<Rightarrow> (api_error + string \<times> string) \<times> api" where
  "dc_export E L u ws i st = doc_guarded E ''viewer'' u ws i
     (\<lambda>st. case getYState E L i st of
          (Inl e, st1) \<Rightarrow> (Inl e, st1)
        | (Inr j, st1) \<Rightarrow> (Inr (jstr ''update'' j, jstr ''vector'' j), st1)) st"

section \<open>Snapshots\<close>

definition dc_listSnaps :: "env \<Rightarrow> req_user \<Rightarrow> string \<Rightarrow> string \<Rightarrow> api \<Rightarrow> (api_error + snap list) \<times> api" where
  "dc_listSnaps E u ws i st = doc_guarded E ''viewer'' u ws i (reading (listSnapshots i 20)) st"

text \<open>The second handler of the same path, which the router never reaches.\<close>

definition dc_listSnapshots :: "env \<Rightarrow> req_user \<Rightarrow> string \<Rightarrow> string \<Rightarrow> api \<Rightarrow> (api_error + snap list) \<times> api" where
  "dc_listSnapshots E u ws i st = doc_guarded E ''viewer'' u ws i (reading (listSnapshots i 50)) st"

text \<open>Stores the state it has just read as an update.\<close>

definition dc_createSnap :: "env \<Rightarrow> 'y ylib \<Rightarrow> string \<Rightarrow> req_user \<Rightarrow> string \<Rightarrow> string \<Rightarrow> api \<Rightarrow> (api_error + unit) \<times> api" where
  "dc_createSnap E L token u ws i st = doc_guarded E ''editor'' u ws i
     (\<lambda>st. case getYState E L i st of
          (Inl e, st1) \<Rightarrow> (Inl e, st1)
        | (Inr j, st1) \<Rightarrow> applyYUpdate E L token i (jstr ''update'' j) st1) st"

definition dc_createSnapshot ::
  "env \<Rightarrow> req_user \<Rightarrow> string \<Rightarrow> string \<Rightarrow> snap_meta \<Rightarrow> api \<Rightarrow> (api_error + snap) \<times> api" where
  "dc_createSnapshot E u ws i m st = doc_guarded E ''editor'' u ws i (createManualSnapshot i (id_text (ru_id u)) m) st"

definition dc_rollback :: "env \<Rightarrow> req_user \<Rightarrow> string \<Rightarrow> string \<Rightarrow> string \<Rightarrow> api \<Rightarrow> (api_error + unit) \<times> api" where
  "dc_rollback E u ws i snapshotId st = doc_guarded E ''editor'' u ws i (rollbackToSnapshot E i snapshotId) st"

definition dc_diff ::
  "env \<Rightarrow> 'y ylib \<Rightarrow> req_user \<Rightarrow> string \<Rightarrow> string \<Rightarrow> string \<Rightarrow> string \<Rightarrow> api \<Rightarrow> (api_error + snap_diff) \<times> api" where
  "dc_diff E L u ws i fromId toId st = doc_guarded E ''viewer'' u ws i
     (\<lambda>st. (diffSnapshots L i fromId toId (a_db st), st)) st"

text \<open>The path has no document, so there is no \<open>DocumentGuard\<close>; the service looks at the rights.\<close>

definition dc_updateSnapshot ::
  "env \<Rightarrow> req_user \<Rightarrow> string \<Rightarrow> string \<Rightarrow> snap_meta \<Rightarrow> api \<Rightarrow> (api_error + snap option) \<times> api" where
  "dc_updateSnapshot E u ws snapshotId m st = ws_guarded E ''viewer'' u ws
     (\<lambda>st. with_db (updateSnapshotMeta (id_text (ru_id u)) snapshotId m (a_db st)) st) st"

text \<open>A repair may not come back (\<open>None\<close>).\<close>

definition dc_repair ::
  "env \<Rightarrow> 'y ylib \<Rightarrow> req_user \<Rightarrow> string \<Rightarrow> string \<Rightarrow> api \<Rightarrow> ((api_error + repair_result) \<times> api) option" where
  "dc_repair E L u ws i st =
     (case doc_guarded E ''editor'' u ws i (\<lambda>st. (Inr (), st)) st of
        (Inl e, st1) \<Rightarrow> Some (Inl e, st1)
      | (Inr _, st1) \<Rightarrow> map_option (\<lambda>(r, st2). (Inr r, st2)) (validateAndRepair E L i st1))"

section \<open>Permissions\<close>

record perm_body =
  pb_userId :: "string option"
  pb_email :: "string option"
  pb_role :: string

definition dc_listPerms :: "env \<Rightarrow> req_user \<Rightarrow> string \<Rightarrow> string \<Rightarrow> api \<Rightarrow> (api_error + perm list) \<times> api" where
  "dc_listPerms E u ws i st = doc_guarded E ''editor'' u ws i (reading (perm_list i)) st"

definition add_perm :: "string \<Rightarrow> perm_body \<Rightarrow> db \<Rightarrow> (api_error + unit) \<times> db" where
  "add_perm i b d = addPermission i (pb_userId b) (pb_email b) (pb_role b) d"

definition dc_addPerm :: "env \<Rightarrow> req_user \<Rightarrow> string \<Rightarrow> string \<Rightarrow> perm_body \<Rightarrow> api \<Rightarrow> (api_error + unit) \<times> api" where
  "dc_addPerm E u ws i b st = doc_guarded E ''editor'' u ws i (\<lambda>st. with_db (add_perm i b (a_db st)) st) st"

text \<open>\<open>Promise.all\<close>: every entry is carried out, in any case; the answer is the first error, if there is one.\<close>

fun add_perms :: "string \<Rightarrow> perm_body list \<Rightarrow> db \<Rightarrow> (api_error + unit) \<times> db" where
  "add_perms i [] d = (Inr (), d)"
| "add_perms i (b # bs) d =
     (let (r, d1) = add_perm i b d; (rs, d2) = add_perms i bs d1
      in (case r of Inl e \<Rightarrow> Inl e | Inr _ \<Rightarrow> rs, d2))"

definition dc_addPermBulk :: "env \<Rightarrow> req_user \<Rightarrow> string \<Rightarrow> string \<Rightarrow> perm_body list \<Rightarrow> api \<Rightarrow> (api_error + unit) \<times> api" where
  "dc_addPermBulk E u ws i bs st = doc_guarded E ''editor'' u ws i (\<lambda>st. with_db (add_perms i bs (a_db st)) st) st"

definition dc_delPerm :: "env \<Rightarrow> req_user \<Rightarrow> string \<Rightarrow> string \<Rightarrow> string \<Rightarrow> api \<Rightarrow> (api_error + unit) \<times> api" where
  "dc_delPerm E u ws i userId st = doc_guarded E ''editor'' u ws i
     (\<lambda>st. (Inr (), st\<lparr>a_db := removePermission i userId (a_db st)\<rparr>)) st"

section \<open>Requests\<close>

datatype doc_request =
    RqCreate string
  | RqList string string
  | RqUpdate string doc_patch
  | RqRemove string
  | RqYGet string
  | RqYPost string string string
  | RqExport string
  | RqListSnaps string
  | RqCreateSnap string string
  | RqCreateSnapshot string snap_meta
  | RqRollback string string
  | RqDiff string string string
  | RqUpdateSnapshot string snap_meta
  | RqRepair string
  | RqListPerms string
  | RqAddPerm string perm_body
  | RqAddPermBulk string "perm_body list"
  | RqDelPerm string string

text \<open>One request of user \<open>u\<close> naming workspace \<open>ws\<close>.\<close>

fun doc_step ::
  "env \<Rightarrow> (string \<Rightarrow> string \<Rightarrow> bool) \<Rightarrow> 'y ylib \<Rightarrow> req_user \<times> string \<times> doc_request \<Rightarrow> api \<Rightarrow> api option" where
  "doc_step E rx L (u, ws, RqCreate title) st = Some (snd (dc_create E u ws title st))"
| "doc_step E rx L (u, ws, RqList q tag) st = Some (snd (dc_list E rx u ws q tag st))"
| "doc_step E rx L (u, ws, RqUpdate i p) st = Some (snd (dc_update E u ws i p st))"
| "doc_step E rx L (u, ws, RqRemove i) st = Some (snd (dc_remove E u ws i st))"
| "doc_step E rx L (u, ws, RqYGet i) st = Some (snd (dc_yGet E L u ws i st))"
| "doc_step E rx L (u, ws, RqYPost token i upd) st = Some (snd (dc_yPost E L token u ws i upd st))"
| "doc_step E rx L (u, ws, RqExport i) st = Some (snd (dc_export E L u ws i st))"
| "doc_step E rx L (u, ws, RqListSnaps i) st = Some (snd (dc_listSnaps E u ws i st))"
| "doc_step E rx L (u, ws, RqCreateSnap token i) st = Some (snd (dc_createSnap E L token u ws i st))"
| "doc_step E rx L (u, ws, RqCreateSnapshot i m) st = Some (snd (dc_createSnapshot E u ws i m st))"
| "doc_step E rx L (u, ws, RqRollback i sn) st = Some (snd (dc_rollback E u ws i sn st))"
| "doc_step E rx L (u, ws, RqDiff i a b) st = Some (snd (dc_diff E L u ws i a b st))"
| "doc_step E rx L (u, ws, RqUpdateSnapshot sn m) st = Some (snd (dc_updateSnapshot E u ws sn m st))"
| "doc_step E rx L (u, ws, RqRepair i) st = map_option snd (dc_repair E L u ws i st)"
| "doc_step E rx L (u, ws, RqListPerms i) st = Some (snd (dc_listPerms E u ws i st))"
| "doc_step E rx L (u, ws, RqAddPerm i b) st = Some (snd (dc_addPerm E u ws i b st))"
| "doc_step E rx L (u, ws, RqAddPermBulk i bs) st = Some (snd (dc_addPermBulk E u ws i bs st))"
| "doc_step E rx L (u, ws, RqDelPerm i v) st = Some (snd (dc_delPerm E u ws i v st))"

fun doc_run ::
  "env \<Rightarrow> (string \<Rightarrow> string \<Rightarrow> bool) \<Rightarrow> 'y ylib \<Rightarrow> (req_user \<times> string \<times> doc_request) list \<Rightarrow> api \<Rightarrow> api option" where
  "doc_run E rx L [] st = Some st"
| "doc_run E rx L (r # rs) st = Option.bind (doc_step E rx L r st) (doc_run E rx L rs)"

section \<open>What a request leaves of the other documents\<close>

text \<open>What belongs to document \<open>i\<close>: its row, its permissions, its content and the log of its updates.\<close>

definition doc_part :: "string \<Rightarrow> db \<Rightarrow> doc option \<times> perm list \<times> content option \<times> upd list" where
  "doc_part i d = (doc_findById i d, perm_list i d, findByDocumentId i d, filter (\<lambda>u. u_documentId u = i) (updates d))"

definition keeps :: "string \<Rightarrow> db \<Rightarrow> db \<Rightarrow> bool" where
  "keeps i d d' \<longleftrightarrow> doc_part i d' = doc_part i d \<and> members d' = members d \<and> next_id d \<le> next_id d'"

named_theorems keeps_intros

lemma keeps_refl [simp, keeps_intros]: "keeps i d d"
  by (simp add: keeps_def)

lemma keeps_trans: "keeps i d d' \<Longrightarrow> keeps i d' d'' \<Longrightarrow> keeps i d d''"
  by (auto simp: keeps_def)

lemma keeps_doc_update [keeps_intros]:
  "j \<noteq> i \<Longrightarrow> keeps i d (snd (doc_update now j f d))" "j \<noteq> i \<Longrightarrow> keeps i d (snd (doc_incVersion now j d))"
proof -
  assume "j \<noteq> i"
  then have f: "find (\<lambda>x. d_id x = i) (update_row (\<lambda>x. d_id x = j) (\<lambda>x. (f x)\<lparr>d_id := d_id x, d_updatedAt := now\<rparr>) xs) =
      find (\<lambda>x. d_id x = i) xs" for f :: "doc \<Rightarrow> doc" and xs
    by (intro find_update_other) simp
  then show "keeps i d (snd (doc_update now j f d))" "keeps i d (snd (doc_incVersion now j d))"
    using f [of "\<lambda>x. x\<lparr>d_version := d_version x + 1\<rparr>"]
    by (simp_all add: keeps_def doc_part_def doc_incVersion_def doc_update_def Let_def doc_findById_def perm_list_def
        findByDocumentId_def f)
qed

lemma keeps_upsertState [keeps_intros]: "j \<noteq> i \<Longrightarrow> keeps i d (upsertState j s v c d)"
proof -
  assume "j \<noteq> i"
  then have "findByDocumentId i (upsertState j s v c d) = findByDocumentId i d"
    by (simp add: findByDocumentId_upsert)
  moreover have "perm_list i (upsertState j s v c d) = perm_list i d" "members (upsertState j s v c d) = members d"
    "next_id (upsertState j s v c d) = next_id d"
    by (simp_all add: upsertState_def perm_list_def)
  ultimately show ?thesis by (simp add: keeps_def doc_part_def)
qed

lemma keeps_update_append [keeps_intros]: "j \<noteq> i \<Longrightarrow> update_append j n g k d = Some d' \<Longrightarrow> keeps i d d'"
proof -
  assume "j \<noteq> i" and "update_append j n g k d = Some d'"
  then have "d' = d\<lparr>updates := updates d @ [\<lparr>u_documentId = j, u_seq = n, u_update = g, u_sizeBytes = k\<rparr>]\<rparr>"
    by (simp add: update_append_def split: if_splits)
  with \<open>j \<noteq> i\<close> show ?thesis
    by (simp del: contents_frame add: keeps_def doc_part_def doc_findById_def findByDocumentId_def perm_list_def)
qed

lemma keeps_snap_create [keeps_intros]: "keeps i d (snd (snap_create now j n s v c d))"
  by (simp add: keeps_def doc_part_def snap_create_def Let_def doc_findById_def findByDocumentId_def perm_list_def)

lemma keeps_snap_updateMeta [keeps_intros]: "keeps i d (snd (snap_updateMeta n f d))"
  by (simp add: keeps_def doc_part_def snap_updateMeta_def Let_def doc_findById_def findByDocumentId_def perm_list_def)

lemma keeps_compact [keeps_intros]: "j \<noteq> i \<Longrightarrow> keeps i d (ap_compact E j n d)"
  by (auto simp: keeps_def doc_part_def ap_compact_def compactUpTo_def Let_def doc_findById_def findByDocumentId_def
      perm_list_def intro!: filter_cong)

lemma keeps_perm_upsert [keeps_intros]: "j \<noteq> i \<Longrightarrow> keeps i d (perm_upsert j v r d)"
proof -
  assume ne: "j \<noteq> i"
  have "filter (\<lambda>p. p_documentId p = i) (upsert_row (\<lambda>p. p_documentId p = j \<and> p_userId p = v) (\<lambda>p. p\<lparr>p_role := r\<rparr>)
      \<lparr>p_documentId = j, p_userId = v, p_role = r\<rparr> ps) = filter (\<lambda>p. p_documentId p = i) ps" for ps
    using ne by (induction ps) auto
  then show ?thesis
    by (simp add: keeps_def doc_part_def perm_list_def perm_upsert_def doc_findById_def findByDocumentId_def)
qed

lemma keeps_perm_remove [keeps_intros]: "j \<noteq> i \<Longrightarrow> keeps i d (perm_remove j v d)"
proof -
  assume ne: "j \<noteq> i"
  have "filter (\<lambda>p. p_documentId p = i) (delete_row (\<lambda>p. p_documentId p = j \<and> p_userId p = v) ps) =
      filter (\<lambda>p. p_documentId p = i) ps" for ps
    using ne by (induction ps) auto
  then show ?thesis
    by (simp add: keeps_def doc_part_def perm_list_def perm_remove_def doc_findById_def findByDocumentId_def)
qed

lemma keeps_doc_create [keeps_intros]:
  "i \<noteq> show_nat (next_id d) \<Longrightarrow> keeps i d (snd (doc_create now ws title owner d))"
proof -
  assume "i \<noteq> show_nat (next_id d)"
  then have f: "find (\<lambda>x. d_id x = i) (xs @ [x]) = find (\<lambda>x. d_id x = i) xs" if "d_id x = show_nat (next_id d)" for xs x
    using that by (induction xs) auto
  then show ?thesis
    by (simp add: keeps_def doc_part_def doc_create_def Let_def doc_findById_def findByDocumentId_def perm_list_def fresh_id_def f)
qed

section \<open>What the services leave of the other documents\<close>

lemma keeps_getYState [keeps_intros]: "keeps i (a_db st) (a_db (snd (getYState E L j st)))"
  by (auto simp: getYState_def getYState_stored_def Let_def split: prod.split option.split)

lemma keeps_ap_write: "j \<noteq> i \<Longrightarrow> ap_write E L now j u y d = Some (seq, d') \<Longrightarrow> keeps i d d'"
proof -
  assume ne: "j \<noteq> i" and w: "ap_write E L now j u y d = Some (seq, d')"
  obtain v d1 where v: "doc_incVersion now j d = (v, d1)" by (cases "doc_incVersion now j d")
  have k1: "keeps i d d1" using keeps_doc_update(2) [OF ne, of d now] v by simp
  obtain n g k d2 where u: "update_append j n g k d1 = Some d2"
    and d': "d' \<in> {upsertState j (gzip L (y_encode L y)) (y_vector L y) (Some (sha256 L (y_encode L y))) d2,
      snd (snap_create now j seq (gzip L (y_encode L y)) (y_vector L y) (Some (sha256 L (y_encode L y)))
        (upsertState j (gzip L (y_encode L y)) (y_vector L y) (Some (sha256 L (y_encode L y))) d2))}"
    using w v by (auto simp: ap_write_def Let_def split: option.splits if_splits)
  have k2: "keeps i d1 d2" using ne u by (rule keeps_update_append)
  have "keeps i d2 d'"
    using d' keeps_upsertState [OF ne] keeps_snap_create keeps_trans by blast
  with k1 k2 show ?thesis by (blast intro: keeps_trans)
qed

lemma keeps_applyYUpdate [keeps_intros]:
  assumes "j \<noteq> i"
  shows "keeps i (a_db st) (a_db (snd (applyYUpdate E L token j upd st)))"
proof -
  have "keeps i d (ap_compact E j n d1)" if "ap_write E L now j u y d = Some (n, d1)" for now u y d n d1
    using keeps_ap_write [OF assms that] keeps_compact [OF assms] by (rule keeps_trans)
  then have "keeps i (a_db st) (a_db (snd (ap_commit E L token j u y st)))" for u y
    by (auto simp: ap_commit_def Let_def split: prod.split option.split)
  then show ?thesis
    by (auto simp: applyYUpdate_def split: option.split)
qed

lemma keeps_rollback [keeps_intros]:
  "j \<noteq> i \<Longrightarrow> keeps i (a_db st) (a_db (snd (rollbackToSnapshot E j sn st)))"
  by (auto simp: rollbackToSnapshot_def Let_def keeps_upsertState split: option.split)

lemma keeps_repair:
  "j \<noteq> i \<Longrightarrow> validateAndRepair E L j st = Some (r, st') \<Longrightarrow> keeps i (a_db st) (a_db st')"
  by (auto simp: validateAndRepair_def Let_def store_rebuilt_def keeps_upsertState split: option.splits if_splits)

lemma keeps_manual [keeps_intros]:
  assumes "j \<noteq> i"
  shows "keeps i (a_db st) (a_db (snd (createManualSnapshot j u m st)))"
proof -
  obtain v d1 where v: "doc_incVersion (api_clock st) j (a_db st) = (v, d1)"
    by (cases "doc_incVersion (api_clock st) j (a_db st)")
  have k1: "keeps i (a_db st) d1" using keeps_doc_update(2) [OF assms, of "a_db st" "api_clock st"] v by simp
  show ?thesis
  proof (cases "findByDocumentId j (a_db st)")
    case None
    then show ?thesis by (simp add: createManualSnapshot_def)
  next
    case (Some rec)
    obtain c d2 where c: "snap_create (api_clock st) j (case v of Some n \<Rightarrow> n | None \<Rightarrow> 0) (c_state rec) (c_vector rec)
        (c_checksum rec) d1 = (c, d2)"
      by (cases "snap_create (api_clock st) j (case v of Some n \<Rightarrow> n | None \<Rightarrow> 0) (c_state rec) (c_vector rec)
        (c_checksum rec) d1")
    have "keeps i d1 d2"
      using keeps_snap_create [of i d1 "api_clock st" j "case v of Some n \<Rightarrow> n | None \<Rightarrow> 0" "c_state rec" "c_vector rec"
        "c_checksum rec"] c by simp
    with k1 Some v c show ?thesis
      by (auto simp: createManualSnapshot_def Let_def intro: keeps_trans keeps_snap_updateMeta)
  qed
qed

lemma keeps_updateSnapshotMeta [keeps_intros]: "keeps i d (snd (updateSnapshotMeta u sn m d))"
  by (auto simp: updateSnapshotMeta_def Let_def case_prod_beta keeps_snap_updateMeta split: option.split)

lemma keeps_addPermission [keeps_intros]: "j \<noteq> i \<Longrightarrow> keeps i d (snd (add_perm j b d))"
  by (auto simp: add_perm_def addPermission_def Let_def keeps_perm_upsert split: option.split)

lemma keeps_add_perms [keeps_intros]: "j \<noteq> i \<Longrightarrow> keeps i d (snd (add_perms j bs d))"
proof (induction bs arbitrary: d)
  case (Cons b bs)
  then show ?case
    using keeps_addPermission [OF Cons.prems, of d b]
    by (auto simp: case_prod_beta Let_def intro: keeps_trans)
qed simp

lemma keeps_after_change: "keeps i (a_db st) (snd r) \<Longrightarrow> keeps i (a_db st) (a_db (snd (after_change r st)))"
  by (auto simp: after_change_def split: option.split)

lemma keeps_svc_change [keeps_intros]:
  "j \<noteq> i \<Longrightarrow> keeps i (a_db st) (a_db (snd (svc_update j p st)))"
  "j \<noteq> i \<Longrightarrow> keeps i (a_db st) (a_db (snd (svc_softDelete j st)))"
  unfolding svc_update_def svc_softDelete_def by (intro keeps_after_change keeps_doc_update(1), assumption)+

lemma keeps_svc_create [keeps_intros]:
  "i \<noteq> show_nat (next_id (a_db st)) \<Longrightarrow> keeps i (a_db st) (a_db (snd (svc_create ws owner title st)))"
  using keeps_doc_create [of i "a_db st" "api_clock st" ws title owner]
  by (auto simp: svc_create_def Let_def case_prod_beta)

lemma keeps_svc_list [keeps_intros]: "keeps i (a_db st) (a_db (snd (svc_list rx ws q tag st)))"
  by (auto simp: svc_list_def Let_def split: option.split)

section \<open>Who may edit\<close>

text \<open>The right to edit document \<open>i\<close>: a share link of the document decides alone, else the rank of the user.\<close>

definition may_edit :: "req_user \<Rightarrow> string \<Rightarrow> db \<Rightarrow> bool" where
  "may_edit u i d \<longleftrightarrow> ru_id u \<noteq> Text [] \<and>
     (case ru_share u of
        Some g \<Rightarrow> if sg_documentId g = i then sg_role g \<in> {''editor'', ''owner''} else 2 \<le> guard_rank d u i
      | None \<Rightarrow> 2 \<le> guard_rank d u i)"

lemma editor_guard_iff: "fst (document_guard E d ''editor'' (Some u) (Some i) s) = Allow \<longleftrightarrow> may_edit u i d"
proof -
  have "doc_rank ''editor'' = Some 2" by (simp add: doc_rank_def)
  note g = guard_by_role_rank [OF this, of E d u i s]
  have "js_ge (doc_rank r) (doc_rank ''editor'') \<longleftrightarrow> r \<in> {''editor'', ''owner''}" for r
    by (auto simp: doc_rank_def)
  then show ?thesis
    using g by (auto simp: document_guard_def may_edit_def guard_by_share_def denied_def split: option.split)
qed

lemma perm_find_list: "perm_find i v d = find (\<lambda>p. p_userId p = v) (perm_list i d)"
proof -
  have "find (\<lambda>p. p_documentId p = i \<and> p_userId p = v) ps = find (\<lambda>p. p_userId p = v) (filter (\<lambda>p. p_documentId p = i) ps)" for ps
    by (induction ps) auto
  then show ?thesis by (simp add: perm_find_def perm_list_def)
qed

lemma may_edit_keeps: "keeps i d d' \<Longrightarrow> may_edit u i d' = may_edit u i d"
proof -
  assume "keeps i d d'"
  then have "doc_findById i d' = doc_findById i d" "\<And>v. perm_find i v d' = perm_find i v d" "\<And>w v. findRole w v d' = findRole w v d"
    by (simp_all add: keeps_def doc_part_def perm_find_list findRole_def)
  then have "guard_rank d' u i = guard_rank d u i"
    by (simp add: guard_rank_def effective_rank_def grant_rank_def split: ident.split option.split)
  then show ?thesis by (simp add: may_edit_def split: option.split)
qed

lemma keeps_ws_guarded:
  assumes "\<And>st1. a_db st1 = a_db st \<Longrightarrow> keeps i (a_db st1) (a_db (snd (act st1)))"
  shows "keeps i (a_db st) (a_db (snd (ws_guarded E role u ws act st)))"
  using ws_guarded_db [where P = "keeps i (a_db st)" and act = act] assms [of "st\<lparr>a_redis := _\<rparr>"] by simp

lemma doc_guarded_db:
  assumes "\<And>st1. a_db st1 = a_db st \<Longrightarrow> P (a_db (snd (act st1)))" and "P (a_db st)"
  shows "P (a_db (snd (doc_guarded E role u ws j act st)))"
  unfolding doc_guarded_def
  by (rule ws_guarded_db) (auto simp: assms split: prod.split verdict.split)

lemma keeps_doc_guarded:
  assumes "\<And>st1. keeps i (a_db st1) (a_db (snd (act st1)))"
  shows "keeps i (a_db st) (a_db (snd (doc_guarded E role u ws j act st)))"
  unfolding doc_guarded_def
proof (rule keeps_ws_guarded)
  fix st1 :: api
  have "keeps i (a_db st1) (a_db (snd (act (st1\<lparr>a_redis := s\<rparr>))))" for s
    using assms [of "st1\<lparr>a_redis := s\<rparr>"] by simp
  then show "keeps i (a_db st1) (a_db (snd (case document_guard E (a_db st1) role (Some u) (Some j) (a_redis st1) of
      (Allow, s) \<Rightarrow> act (st1\<lparr>a_redis := s\<rparr>) | (Forbid m, s) \<Rightarrow> (Inl (Forbidden m), st1\<lparr>a_redis := s\<rparr>))))"
    by (auto split: prod.split verdict.split)
qed

text \<open>Behind the guard for editors, the action on \<open>j\<close> may change what belongs to \<open>j\<close> only.\<close>

lemma keeps_editor:
  assumes "\<not> may_edit u i (a_db st)" and "\<And>st1. j \<noteq> i \<Longrightarrow> keeps i (a_db st1) (a_db (snd (act st1)))"
  shows "keeps i (a_db st) (a_db (snd (doc_guarded E ''editor'' u ws j act st)))"
proof (cases "j = i")
  case True
  have no: "fst (document_guard E (a_db st) ''editor'' (Some u) (Some i) s) \<noteq> Allow" for s
    using assms(1) by (simp add: editor_guard_iff)
  show ?thesis
    unfolding doc_guarded_def True
  proof (rule keeps_ws_guarded)
    fix st1 :: api assume "a_db st1 = a_db st"
    then show "keeps i (a_db st1) (a_db (snd (case document_guard E (a_db st1) ''editor'' (Some u) (Some i) (a_redis st1) of
        (Allow, s) \<Rightarrow> act (st1\<lparr>a_redis := s\<rparr>) | (Forbid m, s) \<Rightarrow> (Inl (Forbidden m), st1\<lparr>a_redis := s\<rparr>))))"
      using no [of "a_redis st1"] by (auto split: prod.split verdict.split)
  qed
next
  case False
  then show ?thesis by (intro keeps_doc_guarded assms(2))
qed

lemma keeps_yPost_act:
  "j \<noteq> i \<Longrightarrow> keeps i (a_db st) (a_db (snd (if upd = [] then (Inr False, st)
     else case applyYUpdate E L token j upd st of
       (Inl e, st1) \<Rightarrow> (Inl e, st1) | (Inr _, st1) \<Rightarrow> (Inr True, st1))))"
  using keeps_applyYUpdate [of j i st E L token upd] by (auto split: prod.split sum.split)

lemma keeps_createSnap_act:
  "j \<noteq> i \<Longrightarrow> keeps i (a_db st) (a_db (snd (case getYState E L j st of
     (Inl e, st1) \<Rightarrow> (Inl e, st1) | (Inr x, st1) \<Rightarrow> applyYUpdate E L token j (jstr ''update'' x) st1)))"
proof -
  assume ne: "j \<noteq> i"
  obtain r st1 where g: "getYState E L j st = (r, st1)" by (cases "getYState E L j st")
  have "keeps i (a_db st) (a_db st1)" using keeps_getYState [of i st E L j] g by simp
  moreover have "keeps i (a_db st1) (a_db (snd (applyYUpdate E L token j upd st1)))" for upd
    using ne by (rule keeps_applyYUpdate)
  ultimately show ?thesis using g by (auto split: sum.split intro: keeps_trans)
qed

lemma keeps_export_act:
  "keeps i (a_db st) (a_db (snd (case getYState E L j st of
     (Inl e, st1) \<Rightarrow> (Inl e, st1) | (Inr x, st1) \<Rightarrow> (Inr (jstr ''update'' x, jstr ''vector'' x), st1))))"
  using keeps_getYState [of i st E L j] by (auto split: prod.split sum.split)

text \<open>A refusal: the answer is 403 and nothing but the log of refusals changes.\<close>

definition refused :: "api \<Rightarrow> (api_error + 'a) \<times> api \<Rightarrow> bool" where
  "refused st r \<longleftrightarrow> (\<exists>m. fst r = Inl (Forbidden m)) \<and> snd r = st\<lparr>a_redis := a_redis (snd r)\<rparr>"

lemma editor_route_refused:
  assumes "\<not> may_edit u i (a_db st)"
  shows "refused st (doc_guarded E ''editor'' u ws i act st)"
proof -
  have d: "\<exists>m s'. document_guard E (a_db st) ''editor'' (Some u) (Some i) s = (Forbid m, s')" for s
    using assms editor_guard_iff [of E "a_db st" u i s]
    by (cases "document_guard E (a_db st) ''editor'' (Some u) (Some i) s"; cases "fst (document_guard E (a_db st) ''editor'' (Some u) (Some i) s)") auto
  obtain v s1 where w: "workspace_guard E (a_db st) ''viewer'' (Some u) (if ws = [] then None else Some ws) (a_redis st) = (v, s1)"
    by (cases "workspace_guard E (a_db st) ''viewer'' (Some u) (if ws = [] then None else Some ws) (a_redis st)")
  show ?thesis
    using d [of s1] by (cases v) (auto simp: refused_def doc_guarded_def ws_guarded_def w)
qed

text \<open>The route that repairs, as the guard followed by the service.\<close>

lemma keeps_dc_repair:
  assumes "\<not> may_edit u i (a_db st)" and "dc_repair E L u ws j st = Some (r, st')"
  shows "keeps i (a_db st) (a_db st')"
proof -
  let ?g = "doc_guarded E ''editor'' u ws j (\<lambda>st. (Inr (), st)) st"
  have g: "keeps i (a_db st) (a_db (snd ?g))" by (rule keeps_doc_guarded) simp
  show ?thesis
  proof (cases "fst ?g")
    case (Inl e)
    with assms(2) g show ?thesis by (auto simp: dc_repair_def split: prod.splits)
  next
    case (Inr x)
    have "j \<noteq> i"
    proof
      assume "j = i"
      then show False using editor_route_refused [OF assms(1), of E ws "\<lambda>st. (Inr (), st)"] Inr by (auto simp: refused_def)
    qed
    with assms(2) Inr obtain r' where "validateAndRepair E L j (snd ?g) = Some (r', st')"
      by (auto simp: dc_repair_def split: prod.splits)
    then have "keeps i (a_db (snd ?g)) (a_db st')" using \<open>j \<noteq> i\<close> by (rule keeps_repair [rotated])
    with g show ?thesis by (rule keeps_trans)
  qed
qed

lemma doc_step_keeps:
  assumes "\<not> may_edit u i (a_db st)" and "i \<noteq> show_nat (next_id (a_db st))"
    and "doc_step E rx L (u, ws, q) st = Some st'"
  shows "keeps i (a_db st) (a_db st')"
proof (cases q)
  case (RqRepair j)
  with assms show ?thesis using keeps_dc_repair by auto
next
  case (RqCreate title)
  have "keeps i (a_db st) (a_db (snd (dc_create E u ws title st)))"
    unfolding dc_create_def
  proof (rule keeps_ws_guarded)
    fix st1 :: api assume "a_db st1 = a_db st"
    then have "keeps i (a_db st1) (a_db (snd (svc_create ws o' t st1)))" for o' t
      using assms(2) by (intro keeps_svc_create) simp
    then show "keeps i (a_db st1) (a_db (snd (if ws = [] \<or> title = [] then (Inl (BadRequest ''Validation failed''), st1)
        else svc_create ws (id_text (ru_id u)) (or_text (stripHtml title) title) st1)))" by simp
  qed
  with RqCreate assms(3) show ?thesis by simp
next
  case (RqList a b)
  have "keeps i (a_db st) (a_db (snd (dc_list E rx u ws a b st)))"
    unfolding dc_list_def case_prod_beta Let_def by (rule keeps_ws_guarded, unfold snd_conv, rule keeps_svc_list)
  with RqList assms(3) show ?thesis by simp
next
  case (RqUpdateSnapshot a b)
  have "keeps i (a_db st) (a_db (snd (dc_updateSnapshot E u ws a b st)))"
    unfolding dc_updateSnapshot_def by (rule keeps_ws_guarded) (simp add: with_db_def keeps_updateSnapshotMeta)
  with RqUpdateSnapshot assms(3) show ?thesis by simp
next
  case (RqExport j)
  have "keeps i (a_db st) (a_db (snd (dc_export E L u ws j st)))"
    unfolding dc_export_def by (intro keeps_doc_guarded keeps_export_act)
  with RqExport assms(3) show ?thesis by simp
next
  case (RqCreateSnap t j)
  have "keeps i (a_db st) (a_db (snd (dc_createSnap E L t u ws j st)))"
    unfolding dc_createSnap_def by (intro keeps_editor assms(1) keeps_createSnap_act)
  with RqCreateSnap assms(3) show ?thesis by simp
next
  case (RqYPost t j upd)
  have "keeps i (a_db st) (a_db (snd (dc_yPost E L t u ws j upd st)))"
    unfolding dc_yPost_def by (intro keeps_editor assms(1) keeps_yPost_act)
  with RqYPost assms(3) show ?thesis by simp
next
  case (RqUpdate j p)
  have "keeps i (a_db st) (a_db (snd (dc_update E u ws j p st)))"
    unfolding dc_update_def by (rule keeps_editor [OF assms(1)]) (auto intro: keeps_svc_change)
  with RqUpdate assms(3) show ?thesis by simp
next
  case (RqAddPerm j b)
  have "keeps i (a_db st) (a_db (snd (dc_addPerm E u ws j b st)))"
    unfolding dc_addPerm_def by (rule keeps_editor [OF assms(1)]) (simp add: with_db_def keeps_addPermission)
  with RqAddPerm assms(3) show ?thesis by simp
next
  case (RqAddPermBulk j bs)
  have "keeps i (a_db st) (a_db (snd (dc_addPermBulk E u ws j bs st)))"
    unfolding dc_addPermBulk_def by (rule keeps_editor [OF assms(1)]) (simp add: with_db_def keeps_add_perms)
  with RqAddPermBulk assms(3) show ?thesis by simp
next
  case (RqDelPerm j v)
  have "keeps i (a_db st) (a_db (snd (dc_delPerm E u ws j v st)))"
    unfolding dc_delPerm_def by (rule keeps_editor [OF assms(1)]) (simp add: removePermission_def keeps_perm_remove)
  with RqDelPerm assms(3) show ?thesis by simp
next
  case (RqListPerms j)
  have "keeps i (a_db st) (a_db (snd (dc_listPerms E u ws j st)))"
    unfolding dc_listPerms_def by (rule keeps_editor [OF assms(1)]) (simp add: reading_def)
  with RqListPerms assms(3) show ?thesis by simp
next
  case (RqDiff j a b)
  have "keeps i (a_db st) (a_db (snd (dc_diff E L u ws j a b st)))"
    unfolding dc_diff_def by (rule keeps_doc_guarded) simp
  with RqDiff assms(3) show ?thesis by simp
next
  case (RqListSnaps j)
  have "keeps i (a_db st) (a_db (snd (dc_listSnaps E u ws j st)))"
    unfolding dc_listSnaps_def by (rule keeps_doc_guarded) (simp add: reading_def)
  with RqListSnaps assms(3) show ?thesis by simp
next
  case (RqYGet j)
  have "keeps i (a_db st) (a_db (snd (dc_yGet E L u ws j st)))"
    unfolding dc_yGet_def by (intro keeps_doc_guarded keeps_getYState)
  with RqYGet assms(3) show ?thesis by simp
next
  case (RqRemove j)
  have "keeps i (a_db st) (a_db (snd (dc_remove E u ws j st)))"
    unfolding dc_remove_def by (intro keeps_editor assms(1) keeps_svc_change)
  with RqRemove assms(3) show ?thesis by simp
next
  case (RqCreateSnapshot j m)
  have "keeps i (a_db st) (a_db (snd (dc_createSnapshot E u ws j m st)))"
    unfolding dc_createSnapshot_def by (intro keeps_editor assms(1) keeps_manual)
  with RqCreateSnapshot assms(3) show ?thesis by simp
next
  case (RqRollback j sn)
  have "keeps i (a_db st) (a_db (snd (dc_rollback E u ws j sn st)))"
    unfolding dc_rollback_def by (intro keeps_editor assms(1) keeps_rollback)
  with RqRollback assms(3) show ?thesis by simp
qed

text \<open>C21: requests to the routes of documents, in any number and order, by users none of whom may edit document \<open>i\<close>,
  leave its row, its permissions, its content and its log as they were.\<close>

theorem outsiders_change_nothing:
  assumes "\<forall>n \<ge> next_id (a_db st). i \<noteq> show_nat n"
    and "\<forall>(u, ws, q) \<in> set rs. \<not> may_edit u i (a_db st)"
    and "doc_run E rx L rs st = Some st'"
  shows "doc_part i (a_db st') = doc_part i (a_db st)"
proof -
  have "keeps i (a_db st) (a_db st')"
    using assms
  proof (induction rs arbitrary: st)
    case (Cons r rs)
    obtain u ws q where r: "r = (u, ws, q)" by (cases r)
    with Cons.prems obtain st1 where s: "doc_step E rx L (u, ws, q) st = Some st1" and run: "doc_run E rx L rs st1 = Some st'"
      by (auto simp: bind_eq_Some_conv)
    have k: "keeps i (a_db st) (a_db st1)"
      using Cons.prems(1,2) r s by (intro doc_step_keeps [OF _ _ s]) auto
    then have "next_id (a_db st) \<le> next_id (a_db st1)" by (simp add: keeps_def)
    then have "keeps i (a_db st1) (a_db st')"
      using Cons.prems(1,2) may_edit_keeps [OF k] by (intro Cons.IH run) auto
    with k show ?case by (rule keeps_trans)
  qed simp
  then show ?thesis by (simp add: keeps_def)
qed

definition stranger :: req_user where
  "stranger = \<lparr>ru_id = Oid ''z'', ru_email = None, ru_share = Some \<lparr>sg_token = ''t'', sg_documentId = ''d'', sg_role = ''viewer'',
     sg_anonymousComment = False\<rparr>\<rparr>"

lemma stranger_may_not_edit: "\<not> may_edit stranger ''d'' (a_db demo_api)"
  by (simp add: may_edit_def stranger_def)

lemma d_is_no_number: "''d'' \<noteq> show_nat n"
proof
  assume d: "''d'' = show_nat n"
  then have "read_nat ''d'' = n" by (metis read_show_nat)
  moreover have "read_nat ''d'' = 52 \<and> ''d'' \<noteq> show_nat 52" by code_simp
  ultimately show False using d by simp
qed

lemma outsiders_change_nothing_witness:
  "doc_part ''d'' (a_db (the (doc_run default_env (\<lambda>_ _. False) byte_lib
     [(stranger, [], RqRollback ''d'' ''1''), (stranger, [], RqAddPerm ''d'' \<lparr>pb_userId = Some ''z'', pb_email = None, pb_role = ''owner''\<rparr>)]
     demo_api))) = doc_part ''d'' (a_db demo_api)"
  by (rule outsiders_change_nothing [where rs = "[(stranger, [], RqRollback ''d'' ''1''),
      (stranger, [], RqAddPerm ''d'' \<lparr>pb_userId = Some ''z'', pb_email = None, pb_role = ''owner''\<rparr>)]"])
    (simp_all add: d_is_no_number stranger_may_not_edit)

text \<open>who may not edit a document gets 403 from every route that could change it, from listing the permissions and
  from making snapshots, whatever the request holds, and the database and the memory cache stay as they are.\<close>

theorem editor_routes_refuse:
  assumes "\<not> may_edit u i (a_db st)"
  shows "refused st (dc_update E u ws i p st) \<and> refused st (dc_remove E u ws i st) \<and> refused st (dc_yPost E L token u ws i upd st)
    \<and> refused st (dc_createSnap E L token u ws i st) \<and> refused st (dc_createSnapshot E u ws i m st)
    \<and> refused st (dc_rollback E u ws i sn st) \<and> refused st (dc_listPerms E u ws i st) \<and> refused st (dc_addPerm E u ws i b st)
    \<and> refused st (dc_addPermBulk E u ws i bs st) \<and> refused st (dc_delPerm E u ws i v st)"
  by (simp add: editor_route_refused [OF assms] dc_update_def dc_remove_def dc_yPost_def dc_createSnap_def dc_createSnapshot_def dc_rollback_def
      dc_listPerms_def dc_addPerm_def dc_addPermBulk_def dc_delPerm_def)

lemma editor_routes_refuse_witness:
  "refused demo_api (dc_remove default_env stranger [] ''d'' demo_api)"
  by (rule editor_routes_refuse [OF stranger_may_not_edit, where L = byte_lib, THEN conjunct2, THEN conjunct1])

section \<open>Snapshots on demand\<close>

lemma ap_write_no_snapshot:
  assumes "doc_findById j d = Some x" and "(d_version x + 1) mod doc_snapshot_every E \<noteq> 0"
    and "ap_write E L now j u y d = Some (seq, d')"
  shows "snaps d' = snaps d"
proof -
  obtain v d1 where v: "doc_incVersion now j d = (v, d1)" by (cases "doc_incVersion now j d")
  have d1: "v = Some (d_version x + 1)" "snaps d1 = snaps d"
    using doc_incVersion_eq [OF assms(1), of now] snaps_frame(1) [of now j d] v by simp_all
  have "snaps d2 = snaps d1" if "update_append j n g k d1 = Some d2" for n g k d2
    using that by (auto simp: update_append_def split: if_splits)
  with assms(2,3) v d1 show ?thesis by (auto simp: ap_write_def Let_def split: option.splits if_splits)
qed

text \<open>The route that creates a snapshot now creates none, unless the version is just before a multiple of
  \<open>DOC_SNAPSHOT_EVERY\<close>: it stores the state as one more update.\<close>

lemma createSnap_makes_none:
  assumes "doc_findById i (a_db st) = Some x" and "(d_version x + 1) mod doc_snapshot_every E \<noteq> 0"
  shows "snaps (a_db (snd (dc_createSnap E L token u ws i st))) = snaps (a_db st)"
proof -
  have commit: "snaps (a_db (snd (ap_commit E L token i v y st1))) = snaps (a_db st1)" if "a_db st1 = a_db st" for v y st1
    using ap_write_no_snapshot [OF assms] that
    by (auto simp: ap_commit_def Let_def split: prod.split option.split)
  have applied: "snaps (a_db (snd (applyYUpdate E L token i upd st1))) = snaps (a_db st)" if "a_db st1 = a_db st" for upd st1
    using commit [OF that] that by (auto simp: applyYUpdate_def split: option.split)
  have get: "a_db (snd (getYState E L i st1)) = a_db st1" for st1
    by (auto simp: getYState_def getYState_stored_def Let_def split: prod.split option.split)
  have "snaps (a_db (snd (case getYState E L i st1 of (Inl e, st2) \<Rightarrow> (Inl e, st2)
      | (Inr j, st2) \<Rightarrow> applyYUpdate E L token i (jstr ''update'' j) st2))) = snaps (a_db st)" if "a_db st1 = a_db st" for st1
    using get [of st1] applied [of "snd (getYState E L i st1)"] that
    by (cases "getYState E L i st1") (auto split: sum.split)
  then show ?thesis
    unfolding dc_createSnap_def by (intro doc_guarded_db [where P = "\<lambda>d. snaps d = snaps (a_db st)"] refl)
qed

text \<open>The role of a permission is stored as it comes.\<close>

lemma permission_role_unchecked:
  "v \<noteq> [] \<Longrightarrow> fst (add_perm i \<lparr>pb_userId = Some v, pb_email = e, pb_role = ''owner''\<rparr> d) = Inr ()"
  by (simp add: add_perm_def addPermission_def)

end
