(* ===== verification/Search.thy ===== *)
theory Search
  imports Comments DocumentOps
begin

text \<open>
  Search: \<open>SearchController\<close> (\<open>api/src/search\<close>) with the queries \<open>searchDocs\<close> and \<open>search\<close> of the repositories.
  MongoDB's text search is a parameter: for each row whether it matches and with which score. The routes
  have \<open>AuthGuard\<close> only.
\<close>

section \<open>Queries\<close>

text \<open>\<open>parseInt(s, 10) || 0\<close>.\<close>

definition is_digit :: "char \<Rightarrow> bool" where
  "is_digit c \<longleftrightarrow> c \<in> set ''0123456789''"

definition parse10 :: "string \<Rightarrow> int" where
  "parse10 s = (case dropWhile is_ws s of
     [] \<Rightarrow> 0
   | c # r \<Rightarrow> if c = CHR ''-'' then - int (read_nat (takeWhile is_digit r))
              else if c = CHR ''+'' then int (read_nat (takeWhile is_digit r))
              else int (read_nat (takeWhile is_digit (c # r))))"

definition num_or :: "int \<Rightarrow> string \<Rightarrow> int" where
  "num_or dflt s = (if parse10 (or_text s (show_int dflt)) \<noteq> 0 then parse10 (or_text s (show_int dflt)) else dflt)"

definition page_limit :: "int \<Rightarrow> nat" where
  "page_limit limit = nat (max 1 (min 200 (if limit \<noteq> 0 then limit else 20)))"

definition page :: "int \<Rightarrow> int \<Rightarrow> 'a list \<Rightarrow> 'a list" where
  "page skip limit xs = take (page_limit limit) (drop (nat (max 0 skip)) xs)"

text \<open>Best score first, then latest first.\<close>

definition ranked :: "('a \<Rightarrow> int option) \<Rightarrow> ('a \<Rightarrow> int) \<Rightarrow> 'a list \<Rightarrow> 'a list" where
  "ranked score date xs = sort_key (\<lambda>x. - the (score x)) (sort_key (\<lambda>x. - date x) (filter (\<lambda>x. score x \<noteq> None) xs))"

record doc_query =
  dq_q :: string
  dq_workspaceId :: string
  dq_authorId :: string
  dq_tags :: "string list"
  dq_status :: "string list"
  dq_from :: "int option"
  dq_to :: "int option"
  dq_skip :: int
  dq_limit :: int

definition doc_matches :: "doc_query \<Rightarrow> doc \<Rightarrow> bool" where
  "doc_matches o' x \<longleftrightarrow>
     (if dq_status o' = [] then d_status x \<noteq> Deleted else status_text (d_status x) \<in> set (dq_status o'))
     \<and> (dq_workspaceId o' = [] \<or> d_workspaceId x = dq_workspaceId o')
     \<and> (dq_authorId o' = [] \<or> d_ownerId x = dq_authorId o')
     \<and> (dq_tags o' = [] \<or> set (d_tags x) \<inter> set (dq_tags o') \<noteq> {})
     \<and> (case dq_from o' of Some t \<Rightarrow> t \<le> d_updatedAt x | None \<Rightarrow> True)
     \<and> (case dq_to o' of Some t \<Rightarrow> d_updatedAt x \<le> t | None \<Rightarrow> True)"

definition repo_searchDocs :: "(string \<Rightarrow> doc \<Rightarrow> int option) \<Rightarrow> doc_query \<Rightarrow> db \<Rightarrow> doc list" where
  "repo_searchDocs score o' d = page (dq_skip o') (dq_limit o')
     (let xs = filter (doc_matches o') (docs d)
      in if dq_q o' \<noteq> [] then ranked (score (dq_q o')) d_updatedAt xs else sort_key (\<lambda>x. - d_updatedAt x) xs)"

definition comment_search ::
  "(string \<Rightarrow> comment \<Rightarrow> int option) \<Rightarrow> string \<Rightarrow> string \<Rightarrow> int \<Rightarrow> int \<Rightarrow> db \<Rightarrow> comment list" where
  "comment_search score q documentId skip limit d = page skip limit
     (let xs = filter (\<lambda>k. k_deletedAt k = None \<and> (documentId = [] \<or> k_documentId k = documentId)) (comments d)
      in if q \<noteq> [] then ranked (score q) k_createdAt xs else sort_key (\<lambda>k. - k_createdAt k) xs)"

definition version_search ::
  "(string \<Rightarrow> snap \<Rightarrow> bool) \<Rightarrow> string \<Rightarrow> string \<Rightarrow> int \<Rightarrow> db \<Rightarrow> snap list" where
  "version_search matches q documentId limit d = take (page_limit limit)
     (sort_key (\<lambda>s. - s_createdAt s)
       (filter (\<lambda>s. (documentId = [] \<or> s_documentId s = documentId) \<and> (q = [] \<or> matches q s)) (snaps d)))"

section \<open>Snippets and counters\<close>

text \<open>The ellipsis is one character, here that of code 133.\<close>

definition ellipsis :: string where
  "ellipsis = [char_of (133 :: nat)]"

definition snippet :: "string \<Rightarrow> string \<Rightarrow> string option" where
  "snippet text q =
     (if q = [] then None
      else case index_of (to_lower text) (to_lower q) of
          None \<Rightarrow> None
        | Some idx \<Rightarrow>
            let start = idx - 40; stop = min (length text) (idx + length q + 40)
            in Some ((if start > 0 then ellipsis else []) @ slice start stop text
                 @ (if stop < length text then ellipsis else [])))"

definition trackQuery :: "string \<Rightarrow> string \<Rightarrow> redis \<Rightarrow> redis" where
  "trackQuery q userId s =
     (if q = [] then s
      else let s1 = r_zincrby ''search:terms'' 1 (to_lower q) (snd (r_incr ''metrics:search:queries'' s))
           in if userId \<noteq> [] then r_lpush (tmpl ''search:user:'' userId) (Txt q) s1 else s1)"

definition search_click :: "string \<Rightarrow> string \<Rightarrow> redis \<Rightarrow> redis" where
  "search_click type i s = snd (r_incr (''search:clicks:'' @ type @ '':'' @ i) (snd (r_incr ''metrics:search:clicks'' s)))"

section \<open>SearchController\<close>

record search_params =
  sp_q :: string
  sp_workspaceId :: string
  sp_authorId :: string
  sp_tags :: string
  sp_status :: string
  sp_from :: string
  sp_to :: string
  sp_skip :: string
  sp_limit :: string

definition search_key :: "search_params \<Rightarrow> string" where
  "search_key p = ''search:docs:'' @ join_with '':''
     [sp_q p, sp_workspaceId p, sp_authorId p, join_with ''|'' (csv_fields (sp_tags p)),
      join_with ''|'' (csv_fields (sp_status p)), sp_from p, sp_to p, or_text (sp_skip p) ''0'', or_text (sp_limit p) ''20'']"

text \<open>\<open>new Date(s)\<close> is the parameter \<open>date\<close>; a text that is no date makes the query fail.\<close>

definition opt_date :: "(string \<Rightarrow> int option) \<Rightarrow> string \<Rightarrow> int option option" where
  "opt_date date s = (if s = [] then Some None else map_option Some (date s))"

definition query_of :: "(string \<Rightarrow> int option) \<Rightarrow> search_params \<Rightarrow> doc_query option" where
  "query_of date p = (case (opt_date date (sp_from p), opt_date date (sp_to p)) of
     (Some a, Some b) \<Rightarrow> Some \<lparr>dq_q = sp_q p, dq_workspaceId = sp_workspaceId p, dq_authorId = sp_authorId p,
       dq_tags = csv_fields (sp_tags p), dq_status = csv_fields (sp_status p), dq_from = a, dq_to = b,
       dq_skip = num_or 0 (sp_skip p), dq_limit = num_or 20 (sp_limit p)\<rparr>
   | _ \<Rightarrow> None)"

definition found_field :: "string option \<Rightarrow> (string \<times> json) list" where
  "found_field s = (case s of Some t \<Rightarrow> [(''snippet'', JStr t)] | None \<Rightarrow> [])"

definition score_field :: "int option \<Rightarrow> (string \<times> json) list" where
  "score_field n = (case n of Some x \<Rightarrow> [(''score'', JNum x)] | None \<Rightarrow> [])"

definition found_doc :: "(string \<Rightarrow> doc \<Rightarrow> int option) \<Rightarrow> string \<Rightarrow> doc \<Rightarrow> json" where
  "found_doc score q x = JObj ([(''id'', JStr (d_id x)), (''title'', JStr (d_title x)), (''tags'', JArr (map JStr (d_tags x))),
     (''workspaceId'', JStr (d_workspaceId x)), (''ownerId'', JStr (d_ownerId x)), (''status'', JStr (status_text (d_status x))),
     (''updatedAt'', JNum (d_updatedAt x))] @ (if q \<noteq> [] then score_field (score q x) else []) @ found_field (snippet (d_title x) q))"

text \<open>The answer of a query: what the cache has, or what \<open>rows\<close> gives, kept for 30 seconds.\<close>

definition cached_query :: "string \<Rightarrow> (db \<Rightarrow> json list option) \<Rightarrow> (redis \<Rightarrow> redis) \<Rightarrow> api \<Rightarrow> (api_error + json) \<times> api" where
  "cached_query key rows track st = (case cache_getJson key (a_redis st) of
     Some j \<Rightarrow> (Inr j, st)
   | None \<Rightarrow> (case rows (a_db st) of
         None \<Rightarrow> (Inl (Crash ''invalid query''), st)
       | Some js \<Rightarrow> (Inr (JArr js), with_redis (\<lambda>s. track (cache_setJson key (JArr js) 30 s)) st)))"

definition sc_searchDocs ::
  "(string \<Rightarrow> doc \<Rightarrow> int option) \<Rightarrow> (string \<Rightarrow> int option) \<Rightarrow> req_user \<Rightarrow> search_params \<Rightarrow> api \<Rightarrow> (api_error + json) \<times> api" where
  "sc_searchDocs score date u p st = cached_query (search_key p)
     (\<lambda>d. map_option (\<lambda>o'. map (found_doc score (sp_q p)) (repo_searchDocs score o' d)) (query_of date p))
     (trackQuery (sp_q p) (id_text (ru_id u))) st"

definition found_comment :: "(string \<Rightarrow> comment \<Rightarrow> int option) \<Rightarrow> string \<Rightarrow> comment \<Rightarrow> json" where
  "found_comment score q k = JObj ([(''id'', JStr (k_id k)), (''documentId'', JStr (k_documentId k)), (''text'', JStr (k_text k)),
     (''createdAt'', JNum (k_createdAt k)), (''authorId'', JStr (k_authorId k))]
     @ (if q \<noteq> [] then score_field (score q k) else []) @ found_field (snippet (k_text k) q))"

definition sc_searchComments ::
  "(string \<Rightarrow> comment \<Rightarrow> int option) \<Rightarrow> req_user \<Rightarrow> string \<Rightarrow> string \<Rightarrow> string \<Rightarrow> string \<Rightarrow> api \<Rightarrow> (api_error + json) \<times> api" where
  "sc_searchComments score u q documentId skip limit st = cached_query
     (''search:comments:'' @ join_with '':'' [q, documentId, or_text skip ''0'', or_text limit ''20''])
     (\<lambda>d. Some (map (found_comment score q) (comment_search score q documentId (num_or 0 skip) (num_or 20 limit) d)))
     (trackQuery q (id_text (ru_id u))) st"

text \<open>The projection of a text search leaves out \<open>createdAt\<close>.\<close>

definition found_version :: "string \<Rightarrow> snap \<Rightarrow> json" where
  "found_version q s = JObj ([(''id'', JStr (s_id s)), (''documentId'', JStr (s_documentId s)), (''label'', JStr (s_label s))]
     @ found_field (snippet (s_description s) q) @ [(''tags'', JArr (map JStr (s_tags s)))]
     @ (if q = [] then [(''createdAt'', JNum (s_createdAt s))] else []))"

definition sc_searchVersions ::
  "(string \<Rightarrow> snap \<Rightarrow> bool) \<Rightarrow> string \<Rightarrow> string \<Rightarrow> string \<Rightarrow> api \<Rightarrow> (api_error + json) \<times> api" where
  "sc_searchVersions matches q documentId limit st = cached_query
     (''search:versions:'' @ join_with '':'' [q, documentId, or_text limit ''20''])
     (\<lambda>d. Some (map (found_version q) (version_search matches q documentId (num_or 20 limit) d))) id st"

text \<open>The escaped expression with flag \<open>i\<close> finds the text itself, whatever the case of its letters.\<close>

definition like :: "string \<Rightarrow> string \<Rightarrow> bool" where
  "like q t \<longleftrightarrow> q = [] \<or> has_sub (to_lower t) (to_lower q)"

definition plain_query :: "string \<Rightarrow> doc_query" where
  "plain_query ws = \<lparr>dq_q = [], dq_workspaceId = ws, dq_authorId = [], dq_tags = [], dq_status = [], dq_from = None,
     dq_to = None, dq_skip = 0, dq_limit = 50\<rparr>"

definition sc_suggest :: "string \<Rightarrow> string \<Rightarrow> db \<Rightarrow> string list \<times> string list" where
  "sc_suggest q ws d =
     (let rows = filter (\<lambda>x. like q (d_title x)) (repo_searchDocs (\<lambda>_ _. None) (plain_query ws) d)
      in (take 10 (js_set (map d_title rows)), take 10 (js_set (filter (like q) (concat (map d_tags rows))))))"

definition sc_related :: "string \<Rightarrow> db \<Rightarrow> json list" where
  "sc_related documentId d = map (\<lambda>x. JObj [(''id'', JStr (d_id x)), (''title'', JStr (d_title x)),
     (''tags'', JArr (map JStr (d_tags x))), (''updatedAt'', JNum (d_updatedAt x))]) (doc_related documentId 10 d)"

section \<open>Snippets show the match\<close>

lemma index_of_Some: "has_sub t w \<longleftrightarrow> (\<exists>a b. t = a @ w @ b)"
proof
  assume "has_sub t w"
  then obtain i where "index_of t w = Some i" by (auto simp: has_sub_def)
  then have "take (length w) (drop i t) = w" by (simp add: index_of_SomeD)
  then have "t = take i t @ w @ drop (length w) (drop i t)" by (metis append_take_drop_id)
  then show "\<exists>a b. t = a @ w @ b" by blast
next
  assume "\<exists>a b. t = a @ w @ b"
  then obtain a b where "t = a @ w @ b" by blast
  moreover have "index_of (a @ w @ b) w \<noteq> None"
  proof (induction a)
    case Nil
    then show ?case using starts_with_append [of w b] by (cases "w @ b") (auto simp del: starts_with_append)
  next
    case (Cons c a)
    then show ?case by simp
  qed
  ultimately show "has_sub t w" by (simp add: has_sub_def)
qed

lemma take_drop_inside:
  assumes "a \<le> i" and "i + n \<le> b" and "i + n \<le> length t"
  shows "take n (drop (i - a) (slice a b t)) = take n (drop i t)"
proof -
  have "drop (i - a) (slice a b t) = take (b - a - (i - a)) (drop i t)"
    using assms by (simp add: slice_def drop_take)
  then show ?thesis using assms by (simp add: min_def)
qed

text \<open>a snippet is given exactly where the text holds the query, up to the case of letters; it holds the query
  itself, and no more than 40 characters of the text before and after it.\<close>

theorem snippet_shows_match:
  assumes "q \<noteq> []"
  shows "case snippet text q of
     None \<Rightarrow> \<not> has_sub (to_lower text) (to_lower q)
   | Some s \<Rightarrow> has_sub (to_lower text) (to_lower q) \<and> has_sub (to_lower s) (to_lower q) \<and> length s \<le> length q + 82"
proof (cases "index_of (to_lower text) (to_lower q)")
  case None
  with assms show ?thesis by (simp add: snippet_def has_sub_def)
next
  case (Some i)
  then have i: "i + length q \<le> length text" "take (length q) (drop i (to_lower text)) = to_lower q"
    using index_of_SomeD [OF Some] by simp_all
  let ?a = "i - 40" and ?b = "min (length text) (i + length q + 40)"
  let ?m = "slice ?a ?b text"
  have "take (length q) (drop (i - ?a) ?m) = take (length q) (drop i text)"
    using i(1) by (intro take_drop_inside) simp_all
  then have "to_lower (take (length q) (drop (i - ?a) ?m)) = to_lower q"
    using i(2) by (simp add: to_lower_take to_lower_drop)
  then have "take (length q) (drop (i - ?a) (to_lower ?m)) = to_lower q"
    by (simp only: to_lower_take to_lower_drop)
  moreover have "to_lower ?m = take (i - ?a) (to_lower ?m) @ take (length q) (drop (i - ?a) (to_lower ?m))
      @ drop (length q) (drop (i - ?a) (to_lower ?m))"
    by (simp only: append_take_drop_id)
  ultimately have m: "to_lower ?m = take (i - ?a) (to_lower ?m) @ to_lower q @ drop (length q) (drop (i - ?a) (to_lower ?m))"
    by simp
  have low: "to_lower (x @ y) = to_lower x @ to_lower y" for x y by (simp add: to_lower_def)
  have "has_sub (to_lower (x @ ?m @ y)) (to_lower q)" for x y
    unfolding index_of_Some low using m by (metis append.assoc)
  moreover have "length ?m \<le> length q + 80" by (simp add: slice_def)
  moreover have "has_sub (to_lower text) (to_lower q)" using Some by (simp add: has_sub_def)
  moreover obtain x y where "snippet text q = Some (x @ ?m @ y)" "length x \<le> 1" "length y \<le> 1"
  proof
    show "snippet text q = Some ((if ?a > 0 then ellipsis else []) @ ?m @ (if ?b < length text then ellipsis else []))"
      using assms Some by (simp only: snippet_def Let_def option.case if_False)
  qed (simp_all add: ellipsis_def)
  ultimately show ?thesis by simp
qed

lemma snippet_shows_match_witness:
  "case snippet ''The Quick fox'' ''quick'' of
     None \<Rightarrow> \<not> has_sub (to_lower ''The Quick fox'') (to_lower ''quick'')
   | Some s \<Rightarrow> has_sub (to_lower ''The Quick fox'') (to_lower ''quick'') \<and> has_sub (to_lower s) (to_lower ''quick'') \<and> length s \<le> length ''quick'' + 82"
  by (rule snippet_shows_match) simp

section \<open>What a search gives\<close>

lemma sorted_wrt_filter: "sorted_wrt R (filter p xs) \<longleftrightarrow> sorted_wrt (\<lambda>x y. p x \<longrightarrow> p y \<longrightarrow> R x y) xs"
  by (induction xs) auto

text \<open>Sorting by one key and then, stably, by another.\<close>

lemma sorted_wrt_two_keys:
  "sorted_wrt (\<lambda>x y. f x < f y \<or> f x = f y \<and> g x \<le> g y) (sort_key f (sort_key g xs :: 'a list) :: 'a list)"
  for f :: "'a \<Rightarrow> int" and g :: "'a \<Rightarrow> int"
proof -
  let ?ys = "sort_key f (sort_key g xs)"
  have s: "sorted_wrt (\<lambda>x y. f x \<le> f y) ?ys"
    using sorted_sort_key [of f "sort_key g xs"] by (simp add: sorted_map)
  have "sorted_wrt (\<lambda>x y. f x = k \<longrightarrow> f y = k \<longrightarrow> g x \<le> g y) ?ys" for k
  proof -
    have "filter (\<lambda>x. f x = k) ?ys = filter (\<lambda>x. f x = k) (sort_key g xs)"
      using sort_key_stable [of f k "sort_key g xs"] by simp
    moreover have "sorted_wrt (\<lambda>x y. g x \<le> g y) (filter (\<lambda>x. f x = k) (sort_key g xs))"
      using sorted_sort_key [of g xs] by (simp add: sorted_map sorted_wrt_filter) (auto intro: sorted_wrt_mono_rel [rotated])
    ultimately show ?thesis by (metis (no_types, lifting) sorted_wrt_filter sorted_wrt_mono_rel)
  qed
  then show ?thesis
    using s by (fastforce simp: sorted_wrt_iff_nth_less order_le_less)
qed

lemma set_ranked: "set (ranked score date xs) = {x \<in> set xs. score x \<noteq> None}"
  by (auto simp: ranked_def)

lemma sorted_wrt_page: "sorted_wrt R xs \<Longrightarrow> sorted_wrt R (page skip limit xs)"
  by (simp add: page_def sorted_wrt_take sorted_wrt_drop)

lemma page_length: "length (page skip limit xs) \<le> 200"
  by (rule order_trans [of _ "page_limit limit"]) (simp_all add: page_def page_limit_def)

lemma set_page: "set (page skip limit xs) \<subseteq> set xs"
  by (auto simp: page_def dest: in_set_takeD in_set_dropD)

text \<open>a text search gives at most 200 documents, each of which matches every condition asked for and the text, the
  best first and of two equally good ones the one changed last.\<close>

theorem search_best_first:
  assumes "dq_q o' \<noteq> []"
  shows "length (repo_searchDocs score o' d) \<le> 200
    \<and> (\<forall>x \<in> set (repo_searchDocs score o' d). x \<in> set (docs d) \<and> doc_matches o' x \<and> score (dq_q o') x \<noteq> None)
    \<and> sorted_wrt (\<lambda>x y. the (score (dq_q o') y) < the (score (dq_q o') x)
         \<or> the (score (dq_q o') y) = the (score (dq_q o') x) \<and> d_updatedAt y \<le> d_updatedAt x) (repo_searchDocs score o' d)"
proof -
  let ?r = "ranked (score (dq_q o')) d_updatedAt (filter (doc_matches o') (docs d))"
  have r: "repo_searchDocs score o' d = page (dq_skip o') (dq_limit o') ?r"
    using assms by (simp add: repo_searchDocs_def Let_def)
  have "sorted_wrt (\<lambda>x y. the (score (dq_q o') y) < the (score (dq_q o') x)
         \<or> the (score (dq_q o') y) = the (score (dq_q o') x) \<and> d_updatedAt y \<le> d_updatedAt x) ?r"
    using sorted_wrt_two_keys [of "\<lambda>x. - the (score (dq_q o') x)" "\<lambda>x. - d_updatedAt x"
      "filter (\<lambda>x. score (dq_q o') x \<noteq> None) (filter (doc_matches o') (docs d))"]
    unfolding ranked_def by (auto elim!: sorted_wrt_mono_rel [rotated])
  moreover have "set (page (dq_skip o') (dq_limit o') ?r) \<subseteq> {x \<in> set (docs d). doc_matches o' x \<and> score (dq_q o') x \<noteq> None}"
    using set_page [of "dq_skip o'" "dq_limit o'" ?r] by (auto simp: set_ranked)
  ultimately show ?thesis
    unfolding r using page_length sorted_wrt_page by blast
qed

text \<open>suggestions are at most ten titles and ten tags, without repetition, of documents that are not deleted and lie
  in the workspace asked for, and each holds what was typed, up to the case of letters.\<close>

theorem suggestions_sound:
  "length (fst (sc_suggest q ws d)) \<le> 10 \<and> distinct (fst (sc_suggest q ws d))
   \<and> length (snd (sc_suggest q ws d)) \<le> 10 \<and> distinct (snd (sc_suggest q ws d))
   \<and> set (fst (sc_suggest q ws d)) \<union> set (snd (sc_suggest q ws d)) \<subseteq>
      {t. like q t \<and> (\<exists>x \<in> set (docs d). d_status x \<noteq> Deleted \<and> (ws = [] \<or> d_workspaceId x = ws) \<and> (t = d_title x \<or> t \<in> set (d_tags x)))}"
proof -
  let ?rows = "filter (\<lambda>x. like q (d_title x)) (repo_searchDocs (\<lambda>_ _. None) (plain_query ws) d)"
  have rows: "set ?rows \<subseteq> {x \<in> set (docs d). d_status x \<noteq> Deleted \<and> (ws = [] \<or> d_workspaceId x = ws) \<and> like q (d_title x)}"
    using set_page [of 0 50] by (fastforce simp: repo_searchDocs_def plain_query_def doc_matches_def)
  have e: "sc_suggest q ws d = (take 10 (js_set (map d_title ?rows)), take 10 (js_set (filter (like q) (concat (map d_tags ?rows)))))"
    by (simp only: sc_suggest_def Let_def)
  have "set (take 10 (js_set xs)) \<subseteq> set xs" for xs :: "string list"
    using set_take_subset [of 10 "js_set xs"] by simp
  with rows show ?thesis
    unfolding e fst_conv snd_conv by (intro conjI take_length_le distinct_take distinct_js_set) fastforce
qed

lemma search_best_first_witness:
  "length (repo_searchDocs (\<lambda>q x. if like q (d_title x) then Some 1 else None) ((plain_query ''w'')\<lparr>dq_q := ''a''\<rparr>) demo_db) \<le> 200"
  using search_best_first [of "(plain_query ''w'')\<lparr>dq_q := ''a''\<rparr>"] by simp

section \<open>The cache of answers\<close>

text \<open>No counter has the key of an answer.\<close>

lemma track_entry:
  assumes "starts_with k ''search:docs:''"
  shows "entry (trackQuery q v s) k = entry s k"
proof -
  obtain r where "k = ''search:docs:'' @ r" using assms by (auto simp: starts_with_iff)
  then have "k \<noteq> ''metrics:search:queries''" "k \<noteq> ''search:terms''" "k \<noteq> tmpl ''search:user:'' v"
    by (simp_all add: tmpl_def)
  then show ?thesis by (simp add: trackQuery_def Let_def key_simps)
qed

lemma cached_query_again:
  assumes "fst (cached_query k rows track st) = Inr j"
    and "\<And>s. entry (track s) k = entry s k"
  shows "cached_query k rows' track' (snd (cached_query k rows track st)) = (Inr j, snd (cached_query k rows track st))"
proof (cases "cache_getJson k (a_redis st)")
  case (Some x)
  with assms(1) show ?thesis by (simp add: cached_query_def)
next
  case None
  with assms(1) obtain js where js: "rows (a_db st) = Some js" "j = JArr js" by (auto simp: cached_query_def split: option.splits)
  have "cache_getJson k (track (cache_setJson k j 30 (a_redis st))) = Some j"
    using cache_getJson_cong [OF assms(2) [of "cache_setJson k j 30 (a_redis st)"]] by (simp add: key_simps)
  with None js show ?thesis by (simp add: cached_query_def)
qed

text \<open>while the answer to a search is kept, asking again gives the same answer and changes nothing, whoever asks and
  whatever has happened to the documents.\<close>

theorem search_repeats:
  assumes "fst (sc_searchDocs score date u p st) = Inr j"
    and "a_redis st1 = a_redis (snd (sc_searchDocs score date u p st))"
  shows "sc_searchDocs score date v p st1 = (Inr j, st1)"
proof -
  let ?st = "snd (sc_searchDocs score date u p st)"
  have k: "starts_with (search_key p) ''search:docs:''" by (simp add: search_key_def)
  have "fst (sc_searchDocs score date v p ?st) = Inr j \<and> cache_getJson (search_key p) (a_redis ?st) = Some j"
  proof
    show "fst (sc_searchDocs score date v p ?st) = Inr j"
      using cached_query_again [OF assms(1) [unfolded sc_searchDocs_def]] track_entry [OF k] by (simp add: sc_searchDocs_def)
    show "cache_getJson (search_key p) (a_redis ?st) = Some j"
      using cached_query_again [OF assms(1) [unfolded sc_searchDocs_def] track_entry [OF k], of "\<lambda>_. None" id]
      by (auto simp: sc_searchDocs_def cached_query_def [of _ "\<lambda>_. None"] split: option.splits)
  qed
  with assms(2) show ?thesis by (simp add: sc_searchDocs_def cached_query_def)
qed

definition no_params :: search_params where
  "no_params = \<lparr>sp_q = [], sp_workspaceId = [], sp_authorId = [], sp_tags = [], sp_status = [], sp_from = [], sp_to = [],
     sp_skip = [], sp_limit = []\<rparr>"

definition demo_searcher :: req_user where
  "demo_searcher = \<lparr>ru_id = Oid ''z'', ru_email = None, ru_share = None\<rparr>"

definition searched :: "(api_error + json) \<times> api" where
  "searched = sc_searchDocs (\<lambda>_ _. None) (\<lambda>_. None) demo_searcher no_params demo_api"

lemma search_repeats_witness:
  "\<exists>j. sc_searchDocs (\<lambda>_ _. None) (\<lambda>_. None) demo_editor_user no_params (snd searched) = (Inr j, snd searched)"
proof -
  have "cache_getJson k (a_redis demo_api) = None" for k
    by (simp add: cache_getJson_def r_get_None demo_api_ok)
  then have "\<exists>j. fst searched = Inr j"
    by (simp add: searched_def sc_searchDocs_def cached_query_def query_of_def no_params_def opt_date_def)
  then obtain j where "fst searched = Inr j" ..
  from search_repeats [OF this [unfolded searched_def], of "snd searched" demo_editor_user] show ?thesis
    by (auto simp: searched_def)
qed

section \<open>What the search does not check\<close>

text \<open>The answer does not depend on who asks, so it shows documents and comments of workspaces the user is no member
  of; and a search for deleted documents finds them.\<close>

lemma search_ignores_user:
  "fst (sc_searchDocs score date u p st) = fst (sc_searchDocs score date v p st)"
  "fst (sc_searchComments cscore u q i skip limit st) = fst (sc_searchComments cscore v q i skip limit st)"
  by (auto simp: sc_searchDocs_def sc_searchComments_def cached_query_def split: option.split)

lemma deleted_documents_found:
  "d_status x = Deleted \<Longrightarrow> doc_matches ((plain_query (d_workspaceId x))\<lparr>dq_status := [''deleted'']\<rparr>) x"
  by (simp add: doc_matches_def plain_query_def)

text \<open>A tag is suggested only where the title matches as well.\<close>

lemma tag_not_suggested:
  "\<forall>x \<in> set (docs d). t \<in> set (d_tags x) \<longrightarrow> \<not> like q (d_title x) \<Longrightarrow> t \<notin> set (snd (sc_suggest q ws d))"
  using set_page [of 0 50] by (fastforce simp: sc_suggest_def Let_def repo_searchDocs_def plain_query_def dest: in_set_takeD)

end
