(* ===== verification/Migrations.thy ===== *)
theory Migrations
  imports Store "HOL-Library.List_Lexorder"
begin

text \<open>
  The migration runner (\<open>api/src/scripts/migrations.ts\<close>). A database is a value of any type \<open>'d\<close>, what a
  migration does to it a function; the collection \<open>migrations\<close> is the list of the identifiers applied, oldest
  first. The files of the directory are read in the order of their names.
\<close>

section \<open>Running migrations\<close>

record 'd migration =
  mg_id :: string
  mg_up :: "'d \<Rightarrow> 'd option"
  mg_down :: "'d \<Rightarrow> 'd option"

record 'd site =
  si_db :: 'd
  si_applied :: "string list"

text \<open>A file of the directory: its name, and the migration it exports, if it exports both functions.\<close>

definition is_script :: "string \<Rightarrow> bool" where
  "is_script f \<longleftrightarrow> starts_with (rev f) (rev ''.ts'') \<or> starts_with (rev f) (rev ''.js'')"

text \<open>The name without its first occurrence of the extension.\<close>

definition base_name :: "string \<Rightarrow> string" where
  "base_name f = (case index_of f (drop (length f - 3) f) of Some i \<Rightarrow> take i f @ drop (i + 3) f | None \<Rightarrow> f)"

definition loadMigrations :: "(string \<times> (('d \<Rightarrow> 'd option) \<times> ('d \<Rightarrow> 'd option)) option) list \<Rightarrow> 'd migration list option" where
  "loadMigrations files =
     (let fs = sort_key fst (filter (\<lambda>f. is_script (fst f)) files)
      in if \<exists>f \<in> set fs. snd f = None then None
         else Some (map (\<lambda>f. \<lparr>mg_id = base_name (fst f), mg_up = fst (the (snd f)), mg_down = snd (the (snd f))\<rparr>) fs))"

text \<open>The identifier is marked after the migration ran; a failing one stops the run (\<open>Inl\<close>), what was done stays.\<close>

definition apply_migration :: "'d migration \<Rightarrow> 'd site \<Rightarrow> (string + 'd site)" where
  "apply_migration m s = (case mg_up m (si_db s) of
     None \<Rightarrow> Inl (mg_id m)
   | Some d \<Rightarrow> Inr \<lparr>si_db = d, si_applied = si_applied s @ [mg_id m]\<rparr>)"

definition revert_migration :: "'d migration \<Rightarrow> 'd site \<Rightarrow> (string + 'd site)" where
  "revert_migration m s = (case mg_down m (si_db s) of
     None \<Rightarrow> Inl (mg_id m)
   | Some d \<Rightarrow> Inr \<lparr>si_db = d, si_applied = remove1 (mg_id m) (si_applied s)\<rparr>)"

fun run_up :: "'d migration list \<Rightarrow> 'd site \<Rightarrow> string option \<times> 'd site" where
  "run_up [] s = (None, s)"
| "run_up (m # ms) s = (case apply_migration m s of Inl e \<Rightarrow> (Some e, s) | Inr s1 \<Rightarrow> run_up ms s1)"

fun run_down :: "'d migration list \<Rightarrow> string list \<Rightarrow> 'd site \<Rightarrow> string option \<times> 'd site" where
  "run_down ms [] s = (None, s)"
| "run_down ms (i # is) s = (case find (\<lambda>m. mg_id m = i) ms of
     None \<Rightarrow> run_down ms is s
   | Some m \<Rightarrow> (case revert_migration m s of Inl e \<Rightarrow> (Some e, s) | Inr s1 \<Rightarrow> run_down ms is s1))"

definition cmd_status :: "'d migration list \<Rightarrow> 'd site \<Rightarrow> (bool \<times> string) list" where
  "cmd_status ms s = map (\<lambda>m. (mg_id m \<in> set (si_applied s), mg_id m)) ms"

definition cmd_up :: "'d migration list \<Rightarrow> 'd site \<Rightarrow> string option \<times> 'd site" where
  "cmd_up ms s = run_up (filter (\<lambda>m. mg_id m \<notin> set (si_applied s)) ms) s"

text \<open>\<open>Number(target || '1')\<close> steps; a negative number is read by \<open>slice\<close> from the end.\<close>

definition cmd_down :: "'d migration list \<Rightarrow> int \<Rightarrow> 'd site \<Rightarrow> string option \<times> 'd site" where
  "cmd_down ms steps s =
     (let is = rev (si_applied s)
      in run_down ms (take (nat (if steps < 0 then int (length is) + steps else steps)) is) s)"

definition cmd_to :: "'d migration list \<Rightarrow> string \<Rightarrow> 'd site \<Rightarrow> string option \<times> 'd site" where
  "cmd_to ms target s =
     (case run_up (filter (\<lambda>m. mg_id m \<le> target \<and> mg_id m \<notin> set (si_applied s)) ms) s of
        (Some e, s1) \<Rightarrow> (Some e, s1)
      | (None, s1) \<Rightarrow> run_down ms (rev (filter (\<lambda>i. \<not> i \<le> target) (si_applied s1))) s1)"

section \<open>Migrating to a target\<close>

definition all_run :: "'d migration list \<Rightarrow> bool" where
  "all_run ms \<longleftrightarrow> (\<forall>m \<in> set ms. \<forall>d. mg_up m d \<noteq> None \<and> mg_down m d \<noteq> None)"

lemma run_up_applied:
  "\<forall>m \<in> set ms. \<forall>d. mg_up m d \<noteq> None \<Longrightarrow>
   fst (run_up ms s) = None \<and> si_applied (snd (run_up ms s)) = si_applied s @ map mg_id ms"
proof (induction ms arbitrary: s)
  case (Cons m ms)
  then obtain d where "mg_up m (si_db s) = Some d" by fastforce
  with Cons show ?case by (simp add: apply_migration_def)
qed simp

lemma run_down_applied:
  assumes "all_run ms" and "set is \<subseteq> mg_id ` set ms"
  shows "fst (run_down ms is s) = None \<and> si_applied (snd (run_down ms is s)) = fold remove1 is (si_applied s)"
  using assms(2)
proof (induction "is" arbitrary: s)
  case (Cons i "is")
  then obtain m where m: "find (\<lambda>m. mg_id m = i) ms = Some m" by (cases "find (\<lambda>m. mg_id m = i) ms") (auto simp: find_None_iff)
  then have "m \<in> set ms" "mg_id m = i" by (auto simp: find_Some_iff)
  with assms(1) obtain d where "mg_down m (si_db s) = Some d" by (fastforce simp: all_run_def)
  with m \<open>mg_id m = i\<close> Cons show ?case by (simp add: revert_migration_def)
qed simp

lemma set_fold_remove1: "distinct xs \<Longrightarrow> set (fold remove1 ys xs) = set xs - set ys"
proof (induction ys arbitrary: xs)
  case (Cons y ys)
  then show ?case by (simp add: distinct_remove1 set_remove1_eq) blast
qed simp

text \<open>migrating to a target, where no script fails, leaves exactly the migrations up to the target applied, whatever
  was applied before, so long as the scripts of all that was applied are still there.\<close>

theorem to_target_exactly:
  assumes "all_run ms" and "distinct (map mg_id ms)" and "distinct (si_applied s)"
    and "set (si_applied s) \<subseteq> mg_id ` set ms"
  shows "fst (cmd_to ms target s) = None
    \<and> set (si_applied (snd (cmd_to ms target s))) = {i \<in> mg_id ` set ms. i \<le> target}"
proof -
  let ?new = "filter (\<lambda>m. mg_id m \<le> target \<and> mg_id m \<notin> set (si_applied s)) ms"
  obtain s1 where up: "run_up ?new s = (None, s1)" "si_applied s1 = si_applied s @ map mg_id ?new"
    using run_up_applied [of ?new s] assms(1) by (cases "run_up ?new s") (auto simp: all_run_def)
  let ?old = "rev (filter (\<lambda>i. \<not> i \<le> target) (si_applied s1))"
  have sub: "set (si_applied s1) \<subseteq> mg_id ` set ms" using assms(4) up(2) by auto
  then have "set ?old \<subseteq> mg_id ` set ms" by auto
  note down = run_down_applied [OF assms(1) this, of s1]
  have "distinct (map mg_id ?new)" using assms(2) by (rule distinct_map_filter)
  then have "distinct (si_applied s1)" using assms(3) up(2) by auto
  then have "set (fold remove1 ?old (si_applied s1)) = {i \<in> set (si_applied s1). i \<le> target}"
    by (auto simp: set_fold_remove1)
  moreover have "{i \<in> set (si_applied s1). i \<le> target} = {i \<in> mg_id ` set ms. i \<le> target}"
    using sub up(2) by auto
  ultimately show ?thesis using up(1) down by (simp add: cmd_to_def)
qed

definition demo_script :: "string \<Rightarrow> nat \<Rightarrow> nat migration" where
  "demo_script i n = \<lparr>mg_id = i, mg_up = (\<lambda>d. Some (d + n)), mg_down = (\<lambda>d. Some (d - n))\<rparr>"

lemma to_target_exactly_witness:
  "set (si_applied (snd (cmd_to [demo_script ''a'' 1, demo_script ''b'' 2, demo_script ''c'' 4] ''b'' \<lparr>si_db = 5, si_applied = [''a'', ''c'']\<rparr>)))
   = {''a'', ''b''}"
proof -
  let ?ms = "[demo_script ''a'' 1, demo_script ''b'' 2, demo_script ''c'' 4]"
  have "all_run ?ms" by (simp add: all_run_def demo_script_def)
  moreover have ids: "map mg_id ?ms = [''a'', ''b'', ''c'']" by (simp add: demo_script_def)
  ultimately have "set (si_applied (snd (cmd_to ?ms ''b'' \<lparr>si_db = 5, si_applied = [''a'', ''c'']\<rparr>))) = {i \<in> set (map mg_id ?ms). i \<le> ''b''}"
    using to_target_exactly [of ?ms "\<lparr>si_db = 5, si_applied = [''a'', ''c'']\<rparr>" "''b''"] by (simp add: demo_script_def)
  moreover have "(''a'' :: string) \<le> ''b'' \<and> (''b'' :: string) \<le> ''b'' \<and> \<not> (''c'' :: string) \<le> ''b''" by code_simp
  moreover have "{i \<in> {a, b, c}. i \<le> b} = {a, b}" if "a \<le> b \<and> b \<le> b \<and> \<not> c \<le> b" for a b c :: string
    using that by auto
  ultimately show ?thesis by (simp only: ids list.set)
qed

section \<open>Reverting what was applied\<close>

lemma run_down_append:
  "run_down ms (xs @ ys) s = (case run_down ms xs s of (Some e, s1) \<Rightarrow> (Some e, s1) | (None, s1) \<Rightarrow> run_down ms ys s1)"
  by (induction xs arbitrary: s) (auto split: option.split sum.split)

lemma run_down_up:
  assumes "\<And>m d d'. m \<in> set ms \<Longrightarrow> mg_up m d = Some d' \<Longrightarrow> mg_down m d' = Some d" and "distinct (map mg_id ms)"
    and "set new \<subseteq> set ms" and "mg_id ` set new \<inter> set (si_applied s) = {}" and "distinct (map mg_id new)"
    and "run_up new s = (None, s1)"
  shows "run_down ms (rev (map mg_id new)) s1 = (None, s)"
  using assms(3-6)
proof (induction new arbitrary: s)
  case (Cons m new)
  then obtain d where d: "mg_up m (si_db s) = Some d" by (auto simp: apply_migration_def split: option.splits)
  let ?s = "\<lparr>si_db = d, si_applied = si_applied s @ [mg_id m]\<rparr>"
  have "run_up new ?s = (None, s1)" using Cons.prems(4) d by (simp add: apply_migration_def)
  then have rest: "run_down ms (rev (map mg_id new)) s1 = (None, ?s)" using Cons.prems by (intro Cons.IH) auto
  have "m \<in> set ms" using Cons.prems by simp
  then have "find (\<lambda>x. mg_id x = mg_id m) ms = Some m"
    using assms(2) by (induction ms) auto
  moreover have "mg_down m d = Some (si_db s)" using assms(1) \<open>m \<in> set ms\<close> d by simp
  moreover have "remove1 (mg_id m) (si_applied s @ [mg_id m]) = si_applied s"
    using Cons.prems by (simp add: remove1_append)
  ultimately show ?case using rest by (simp add: run_down_append revert_migration_def)
qed simp

text \<open>where every script's \<open>down\<close> undoes its \<open>up\<close>, reverting as many migrations as an \<open>up\<close> applied restores the
  database and the list of what is applied.\<close>

theorem down_undoes_up:
  assumes "\<forall>m \<in> set ms. \<forall>d d'. mg_up m d = Some d' \<longrightarrow> mg_down m d' = Some d" and "distinct (map mg_id ms)"
    and "cmd_up ms s = (None, s1)"
  shows "cmd_down ms (int (length (si_applied s1)) - int (length (si_applied s))) s1 = (None, s)"
proof -
  let ?new = "filter (\<lambda>m. mg_id m \<notin> set (si_applied s)) ms"
  have up: "run_up ?new s = (None, s1)" using assms(3) by (simp add: cmd_up_def)
  have applied: "si_applied s1 = si_applied s @ map mg_id new" if "run_up new s = (None, s1)" for new s
    using that
  proof (induction new arbitrary: s)
    case (Cons m new)
    then show ?case by (auto simp: apply_migration_def split: option.splits sum.splits)
  qed simp
  from this [OF up] have "take (nat (int (length (si_applied s1)) - int (length (si_applied s)))) (rev (si_applied s1)) = rev (map mg_id ?new)"
    by simp
  moreover have "run_down ms (rev (map mg_id ?new)) s1 = (None, s)"
    using assms(1,2) up by (intro run_down_up) (auto simp: distinct_map_filter)
  ultimately show ?thesis using applied [OF up] by (simp add: cmd_down_def Let_def)
qed

lemma down_undoes_up_witness:
  "cmd_down [demo_script ''a'' 1, demo_script ''b'' 2] 2 \<lparr>si_db = 8, si_applied = [''a'', ''b'']\<rparr> = (None, \<lparr>si_db = 5, si_applied = []\<rparr>)"
  using down_undoes_up [of "[demo_script ''a'' 1, demo_script ''b'' 2]" "\<lparr>si_db = 5, si_applied = []\<rparr>" "\<lparr>si_db = 8, si_applied = [''a'', ''b'']\<rparr>"]
  by (simp add: demo_script_def cmd_up_def apply_migration_def)

section \<open>The migration of the default roles\<close>

definition backfill_up :: "db \<Rightarrow> db option" where
  "backfill_up d = Some (d\<lparr>workspaces := map (\<lambda>w. if w_defaultRole w = None then w\<lparr>w_defaultRole := Some ''editor''\<rparr> else w) (workspaces d)\<rparr>)"

definition backfill_down :: "db \<Rightarrow> db option" where
  "backfill_down d = Some (d\<lparr>workspaces := map (\<lambda>w. w\<lparr>w_defaultRole := None\<rparr>) (workspaces d)\<rparr>)"

lemma backfill_complete: "\<forall>w \<in> set (workspaces (the (backfill_up d))). w_defaultRole w \<noteq> None"
  by (auto simp: backfill_up_def)

text \<open>It does not undo itself: reverting it forgets the roles that were chosen before.\<close>

lemma backfill_forgets_choice:
  assumes "w \<in> set (workspaces d)" and "w_defaultRole w = Some r"
  shows "Option.bind (backfill_up d) backfill_down \<noteq> Some d"
proof
  assume "Option.bind (backfill_up d) backfill_down = Some d"
  then have "workspaces (the (backfill_down (the (backfill_up d)))) = workspaces d" by (simp add: backfill_up_def backfill_down_def)
  moreover have "\<forall>x \<in> set (workspaces (the (backfill_down (the (backfill_up d))))). w_defaultRole x = None"
    by (simp add: backfill_down_def)
  ultimately show False using assms by auto
qed

end
