(* ===== verification/Render.thy ===== *)
theory Render
  imports Comments "HOL-Library.Sublist"
begin

text \<open>
  What the browser makes of texts: the Markdown export of the edit page
  (\<open>web/src/app/workspaces/[id]/documents/[docId]/edit/page.tsx\<close>) and the HTML of comments with their mentions
  (\<open>web/src/components/CommentsSidebar.tsx\<close>).
\<close>

section \<open>Markdown\<close>

text \<open>A document of the editor: texts with marks, and nodes with their type, the level of a heading and their content.\<close>

datatype mark = Bold | Italic | Underline | Link string | OtherMark string

datatype node = TextNode string "mark list" | Node string nat "node list"

fun marks :: "string \<Rightarrow> mark list \<Rightarrow> string" where
  "marks t [] = t"
| "marks t (m # ms) = marks (case m of
     Bold \<Rightarrow> ''**'' @ t @ ''**'' | Italic \<Rightarrow> ''*'' @ t @ ''*'' | Underline \<Rightarrow> ''__'' @ t @ ''__''
   | Link href \<Rightarrow> ''['' @ t @ '']('' @ href @ '')'' | OtherMark _ \<Rightarrow> t) ms"

fun node_text :: "node \<Rightarrow> string" where
  "node_text (TextNode t ms) = marks t ms"
| "node_text (Node ty lv cs) = concat (map node_text cs)"

definition nl :: string where
  "nl = [CHR 0x0A]"

fun numbered :: "nat \<Rightarrow> string list \<Rightarrow> string list" where
  "numbered i [] = []"
| "numbered i (x # xs) = (show_nat i @ ''. '' @ x) # numbered (i + 1) xs"

text \<open>The level of a heading is 0 where it has none; the depth the code passes on is not used.\<close>

fun render :: "node \<Rightarrow> string" where
  "render (TextNode t ms) = []"
| "render (Node ty lv cs) =
     (if ty = ''doc'' then join_with (nl @ nl) (map render cs)
      else if ty = ''paragraph'' then concat (map node_text cs)
      else if ty = ''heading'' then replicate (if lv = 0 then 1 else lv) (CHR ''#'') @ '' '' @ concat (map node_text cs)
      else if ty = ''bulletList'' then join_with nl (map (\<lambda>li. ''- '' @ render li) cs)
      else if ty = ''orderedList'' then join_with nl (numbered 1 (map render cs))
      else if ty = ''listItem'' then join_with '' '' (map render cs)
      else if ty = ''blockquote'' then join_with nl (map (\<lambda>c. ''> '' @ render c) cs)
      else if ty = ''codeBlock'' then [CHR 0x60, CHR 0x60, CHR 0x60] @ nl @ concat (map node_text cs) @ nl @ [CHR 0x60, CHR 0x60, CHR 0x60]
      else concat (map render cs))"

definition toMarkdown :: "node \<Rightarrow> string" where
  "toMarkdown doc = render doc"

section \<open>The export keeps every text\<close>

text \<open>The texts of a document, one after the other.\<close>

fun all_text :: "node \<Rightarrow> string" where
  "all_text (TextNode t ms) = t"
| "all_text (Node ty lv cs) = concat (map all_text cs)"

text \<open>The schema of the editor has texts in paragraphs, headings and code blocks only.\<close>

fun text_placed :: "node \<Rightarrow> bool" where
  "text_placed (TextNode t ms) = False"
| "text_placed (Node ty lv cs) \<longleftrightarrow>
     ty \<in> {''paragraph'', ''heading'', ''codeBlock''} \<or> (\<forall>c \<in> set cs. text_placed c)"

lemma subseq_inside: "subseq t t' \<Longrightarrow> subseq t (a @ t' @ b)"
  by (simp add: list_emb_append2 subseq_rev_drop_many)

lemma subseq_marks: "subseq t (marks t ms)"
proof (induction ms arbitrary: t)
  case (Cons m ms)
  have "subseq t (case m of
     Bold \<Rightarrow> ''**'' @ t @ ''**'' | Italic \<Rightarrow> ''*'' @ t @ ''*'' | Underline \<Rightarrow> ''__'' @ t @ ''__''
   | Link href \<Rightarrow> ''['' @ t @ '']('' @ href @ '')'' | OtherMark _ \<Rightarrow> t)"
    by (cases m; simp only: mark.case; (rule subseq_order.refl | rule subseq_inside, rule subseq_order.refl))
  then show ?case unfolding marks.simps using Cons.IH by (rule subseq_order.trans)
qed simp

lemma subseq_concat_map:
  assumes "\<And>x. x \<in> set xs \<Longrightarrow> subseq (f x) (g x)"
  shows "subseq (concat (map f xs)) (concat (map g xs))"
  using assms by (induction xs) (auto intro: list_emb_append_mono)

lemma subseq_join_Cons:
  "subseq a b \<Longrightarrow> subseq c (join_with sep ds) \<Longrightarrow> subseq (a @ c) (join_with sep (b # ds))"
proof (cases ds)
  case Nil
  assume "subseq a b" "subseq c (join_with sep ds)"
  with Nil show ?thesis by (cases c) auto
next
  case (Cons d es)
  assume ab: "subseq a b" and "subseq c (join_with sep ds)"
  then have "subseq c (sep @ join_with sep ds)" by (rule_tac list_emb_append2)
  with ab have "subseq (a @ c) (b @ sep @ join_with sep ds)" by (rule list_emb_append_mono)
  with Cons show ?thesis by simp
qed

lemma subseq_join:
  assumes "\<And>x. x \<in> set xs \<Longrightarrow> subseq (f x) (g x)"
  shows "subseq (concat (map f xs)) (join_with sep (map g xs))"
  using assms by (induction xs) (simp_all add: subseq_join_Cons)

lemma subseq_numbered:
  assumes "\<And>x. x \<in> set xs \<Longrightarrow> subseq (f x) (g x)"
  shows "subseq (concat (map f xs)) (join_with sep (numbered i (map g xs)))"
  using assms
proof (induction xs arbitrary: i)
  case (Cons x xs)
  have "subseq (f x) (g x)" using Cons.prems by simp
  then have "subseq (f x) ((show_nat i @ ''. '') @ g x)" by (rule list_emb_append2)
  then show ?case
    using Cons by (simp add: subseq_join_Cons)
qed simp

lemma subseq_if: "(c \<Longrightarrow> subseq a x) \<Longrightarrow> (\<not> c \<Longrightarrow> subseq a y) \<Longrightarrow> subseq a (if c then x else y)"
  by simp

lemma subseq_node_text: "subseq (all_text n) (node_text n)"
  by (induction n rule: node_text.induct) (auto simp: subseq_marks intro: subseq_concat_map)

text \<open>the Markdown of a document holds every text of it, in order: nothing that was written gets lost in the export.\<close>

theorem markdown_keeps_text:
  assumes "text_placed n"
  shows "subseq (all_text n) (toMarkdown n)"
proof -
  have "text_placed n \<Longrightarrow> subseq (all_text n) (render n)"
  proof (induction n)
    case (Node ty lv cs)
    have node: "subseq (concat (map all_text cs)) (concat (map node_text cs))"
      by (rule subseq_concat_map) (rule subseq_node_text)
    show ?case
    proof (cases "ty \<in> {''paragraph'', ''heading'', ''codeBlock''}")
      case True
      then consider "ty = ''paragraph''" | "ty = ''heading''" | "ty = ''codeBlock''" by blast
      then show ?thesis
      proof cases
        case 1
        then show ?thesis using node by simp
      next
        case 2
        then have "render (Node ty lv cs) = (replicate (if lv = 0 then 1 else lv) (CHR ''#'') @ '' '') @ concat (map node_text cs)"
          by simp
        then show ?thesis by (simp only: list_emb_append2 [OF node] all_text.simps)
      next
        case 3
        then have "render (Node ty lv cs) = ([CHR 0x60, CHR 0x60, CHR 0x60] @ nl) @ concat (map node_text cs) @ (nl @ [CHR 0x60, CHR 0x60, CHR 0x60])"
          by simp
        then show ?thesis by (simp only: subseq_inside [OF node] all_text.simps)
      qed
    next
      case False
      with Node.prems have "\<forall>c \<in> set cs. text_placed c" by simp
      with Node.IH have c: "subseq (all_text c) (render c)" if "c \<in> set cs" for c
        using that by blast
      have p: "subseq (all_text c) (a @ render c)" if "c \<in> set cs" for a c
        using c [OF that] by (rule list_emb_append2)
      show ?thesis
        unfolding all_text.simps render.simps
        by (intro subseq_if; (intro subseq_join subseq_numbered subseq_concat_map c p; assumption | use False in simp))
    qed
  qed simp
  with assms show ?thesis by (simp add: toMarkdown_def)
qed

definition demo_list :: node where
  "demo_list = Node ''doc'' 0 [Node ''heading'' 2 [TextNode ''T'' [Bold]],
     Node ''orderedList'' 0 [Node ''listItem'' 0 [Node ''paragraph'' 0 [TextNode ''a'' [], TextNode ''b'' [Link ''u'']]]]]"

lemma markdown_keeps_text_witness: "subseq ''Tab'' (toMarkdown demo_list)"
  using markdown_keeps_text [of demo_list] by (simp add: demo_list_def)

text \<open>Nesting is not kept: a list inside an item is written in the line of the item.\<close>

lemma nested_list_flattened:
  "toMarkdown (Node ''bulletList'' 0 [Node ''listItem'' 0 [Node ''paragraph'' 0 [TextNode ''a'' []],
     Node ''bulletList'' 0 [Node ''listItem'' 0 [Node ''paragraph'' 0 [TextNode ''b'' []]]]]]) = ''- a - b''"
  by (simp add: toMarkdown_def)

section \<open>Comments as HTML\<close>

definition shortId :: "string \<Rightarrow> string" where
  "shortId i = ''User '' @ drop (length i - 4) i"

definition esc_char :: "char \<Rightarrow> string" where
  "esc_char c = (if c = CHR ''&'' then ''&amp;'' else if c = CHR ''<'' then ''&lt;'' else if c = CHR ''>'' then ''&gt;'' else [c])"

definition esc :: "string \<Rightarrow> string" where
  "esc s = concat (map esc_char s)"

definition span_open :: string where
  "span_open = ''<span style='' @ [CHR 0x22] @ ''background:#fffbeb;border:1px solid #f59e0b;border-radius:4px;padding:0 2px;'' @ [CHR 0x22] @ ''>''"

definition mention_html :: "string \<Rightarrow> string" where
  "mention_html a = span_open @ ''@'' @ a @ ''</span>''"

text \<open>The replacement of every match of the expression, the one by which the server finds mentions.\<close>

function mark_mentions :: "string \<Rightarrow> string" where
  "mark_mentions [] = []"
| "mark_mentions (c # t) =
     (case (if c = CHR ''@'' then address_at t else None) of
        Some a \<Rightarrow> mention_html a @ mark_mentions (drop (length a) t)
      | None \<Rightarrow> c # mark_mentions t)"
  by pat_completeness auto
termination
  by (relation "measure length") auto

definition highlightMentions :: "string \<Rightarrow> string" where
  "highlightMentions text = mark_mentions (esc text)"

section \<open>A comment brings no markup of its own\<close>

text \<open>The shown text as pieces: characters, and mentions.\<close>

datatype piece = Plain char | Mention string

fun piece_html :: "piece \<Rightarrow> string" where
  "piece_html (Plain c) = [c]"
| "piece_html (Mention a) = mention_html a"

fun piece_text :: "piece \<Rightarrow> string" where
  "piece_text (Plain c) = [c]"
| "piece_text (Mention a) = CHR ''@'' # a"

fun mention_of :: "piece \<Rightarrow> string option" where
  "mention_of (Plain c) = None"
| "mention_of (Mention a) = Some a"

lemma address_prefix:
  assumes "address_at t = Some a"
  shows "take (length a) t = a \<and> CHR ''&'' \<notin> set a \<and> CHR ''<'' \<notin> set a \<and> CHR ''>'' \<notin> set a"
proof -
  let ?loc = "takeWhile local_char t" and ?r = "dropWhile local_char t"
  obtain r1 where r: "?r = CHR ''@'' # r1" and d: "map_option (\<lambda>dom. ?loc @ CHR ''@'' # dom) (domain_match (takeWhile domain_char r1)) = Some a"
    using assms by (auto simp: address_at_def Let_def split: if_splits list.splits)
  then obtain dom where dom: "domain_match (takeWhile domain_char r1) = Some dom" "a = ?loc @ CHR ''@'' # dom" by blast
  let ?run = "takeWhile domain_char r1"
  obtain j where j: "dom = take (j + 1) ?run @ takeWhile is_alpha (drop (j + 1) ?run)"
    using dom(1) by (auto simp: domain_match_def split: list.splits)
  have pre: "take (length dom) ?run = dom"
  proof -
    have "take (length (takeWhile is_alpha u)) u = takeWhile is_alpha u" for u :: string
      by (metis append_eq_conv_conj takeWhile_dropWhile_id)
    moreover have "take (length (take n u @ v)) u = take n u @ take (length v) (drop n u)" for n and u v :: string
      by (simp add: take_add min_def)
    ultimately show ?thesis using j by metis
  qed
  have dset: "set dom \<subseteq> {c. domain_char c}"
    using pre set_take_subset [of "length dom" ?run] by (metis Collect_mem_eq set_takeWhileD subset_iff mem_Collect_eq)
  have "take (length dom) r1 = dom"
    using pre by (metis append_eq_conv_conj append_take_drop_id takeWhile_dropWhile_id append_assoc)
  then have "take (length a) t = a"
    using r dom(2) takeWhile_dropWhile_id [of local_char t] by (metis append_eq_conv_conj append_take_drop_id append_Cons append_assoc)
  moreover have "\<not> local_char c \<and> \<not> domain_char c" if "c \<in> {CHR ''&'', CHR ''<'', CHR ''>''}" for c
    using that by (auto simp: local_char_def domain_char_def is_alpha_def is_num_def less_eq_char_def)
  ultimately show ?thesis
    using dset dom(2) by (auto dest: set_takeWhileD)
qed

text \<open>C33: the HTML shown for a comment is its text with the three markup characters escaped, in which mentions alone are
  put in a fixed element: no other piece of it opens or closes markup.\<close>

theorem comment_html_safe:
  "\<exists>ps. highlightMentions text = concat (map piece_html ps) \<and> concat (map piece_text ps) = esc text
    \<and> set (concat (map piece_text ps)) \<inter> {CHR ''<'', CHR ''>''} = {}"
proof -
  have "\<exists>ps. mark_mentions s = concat (map piece_html ps) \<and> concat (map piece_text ps) = s
    \<and> (\<forall>p \<in> set ps. CHR ''<'' \<notin> set (piece_text p) \<and> CHR ''>'' \<notin> set (piece_text p))"
    if "CHR ''<'' \<notin> set s \<and> CHR ''>'' \<notin> set s" for s
    using that
  proof (induction s rule: mark_mentions.induct)
    case (2 c t)
    show ?case
    proof (cases "if c = CHR ''@'' then address_at t else None")
      case None
      with 2 obtain ps where ps: "mark_mentions t = concat (map piece_html ps)" "concat (map piece_text ps) = t"
        "\<forall>p \<in> set ps. CHR ''<'' \<notin> set (piece_text p) \<and> CHR ''>'' \<notin> set (piece_text p)" by auto
      then show ?thesis using None 2(3) by (intro exI [of _ "Plain c # ps"]) auto
    next
      case (Some a)
      then have c: "c = CHR ''@''" and a: "address_at t = Some a" by (auto split: if_splits)
      note p = address_prefix [OF a]
      have "CHR ''<'' \<notin> set (drop (length a) t) \<and> CHR ''>'' \<notin> set (drop (length a) t)"
        using 2(3) by (auto dest: in_set_dropD)
      with 2(2) [OF Some] obtain ps where ps: "mark_mentions (drop (length a) t) = concat (map piece_html ps)"
        "concat (map piece_text ps) = drop (length a) t"
        "\<forall>p \<in> set ps. CHR ''<'' \<notin> set (piece_text p) \<and> CHR ''>'' \<notin> set (piece_text p)" by auto
      have "a @ drop (length a) t = t" using p by (metis append_take_drop_id)
      then show ?thesis using ps Some c p by (intro exI [of _ "Mention a # ps"]) auto
    qed
  qed (auto intro: exI [of _ "[]"])
  moreover have "CHR ''<'' \<notin> set (esc text) \<and> CHR ''>'' \<notin> set (esc text)"
    by (auto simp: esc_def esc_char_def split: if_splits)
  ultimately show ?thesis by (fastforce simp: highlightMentions_def)
qed

section \<open>The mentions shown are those the server finds\<close>

lemma esc_simps: "esc [] = []" "esc (c # t) = esc_char c @ esc t"
  by (simp_all add: esc_def)

definition special :: "char \<Rightarrow> bool" where
  "special c \<longleftrightarrow> c \<in> {CHR ''&'', CHR ''<'', CHR ''>''}"

lemma esc_char_plain: "\<not> special c \<Longrightarrow> esc_char c = [c]"
  by (simp add: esc_char_def special_def)

lemma esc_char_special: "special c \<Longrightarrow> \<exists>u. esc_char c = CHR ''&'' # u"
  by (auto simp: esc_char_def special_def)

lemma not_matched: "special c \<Longrightarrow> \<not> local_char c \<and> \<not> domain_char c \<and> c \<noteq> CHR ''@''" "special (CHR ''&'')"
  by (auto simp: special_def local_char_def domain_char_def is_alpha_def is_num_def less_eq_char_def)

lemma esc_runs:
  assumes "\<And>c. special c \<Longrightarrow> \<not> P c"
  shows "takeWhile P (esc t) = takeWhile P t" "dropWhile P (esc t) = esc (dropWhile P t)"
proof -
  have "takeWhile P (esc t) = takeWhile P t \<and> dropWhile P (esc t) = esc (dropWhile P t)"
  proof (induction t)
    case (Cons c t)
    show ?case
    proof (cases "special c")
      case True
      then obtain u where "esc_char c = CHR ''&'' # u" using esc_char_special by blast
      with True assms not_matched(2) show ?thesis by (simp add: esc_simps)
    next
      case False
      with Cons show ?thesis by (simp add: esc_simps esc_char_plain)
    qed
  qed (simp add: esc_simps)
  then show "takeWhile P (esc t) = takeWhile P t" "dropWhile P (esc t) = esc (dropWhile P t)" by simp_all
qed

lemma address_at_esc: "address_at (esc t) = address_at t"
proof -
  have l: "takeWhile local_char (esc t) = takeWhile local_char t" "dropWhile local_char (esc t) = esc (dropWhile local_char t)"
    and d: "takeWhile domain_char (esc r) = takeWhile domain_char r" for r
    using not_matched(1) by (auto intro: esc_runs)
  show ?thesis
  proof (cases "dropWhile local_char t")
    case Nil
    show ?thesis unfolding address_at_def Let_def l Nil esc_simps ..
  next
    case (Cons c r)
    show ?thesis
    proof (cases "special c")
      case True
      then obtain u where "esc_char c = CHR ''&'' # u" using esc_char_special by blast
      then show ?thesis using Cons not_matched(1) [OF True] by (simp add: address_at_def Let_def l esc_simps)
    next
      case False
      then show ?thesis using Cons by (simp add: address_at_def Let_def l d esc_simps esc_char_plain)
    qed
  qed
qed

lemma drop_esc:
  "(\<forall>c \<in> set (take n t). \<not> special c) \<Longrightarrow> n \<le> length t \<Longrightarrow> drop n (esc t) = esc (drop n t)"
proof (induction n arbitrary: t)
  case (Suc n)
  then show ?case by (cases t) (auto simp: esc_simps esc_char_plain)
qed simp

lemma addresses_skip: "CHR ''@'' \<notin> set u \<Longrightarrow> addresses (u @ v) = addresses v"
  by (induction u) auto

lemma addresses_esc: "addresses (esc t) = addresses t"
proof (induction t rule: addresses.induct)
  case (2 c t)
  show ?case
  proof (cases "if c = CHR ''@'' then address_at t else None")
    case None
    have "addresses (esc (c # t)) = addresses (esc t)"
    proof (cases "special c")
      case True
      then have "CHR ''@'' \<notin> set (esc_char c)" by (auto simp: esc_char_def special_def)
      then show ?thesis by (simp add: esc_simps addresses_skip)
    next
      case False
      then show ?thesis using None by (auto simp: esc_simps esc_char_plain address_at_esc split: if_splits)
    qed
    with None 2(1) show ?thesis by simp
  next
    case (Some a)
    then have c: "c = CHR ''@''" and a: "address_at t = Some a" by (auto split: if_splits)
    have "take (length a) t = a" "\<forall>x \<in> set a. \<not> special x"
      using address_prefix [OF a] by (auto simp: special_def)
    then have "drop (length a) (esc t) = esc (drop (length a) t)"
      by (intro drop_esc) (metis, metis length_take min.cobounded1)
    then show ?thesis
      using c a 2(2) [OF Some] by (simp add: esc_simps esc_char_def address_at_esc)
  qed
qed (simp add: esc_simps)

text \<open>the mentions put in an element are exactly the addresses in the text, in order, by which the server decides whom
  to notify.\<close>

theorem mentions_shown_as_found:
  "\<exists>ps. highlightMentions text = concat (map piece_html ps) \<and> List.map_filter mention_of ps = addresses text"
proof -
  have "\<exists>ps. mark_mentions s = concat (map piece_html ps) \<and> List.map_filter mention_of ps = addresses s" for s
  proof (induction s rule: mark_mentions.induct)
    case (2 c t)
    show ?case
    proof (cases "if c = CHR ''@'' then address_at t else None")
      case None
      with 2(1) obtain ps where "mark_mentions t = concat (map piece_html ps)" "List.map_filter mention_of ps = addresses t" by auto
      then show ?thesis using None by (intro exI [of _ "Plain c # ps"]) (simp add: map_filter_simps)
    next
      case (Some a)
      with 2(2) obtain ps where "mark_mentions (drop (length a) t) = concat (map piece_html ps)"
        "List.map_filter mention_of ps = addresses (drop (length a) t)" by auto
      then show ?thesis using Some by (intro exI [of _ "Mention a # ps"]) (simp add: map_filter_simps)
    qed
  qed (auto intro: exI [of _ "[]"] simp: map_filter_simps)
  from this [of "esc text"] show ?thesis by (simp add: highlightMentions_def addresses_esc)
qed

end
