(* ===== verification/EditorClient.thy ===== *)
theory EditorClient
  imports Render Search
begin

text \<open>
  What the collaborative editor shows of the others (\<open>web/src/components/EditorCollab.tsx\<close>): their cursors, who
  types, the sections claimed, warnings of conflicts, and what it sends of the own cursor. The events are those
  that \<open>SimpleYProvider\<close> dispatches (theory \<open>Provider\<close>) and the transactions of the editor. Positions are the
  editor's, \<open>now\<close> is \<open>Date.now()\<close>.
\<close>

section \<open>State\<close>

record cursor =
  cu_anchor :: int
  cu_head :: int
  cu_typing :: bool
  cu_ts :: int

record sec_claim =
  sc_id :: string
  sc_from :: int
  sc_to :: int
  sc_user :: string

datatype severity = Low | Med | High

text \<open>Severities are compared by their grade.\<close>

fun grade :: "severity \<Rightarrow> nat" where
  "grade Low = 0" | "grade Med = 1" | "grade High = 2"

lemma grade_inj: "grade s = grade t \<longleftrightarrow> s = t"
  by (cases s; cases t) simp_all

instantiation severity :: linorder
begin

definition less_eq_severity :: "severity \<Rightarrow> severity \<Rightarrow> bool" where
  "less_eq_severity s t \<longleftrightarrow> grade s \<le> grade t"

definition less_severity :: "severity \<Rightarrow> severity \<Rightarrow> bool" where
  "less_severity s t \<longleftrightarrow> grade s < grade t"

instance
  by standard (auto simp: less_eq_severity_def less_severity_def grade_inj)

end

datatype hint = ClaimedBy string | BothTyping string | NearTo string

record collab =
  co_presences :: "(string \<times> cursor) list"
  co_typing :: "(string \<times> int) list"
  co_claims :: "(string \<times> sec_claim) list"
  co_conflicts :: "(int \<times> string \<times> severity) list"
  co_hint :: "hint option"
  co_heat :: "int list"
  co_props :: "(string \<times> int) list"
  co_typedAt :: int
  co_last :: "int \<times> int \<times> int"
  co_sent :: "(int \<times> int \<times> int) list"

text \<open>\<open>co_props\<close> are the properties set on the function \<open>bumpHeat\<close>, \<open>co_sent\<close> the presences sent for
  transactions (time, anchor, head), the last one first.\<close>

definition new_collab :: collab where
  "new_collab = \<lparr>co_presences = [], co_typing = [], co_claims = [], co_conflicts = [], co_hint = None,
     co_heat = replicate 20 0, co_props = [], co_typedAt = 0, co_last = (0, 0, 0), co_sent = []\<rparr>"

section \<open>Presence\<close>

text \<open>\<open>Math.round(a / b)\<close> for \<open>0 < b\<close>.\<close>

definition js_round :: "int \<Rightarrow> int \<Rightarrow> int" where
  "js_round a b = (2 * a + b) div (2 * b)"

definition bumpHeat :: "int \<Rightarrow> int list \<Rightarrow> (string \<times> int) list \<Rightarrow> int list \<times> (string \<times> int) list" where
  "bumpHeat now h props =
     (let nowSlot = now div 3000;
          (base, props1) = (if map_of props ''heatSlot'' = None \<or> map_of props ''slot'' \<noteq> Some nowSlot
            then (tl h @ [max 0 (js_round (last (tl h) * 6) 10)], map_put ''slot'' nowSlot props) else (h, props))
      in (butlast base @ [last base + 1], props1))"

record pres_msg =
  pm_userId :: string
  pm_anchor :: int
  pm_head :: int
  pm_typing :: bool
  pm_ts :: int

definition cursor_of :: "int \<Rightarrow> pres_msg \<Rightarrow> cursor" where
  "cursor_of now p = \<lparr>cu_anchor = toInt32 (pm_anchor p), cu_head = toInt32 (pm_head p), cu_typing = pm_typing p,
     cu_ts = (if pm_ts p \<noteq> 0 then pm_ts p else now)\<rparr>"

definition onPresenceMsg :: "int \<Rightarrow> pres_msg \<Rightarrow> collab \<Rightarrow> collab" where
  "onPresenceMsg now p c =
     (if pm_userId p = [] then c
      else let c1 = c\<lparr>co_presences := map_put (pm_userId p) (cursor_of now p) (co_presences c),
                      co_typing := (if pm_typing p then map_put (pm_userId p) now (co_typing c) else map_del (pm_userId p) (co_typing c))\<rparr>;
               (heat, props) = bumpHeat now (co_heat c1) (co_props c1)
           in if pm_typing p then c1\<lparr>co_heat := heat, co_props := props\<rparr> else c1)"

definition onPresenceMsgs :: "int \<Rightarrow> pres_msg list \<Rightarrow> collab \<Rightarrow> collab" where
  "onPresenceMsgs now ps c = c\<lparr>co_presences :=
     fold (\<lambda>p m. if pm_userId p \<noteq> [] then map_put (pm_userId p) (cursor_of now p) m else m) ps (co_presences c)\<rparr>"

text \<open>Every two seconds.\<close>

definition clean :: "int \<Rightarrow> collab \<Rightarrow> collab" where
  "clean now c = c\<lparr>co_typing := filter (\<lambda>(k, v). now - v < 2000) (co_typing c),
     co_presences := filter (\<lambda>(k, v). now - cu_ts v < 60000) (co_presences c)\<rparr>"

section \<open>Claims\<close>

definition onClaimed :: "sec_claim \<Rightarrow> collab \<Rightarrow> collab" where
  "onClaimed k c = (if sc_id k = [] then c else c\<lparr>co_claims := map_put (sc_id k) k (co_claims c)\<rparr>)"

definition onReleased :: "string \<Rightarrow> collab \<Rightarrow> collab" where
  "onReleased i c = (if i = [] then c else c\<lparr>co_claims := map_del i (co_claims c)\<rparr>)"

definition onClaimList :: "sec_claim list \<Rightarrow> collab \<Rightarrow> collab" where
  "onClaimList ks c = c\<lparr>co_claims := fold (\<lambda>k. map_put (sc_id k) k) ks []\<rparr>"

section \<open>Conflicts\<close>

text \<open>The nearest of the others, the first of several: user, distance, whether typing.\<close>

definition nearest :: "int \<Rightarrow> (string \<times> cursor) list \<Rightarrow> (string \<times> int \<times> bool) option" where
  "nearest head ps = fold (\<lambda>(uid, p) best.
       let dist = \<bar>toInt32 (cu_head p) - head\<bar>
       in case best of
            None \<Rightarrow> Some (uid, dist, cu_typing p)
          | Some (_, d, _) \<Rightarrow> if dist < d then Some (uid, dist, cu_typing p) else best) ps None"

definition holds_pos :: "int \<Rightarrow> sec_claim \<Rightarrow> bool" where
  "holds_pos head k \<longleftrightarrow> sc_from k \<le> head \<and> head \<le> sc_to k"

definition conflict_of :: "int \<Rightarrow> int \<Rightarrow> collab \<Rightarrow> (hint \<times> severity \<times> string) option" where
  "conflict_of now head0 c =
     (let head = toInt32 head0
      in case nearest head (co_presences c) of
           None \<Rightarrow> None
         | Some (uid, dist, typing) \<Rightarrow>
             let bothTyping = (now - co_typedAt c < 1500 \<and> typing);
                 claims = map snd (co_claims c);
                 inClaim = (\<exists>k \<in> set claims. holds_pos head k \<and> uid \<noteq> sc_user k)
             in if \<not> (dist < 20 \<or> inClaim) then None
                else Some (if inClaim then ClaimedBy (case find (holds_pos head) claims of Some k \<Rightarrow> sc_user k | None \<Rightarrow> [])
                           else if bothTyping then BothTyping uid else NearTo uid,
                       if inClaim then High else if dist < 5 then if bothTyping then High else Med else Low, uid))"

definition detectConflict :: "int \<Rightarrow> int \<Rightarrow> collab \<Rightarrow> collab" where
  "detectConflict now head c = (case conflict_of now head c of
     None \<Rightarrow> c\<lparr>co_hint := None\<rparr>
   | Some (h, sev, uid) \<Rightarrow> c\<lparr>co_hint := Some h,
       co_conflicts := (if sev \<noteq> Low then take 10 ((now, uid, sev) # co_conflicts c) else co_conflicts c)\<rparr>)"

section \<open>The own cursor\<close>

definition onTransaction :: "int \<Rightarrow> int \<Rightarrow> int \<Rightarrow> collab \<Rightarrow> collab" where
  "onTransaction now anchor head c =
     (let a = toInt32 anchor; h = toInt32 head; (la, lh, lt) = co_last c;
          moved = (\<bar>a - la\<bar> + \<bar>h - lh\<bar> \<ge> 3); timeOk = (now - lt \<ge> 150)
      in if moved \<or> timeOk then c\<lparr>co_sent := (now, a, h) # co_sent c, co_last := (a, h, now)\<rparr> else c)"

definition onKeyTyped :: "int \<Rightarrow> collab \<Rightarrow> collab" where
  "onKeyTyped now c = c\<lparr>co_typedAt := now\<rparr>"

section \<open>Events\<close>

datatype collab_event =
    EvPresence pres_msg
  | EvPresenceList "pres_msg list"
  | EvClaimed sec_claim
  | EvReleased string
  | EvClaimList "sec_claim list"
  | EvClean
  | EvDetect int
  | EvTransaction int int
  | EvKey

fun collab_step :: "int \<times> collab_event \<Rightarrow> collab \<Rightarrow> collab" where
  "collab_step (now, EvPresence p) c = onPresenceMsg now p c"
| "collab_step (now, EvPresenceList ps) c = onPresenceMsgs now ps c"
| "collab_step (now, EvClaimed k) c = onClaimed k c"
| "collab_step (now, EvReleased i) c = onReleased i c"
| "collab_step (now, EvClaimList ks) c = onClaimList ks c"
| "collab_step (now, EvClean) c = clean now c"
| "collab_step (now, EvDetect head) c = detectConflict now head c"
| "collab_step (now, EvTransaction a h) c = onTransaction now a h c"
| "collab_step (now, EvKey) c = onKeyTyped now c"

section \<open>The state stays sound\<close>

definition collab_ok :: "collab \<Rightarrow> bool" where
  "collab_ok c \<longleftrightarrow> length (co_heat c) = 20 \<and> (\<forall>n \<in> set (co_heat c). 0 \<le> n) \<and> length (co_conflicts c) \<le> 10
     \<and> distinct (map fst (co_presences c)) \<and> distinct (map fst (co_typing c)) \<and> distinct (map fst (co_claims c))
     \<and> map_of (co_props c) ''heatSlot'' = None"

lemma bumpHeat_rotates:
  assumes "map_of props ''heatSlot'' = None"
  shows "bumpHeat now h props =
    (tl h @ [max 0 (js_round (last (tl h) * 6) 10) + 1], map_put ''slot'' (now div 3000) props)"
  using assms by (simp add: bumpHeat_def Let_def)

lemma distinct_fold_put:
  "distinct (map fst m) \<Longrightarrow> distinct (map fst (fold (\<lambda>p m. if P p then map_put (k p) (v p) m else m) ps m))"
  by (induction ps arbitrary: m) (simp_all add: distinct_put)

lemma distinct_map_fst_filter: "distinct (map fst m) \<Longrightarrow> distinct (map fst (filter P m))"
  by (rule distinct_map_filter)

lemma collab_step_ok: "collab_ok c \<Longrightarrow> collab_ok (collab_step (now, e) c)"
proof (induction e)
  case (EvPresence p)
  then have b: "bumpHeat now (co_heat c) (co_props c) =
      (tl (co_heat c) @ [max 0 (js_round (last (tl (co_heat c)) * 6) 10) + 1], map_put ''slot'' (now div 3000) (co_props c))"
    by (intro bumpHeat_rotates) (simp add: collab_ok_def)
  have "0 \<le> n" if "n \<in> set (tl (co_heat c))" for n
    using that EvPresence by (cases "co_heat c") (auto simp: collab_ok_def)
  with EvPresence b show ?case
    by (auto simp: onPresenceMsg_def Let_def collab_ok_def distinct_put distinct_del)
next
  case (EvPresenceList ps)
  then show ?case
    using distinct_fold_put [of "co_presences c" "\<lambda>p. pm_userId p \<noteq> []" pm_userId "cursor_of now" ps]
    by (simp add: onPresenceMsgs_def collab_ok_def)
next
  case (EvClaimList ks)
  then show ?case
    using distinct_fold_put [of "[]" "\<lambda>_. True" sc_id id ks] by (simp add: onClaimList_def collab_ok_def)
next
  case (EvClaimed k)
  then show ?case by (simp add: onClaimed_def collab_ok_def distinct_put)
next
  case (EvReleased i)
  then show ?case by (simp add: onReleased_def collab_ok_def distinct_del)
next
  case EvClean
  then show ?case by (simp add: clean_def collab_ok_def distinct_map_fst_filter)
next
  case (EvDetect head)
  then show ?case by (auto simp: detectConflict_def collab_ok_def split: option.split)
next
  case (EvTransaction a h)
  then show ?case by (simp add: onTransaction_def Let_def case_prod_beta collab_ok_def)
next
  case EvKey
  then show ?case by (simp add: onKeyTyped_def collab_ok_def)
qed

text \<open>whatever events come, the heat map keeps its 20 slots, none negative, the history of conflicts at most 10
  entries, and every user, and every claim, is shown once.\<close>

theorem collab_stays_ok: "collab_ok (fold collab_step evs new_collab)"
proof -
  have "collab_ok c \<Longrightarrow> collab_ok (fold collab_step evs c)" for c
  proof (induction evs arbitrary: c)
    case (Cons e evs)
    then show ?case using collab_step_ok by (cases e) simp
  qed simp
  moreover have "collab_ok new_collab" by (simp add: collab_ok_def new_collab_def)
  ultimately show ?thesis by blast
qed

section \<open>The claims shown\<close>

text \<open>What the claims of a document are to the server: a map from identifiers, changed by the three messages.\<close>

fun claims_after :: "collab_event \<Rightarrow> (string \<rightharpoonup> sec_claim) \<Rightarrow> (string \<rightharpoonup> sec_claim)" where
  "claims_after (EvClaimed k) m = (if sc_id k = [] then m else m(sc_id k \<mapsto> k))"
| "claims_after (EvReleased i) m = (if i = [] then m else m(i := None))"
| "claims_after (EvClaimList ks) m = map_of (rev (map (\<lambda>k. (sc_id k, k)) ks))"
| "claims_after e m = m"

definition shown_claims :: "collab \<Rightarrow> (string \<rightharpoonup> sec_claim)" where
  "shown_claims c = map_of (co_claims c)"

lemma map_of_fold_put: "map_of (fold (\<lambda>k. map_put (sc_id k) k) ks m) = map_of m ++ map_of (rev (map (\<lambda>k. (sc_id k, k)) ks))"
  by (induction ks arbitrary: m) (auto simp: map_add_def fun_eq_iff split: option.split)

text \<open>the claims the editor shows are what the messages about claims make of a map, whatever other events come in
  between.\<close>

theorem claims_refine_map:
  "shown_claims (fold collab_step evs c) = fold (\<lambda>(now, e). claims_after e) evs (shown_claims c)"
proof (induction evs arbitrary: c)
  case (Cons ev evs)
  obtain now e where ev: "ev = (now, e)" by (cases ev)
  have "shown_claims (collab_step (now, e) c) = claims_after e (shown_claims c)"
    by (cases e) (auto simp: shown_claims_def onClaimed_def onReleased_def onClaimList_def map_of_fold_put onPresenceMsg_def
        Let_def case_prod_beta onPresenceMsgs_def clean_def detectConflict_def onTransaction_def onKeyTyped_def split: option.split)
  with Cons ev show ?case by simp
qed simp

section \<open>Who is near\<close>

lemma nearest_fold:
  "case fold (\<lambda>(uid, p) best.
       let dist = \<bar>toInt32 (cu_head p) - head\<bar>
       in case best of
            None \<Rightarrow> Some (uid, dist, cu_typing p)
          | Some (_, d, _) \<Rightarrow> if dist < d then Some (uid, dist, cu_typing p) else best) ps best of
     None \<Rightarrow> best = None \<and> ps = []
   | Some (u, d, t) \<Rightarrow> (best = Some (u, d, t) \<or> (\<exists>p. (u, p) \<in> set ps \<and> d = \<bar>toInt32 (cu_head p) - head\<bar> \<and> t = cu_typing p))
       \<and> (\<forall>(v, p) \<in> set ps. d \<le> \<bar>toInt32 (cu_head p) - head\<bar>) \<and> (\<forall>b. best = Some b \<longrightarrow> d \<le> fst (snd b))"
proof (induction ps arbitrary: best)
  case (Cons x ps)
  obtain uid p where x: "x = (uid, p)" by (cases x)
  show ?case
    using Cons.IH [of "(case best of None \<Rightarrow> Some (uid, \<bar>toInt32 (cu_head p) - head\<bar>, cu_typing p)
      | Some (_, d, _) \<Rightarrow> if \<bar>toInt32 (cu_head p) - head\<bar> < d then Some (uid, \<bar>toInt32 (cu_head p) - head\<bar>, cu_typing p) else best)"]
    by (auto simp: x Let_def split: option.splits prod.splits if_splits)
qed (auto split: option.split)

lemma nearest_is_nearest:
  assumes "nearest head ps = Some (u, d, t)"
  shows "(\<exists>p. (u, p) \<in> set ps \<and> d = \<bar>toInt32 (cu_head p) - head\<bar> \<and> t = cu_typing p)
    \<and> (\<forall>(v, p) \<in> set ps. d \<le> \<bar>toInt32 (cu_head p) - head\<bar>)"
  using nearest_fold [where head = head and ps = ps and best = None] assms by (simp add: nearest_def)

lemma nearest_none: "nearest head ps = None \<longleftrightarrow> ps = []"
proof
  assume "nearest head ps = None"
  then show "ps = []" using nearest_fold [where head = head and ps = ps and best = None] by (simp add: nearest_def)
qed (simp add: nearest_def)

lemma conflict_unclaimed:
  assumes "\<forall>k \<in> snd ` set (co_claims c). \<not> holds_pos (toInt32 head) k"
    and "nearest (toInt32 head) (co_presences c) = Some (u, d, t)"
  shows "conflict_of now head c = (if \<not> d < 20 then None else Some (if now - co_typedAt c < 1500 \<and> t then BothTyping u else NearTo u,
      if d < 5 then if now - co_typedAt c < 1500 \<and> t then High else Med else Low, u))"
proof -
  have noclaim: "(\<exists>k \<in> set (co_claims c). holds_pos (toInt32 head) (snd k) \<and> u \<noteq> sc_user (snd k)) = False"
    using assms(1) by auto
  show ?thesis by (simp add: conflict_of_def Let_def assms(2) noclaim)
qed

text \<open>where no claim is around, a conflict is warned of exactly when somebody else's cursor is less than 20 positions
  away, and it is called high only if both type and the nearest cursor is less than 5 away.\<close>

theorem conflict_iff_near:
  assumes "\<forall>k \<in> snd ` set (co_claims c). \<not> holds_pos (toInt32 head) k"
  shows "(conflict_of now head c \<noteq> None \<longleftrightarrow> (\<exists>(u, p) \<in> set (co_presences c). \<bar>toInt32 (cu_head p) - toInt32 head\<bar> < 20))
    \<and> (\<forall>h u. conflict_of now head c = Some (h, High, u) \<longrightarrow>
         (\<exists>p. (u, p) \<in> set (co_presences c) \<and> cu_typing p \<and> \<bar>toInt32 (cu_head p) - toInt32 head\<bar> < 5) \<and> now - co_typedAt c < 1500)"
proof (cases "nearest (toInt32 head) (co_presences c)")
  case None
  then have "co_presences c = []" by (simp add: nearest_none)
  with None show ?thesis by (simp add: conflict_of_def)
next
  case (Some x)
  obtain u d t where x: "x = (u, d, t)" by (cases x)
  note n = nearest_is_nearest [OF Some [unfolded x]]
  note e = conflict_unclaimed [OF assms Some [unfolded x], of now]
  have "d < 20 \<longleftrightarrow> (\<exists>(u, p) \<in> set (co_presences c). \<bar>toInt32 (cu_head p) - toInt32 head\<bar> < 20)"
    using n by fastforce
  then show ?thesis using e n by (auto split: if_splits)
qed

definition two_editors :: collab where
  "two_editors = new_collab\<lparr>co_presences := [(''u2'', \<lparr>cu_anchor = 7, cu_head = 7, cu_typing = True, cu_ts = 0\<rparr>)], co_typedAt := 100\<rparr>"

lemma conflict_iff_near_witness: "conflict_of 200 9 two_editors \<noteq> None"
  using conflict_iff_near [of two_editors 9 200] by (simp add: two_editors_def new_collab_def)

text \<open>where no claim is around, who is nearer is a graver conflict, if the same are typing.\<close>

theorem nearer_is_graver:
  assumes "\<forall>k \<in> snd ` set (co_claims c). \<not> holds_pos (toInt32 head) k"
    and "\<forall>k \<in> snd ` set (co_claims c'). \<not> holds_pos (toInt32 head) k"
    and "nearest (toInt32 head) (co_presences c) = Some (u, d, t)" and "nearest (toInt32 head) (co_presences c') = Some (u', d', t)"
    and "co_typedAt c = co_typedAt c'" and "d \<le> d'"
    and "conflict_of now head c = Some (h, s, v)" and "conflict_of now head c' = Some (h', s', v')"
  shows "s' \<le> s"
  using assms(5-8) conflict_unclaimed [OF assms(1,3), of now] conflict_unclaimed [OF assms(2,4), of now]
  by (auto simp: less_eq_severity_def split: if_splits)

definition far_editors :: collab where
  "far_editors = two_editors\<lparr>co_presences := [(''u3'', \<lparr>cu_anchor = 20, cu_head = 20, cu_typing = True, cu_ts = 0\<rparr>)]\<rparr>"

lemma nearer_is_graver_witness:
  "conflict_of 200 9 two_editors = Some (BothTyping ''u2'', High, ''u2'')
   \<and> conflict_of 200 9 far_editors = Some (BothTyping ''u3'', Low, ''u3'') \<and> Low \<le> High"
proof -
  have c: "conflict_of 200 9 two_editors = Some (BothTyping ''u2'', High, ''u2'')"
    "conflict_of 200 9 far_editors = Some (BothTyping ''u3'', Low, ''u3'')"
    "nearest (toInt32 9) (co_presences two_editors) = Some (''u2'', 2, True)"
    "nearest (toInt32 9) (co_presences far_editors) = Some (''u3'', 11, True)"
    by code_simp+
  moreover have "Low \<le> High"
    by (rule nearer_is_graver [OF _ _ c(3,4) _ _ c(1,2)]) (simp_all add: two_editors_def far_editors_def new_collab_def)
  ultimately show ?thesis by blast
qed

section \<open>Pace and age\<close>

definition far_or_late :: "int \<times> int \<times> int \<Rightarrow> int \<times> int \<times> int \<Rightarrow> bool" where
  "far_or_late y x \<longleftrightarrow> (case (y, x) of ((t2, a2, h2), (t1, a1, h1)) \<Rightarrow> \<bar>a2 - a1\<bar> + \<bar>h2 - h1\<bar> \<ge> 3 \<or> t2 - t1 \<ge> 150)"

definition paced :: "collab \<Rightarrow> bool" where
  "paced c \<longleftrightarrow> successively far_or_late (co_sent c) \<and> (\<forall>t a h r. co_sent c = (t, a, h) # r \<longrightarrow> co_last c = (a, h, t))"

lemma transaction_paced: "paced c \<Longrightarrow> paced (onTransaction now a h c)"
proof -
  assume p: "paced c"
  obtain la lh lt where l: "co_last c = (la, lh, lt)" by (cases "co_last c")
  show ?thesis
  proof (cases "\<bar>toInt32 a - la\<bar> + \<bar>toInt32 h - lh\<bar> \<ge> 3 \<or> now - lt \<ge> 150")
    case True
    have "successively far_or_late ((now, toInt32 a, toInt32 h) # co_sent c)"
    proof (cases "co_sent c")
      case (Cons y r)
      then obtain t a1 h1 where y: "y = (t, a1, h1)" by (cases y)
      with Cons p l have "a1 = la" "h1 = lh" "t = lt" by (simp_all add: paced_def)
      with True Cons y p show ?thesis by (simp add: paced_def far_or_late_def)
    qed simp
    with True l show ?thesis by (simp add: paced_def onTransaction_def Let_def)
  next
    case False
    with p l show ?thesis by (simp add: onTransaction_def Let_def)
  qed
qed

lemma step_paced: "paced c \<Longrightarrow> paced (collab_step e c)"
proof -
  assume p: "paced c"
  obtain now ev where e: "e = (now, ev)" by (cases e)
  show ?thesis
  proof (cases "\<exists>a h. ev = EvTransaction a h")
    case True
    then show ?thesis using transaction_paced [OF p] by (auto simp: e)
  next
    case False
    then have "co_sent (collab_step e c) = co_sent c \<and> co_last (collab_step e c) = co_last c"
      unfolding e by (cases ev) (auto simp: onClaimed_def onReleased_def onClaimList_def onPresenceMsg_def Let_def
          case_prod_beta onPresenceMsgs_def clean_def detectConflict_def onKeyTyped_def split: option.split)
    with p show ?thesis by (simp add: paced_def)
  qed
qed

text \<open>of two positions sent one after the other for transactions of the editor, the second is at least 3 positions away
  from the first or at least 150 ms later.\<close>

theorem cursor_sends_paced: "successively far_or_late (co_sent (fold collab_step evs new_collab))"
proof -
  have "paced c \<Longrightarrow> paced (fold collab_step evs c)" for c
    by (induction evs arbitrary: c) (simp_all add: step_paced)
  moreover have "paced new_collab" by (simp add: paced_def new_collab_def)
  ultimately show ?thesis by (simp add: paced_def)
qed

text \<open>right after a cleaning, a cursor is shown exactly if it was before and was heard of in the last minute, and
  somebody is shown as typing only if heard of in the last two seconds.\<close>

theorem clean_keeps_recent:
  "set (co_presences (clean now c)) = {(u, p) \<in> set (co_presences c). now - cu_ts p < 60000}
   \<and> set (co_typing (clean now c)) = {(u, t) \<in> set (co_typing c). now - t < 2000} \<and> co_claims (clean now c) = co_claims c"
  by (auto simp: clean_def)

section \<open>Divergences\<close>

text \<open>The test for a new slot of three seconds looks for a property that is never set, so the heat map moves on with
  every message of typing.\<close>

lemma heat_moves_every_time:
  "co_heat (collab_step (now, EvPresence p) (fold collab_step evs new_collab)) =
   (let h = co_heat (fold collab_step evs new_collab)
    in if pm_userId p \<noteq> [] \<and> pm_typing p then tl h @ [max 0 (js_round (last (tl h) * 6) 10) + 1] else h)"
  using collab_stays_ok [of evs] bumpHeat_rotates [of "co_props (fold collab_step evs new_collab)"]
  by (simp add: collab_ok_def onPresenceMsg_def Let_def)

text \<open>The own claim warns of itself, whoever else is there.\<close>

lemma own_claim_warns:
  assumes "co_presences c = [(u, p)]" and "co_claims c = [(i, k)]" and "holds_pos (toInt32 head) k" and "sc_user k \<noteq> u"
  shows "\<exists>s v. conflict_of now head c = Some (ClaimedBy (sc_user k), s, v)"
  using assms by (simp add: conflict_of_def nearest_def Let_def)

section \<open>Labels, colours, ages\<close>

definition colorHue :: "string \<Rightarrow> int" where
  "colorHue uid = \<bar>foldl (\<lambda>h c. toInt32 (h * 31 + int (of_char c))) 0 uid\<bar> mod 360"

definition colorForUser :: "string \<Rightarrow> string" where
  "colorForUser uid = ''hsl('' @ show_int (colorHue uid) @ '', 85%, 55%)''"

text \<open>the hue of a user is a whole number of degrees from 0 to 359, the same wherever the user is shown.\<close>

theorem hue_range: "0 \<le> colorHue uid \<and> colorHue uid < 360 \<and> (\<exists>n < 360. colorForUser uid = ''hsl('' @ show_nat n @ '', 85%, 55%)'')"
proof -
  have r: "0 \<le> colorHue uid" "colorHue uid < 360" by (simp_all add: colorHue_def)
  then have "colorForUser uid = ''hsl('' @ show_nat (nat (colorHue uid)) @ '', 85%, 55%)''"
    by (simp add: colorForUser_def show_int_def)
  moreover have "nat (colorHue uid) < 360" using r by simp
  ultimately show ?thesis using r by blast
qed

text \<open>\<open>Math.round\<close> of seconds, minutes, hours; no time gives no text.\<close>

definition timeAgo :: "int \<Rightarrow> int \<Rightarrow> string" where
  "timeAgo now ts =
     (if ts = 0 then []
      else let s = max 1 (js_round (now - ts) 1000)
           in if s < 60 then show_int s @ ''s ago''
              else let m = js_round s 60
                   in if m < 60 then show_int m @ ''m ago'' else show_int (js_round m 60) @ ''h ago'')"

section \<open>Who contributes\<close>

definition contrib_tick :: "int \<Rightarrow> (string \<times> int) list \<Rightarrow> (string \<times> int) list \<Rightarrow> (string \<times> int) list" where
  "contrib_tick now typing counts = map (\<lambda>(u, n). (u, max 0 (js_round (n * 98) 100)))
     (fold (\<lambda>(u, t) m. if now - t < 1500 then map_put u ((case map_of m u of Some n \<Rightarrow> n | None \<Rightarrow> 0) + 1) m else m) typing counts)"

definition top_contributors :: "(string \<times> cursor) list \<Rightarrow> (string \<times> int) list \<Rightarrow> (string \<times> int) list" where
  "top_contributors presences counts =
     take 5 (sort_key (\<lambda>r. - snd r) (filter (\<lambda>(u, n). n > 0 \<and> map_of presences u \<noteq> None) counts))"

text \<open>Scores up to 25 do not decay: 98 percent of them are rounded up again.\<close>

lemma small_scores_stay: "0 \<le> n \<Longrightarrow> n \<le> 25 \<Longrightarrow> max 0 (js_round (n * 98) 100) = n"
  by (simp add: js_round_def)

lemma contributions_never_fade:
  "\<forall>(u, n) \<in> set counts. 0 \<le> n \<and> n \<le> 25 \<Longrightarrow> contrib_tick now [] counts = counts"
  by (auto simp: contrib_tick_def small_scores_stay intro!: map_idI)

section \<open>The editor\<close>

definition editable :: "bool \<Rightarrow> bool \<Rightarrow> bool" where
  "editable readOnly offline \<longleftrightarrow> \<not> (readOnly \<or> offline)"

definition clamp_pos :: "int \<Rightarrow> int \<Rightarrow> int" where
  "clamp_pos docSize n = max 1 (min n docSize)"

definition jumpToUser :: "int \<Rightarrow> string \<Rightarrow> collab \<Rightarrow> int option" where
  "jumpToUser docSize uid c = map_option (\<lambda>p. clamp_pos docSize (toInt32 (cu_head p))) (map_of (co_presences c) uid)"

type_synonym anchors = "(string \<times> int \<times> int) list"

definition initial_anchors :: "(string \<times> (int \<times> int) option) list \<Rightarrow> anchors" where
  "initial_anchors threads = fold (\<lambda>(i, a) m. case a of Some r \<Rightarrow> map_put i r m | None \<Rightarrow> m) threads []"

text \<open>\<open>mapping n side\<close> is where a transaction moves position \<open>n\<close>.\<close>

definition map_anchors :: "(int \<Rightarrow> int \<Rightarrow> int) \<Rightarrow> anchors \<Rightarrow> anchors" where
  "map_anchors mapping as = map (\<lambda>(i, a, b). (i, mapping a (- 1), mapping b 1)) as"

definition jumpToThread :: "int \<Rightarrow> string \<Rightarrow> (int \<times> int) option \<Rightarrow> anchors \<Rightarrow> int option" where
  "jumpToThread docSize i own as = (case map_of as i of
     Some (a, b) \<Rightarrow> Some (clamp_pos docSize a)
   | None \<Rightarrow> map_option (\<lambda>(a, b). clamp_pos docSize a) own)"

text \<open>A mapping keeps positions in order and maps to the right of itself when asked to; insertions do.\<close>

definition mapping_laws :: "(int \<Rightarrow> int \<Rightarrow> int) \<Rightarrow> bool" where
  "mapping_laws mapping \<longleftrightarrow> (\<forall>n m s. n \<le> m \<longrightarrow> mapping n s \<le> mapping m s) \<and> (\<forall>n. mapping n (- 1) \<le> mapping n 1)"

text \<open>the range of a comment stays a range through any number of transactions: its start never passes its end.\<close>

theorem anchors_stay_ranges:
  assumes "\<forall>f \<in> set fs. mapping_laws f" and "\<forall>(i, a, b) \<in> set as. a \<le> b"
  shows "\<forall>(i, a, b) \<in> set (fold map_anchors fs as). a \<le> b"
  using assms
proof (induction fs arbitrary: as)
  case (Cons f fs)
  have "f a (- 1) \<le> f b 1" if "a \<le> b" for a b
    using Cons.prems(1) that by (auto simp: mapping_laws_def intro: order_trans)
  then have "\<forall>(i, a, b) \<in> set (map_anchors f as). a \<le> b"
    using Cons.prems(2) by (fastforce simp: map_anchors_def)
  with Cons show ?case by simp
qed simp

text \<open>An insertion of \<open>k\<close> positions at \<open>p\<close>.\<close>

definition insert_mapping :: "int \<Rightarrow> int \<Rightarrow> int \<Rightarrow> int \<Rightarrow> int" where
  "insert_mapping p k n s = (if n < p \<or> n = p \<and> s < 0 then n else n + k)"

lemma anchors_stay_ranges_witness:
  "\<forall>(i, a, b) \<in> set (fold map_anchors [insert_mapping 3 4, insert_mapping 1 2] [(''c'', 3, 3)]). a \<le> b"
  by (rule anchors_stay_ranges) (auto simp: mapping_laws_def insert_mapping_def)

end
