(* ===== verification/WebShell.thy ===== *)
theory WebShell
  imports EditorClient
begin

text \<open>
  The rest of the browser's side: requests to the API (\<open>web/src/lib/api.ts\<close>), the monitor of the connection
  (\<open>web/src/lib/connection.ts\<close>), the session (\<open>web/src/app/api/auth\<close>), messages (\<open>web/src/i18n.ts\<close>), and the
  sidebar of comments (\<open>web/src/components/CommentsSidebar.tsx\<close>).
\<close>

section \<open>Requests\<close>

record http_request =
  hr_url :: string
  hr_method :: string
  hr_headers :: "(string \<times> string) list"
  hr_body :: "json option"

record http_response =
  hs_status :: int
  hs_statusText :: string
  hs_text :: string
  hs_json :: json

definition bearer :: "string option \<Rightarrow> (string \<times> string) list" where
  "bearer token = (case token of Some t \<Rightarrow> if t \<noteq> [] then [(''Authorization'', ''Bearer '' @ t)] else [] | None \<Rightarrow> [])"

definition apiGet :: "string \<Rightarrow> string option \<Rightarrow> string \<Rightarrow> http_request" where
  "apiGet base token path = \<lparr>hr_url = base @ path, hr_method = ''GET'', hr_headers = bearer token, hr_body = None\<rparr>"

definition sending :: "string \<Rightarrow> string \<Rightarrow> string option \<Rightarrow> string \<Rightarrow> json option \<Rightarrow> http_request" where
  "sending verb base token path body = \<lparr>hr_url = base @ path, hr_method = verb,
     hr_headers = (''Content-Type'', ''application/json'') # bearer token, hr_body = (if truthy body then body else None)\<rparr>"

definition apiPost :: "string \<Rightarrow> string option \<Rightarrow> string \<Rightarrow> json option \<Rightarrow> http_request" where
  "apiPost = sending ''POST''"

definition apiPatch :: "string \<Rightarrow> string option \<Rightarrow> string \<Rightarrow> json option \<Rightarrow> http_request" where
  "apiPatch = sending ''PATCH''"

definition apiDelete :: "string \<Rightarrow> string option \<Rightarrow> string \<Rightarrow> http_request" where
  "apiDelete base token path = \<lparr>hr_url = base @ path, hr_method = ''DELETE'', hr_headers = bearer token, hr_body = None\<rparr>"

text \<open>The answer, or the text of the exception.\<close>

definition api_answer :: "http_response \<Rightarrow> string + json" where
  "api_answer r = (if 200 \<le> hs_status r \<and> hs_status r < 300 then Inr (hs_json r)
     else Inl (''API '' @ show_int (hs_status r) @ '': '' @ or_text (hs_text r) (hs_statusText r)))"

section \<open>The connection\<close>

datatype health = Ok | Degraded | Down

text \<open>No answer at all is \<open>None\<close>.\<close>

definition check_health :: "http_response option \<Rightarrow> health" where
  "check_health r = (case r of
     None \<Rightarrow> Down
   | Some a \<Rightarrow> if 200 \<le> hs_status a \<and> hs_status a < 300
               then if jfield ''status'' (hs_json a) = Some (JStr ''ready'') then Ok else Degraded
               else Down)"

section \<open>The session\<close>

record web_user =
  wu_id :: string
  wu_email :: string
  wu_name :: string
  wu_accessToken :: string

definition authorize_request :: "string \<Rightarrow> string \<Rightarrow> string \<Rightarrow> string \<Rightarrow> http_request" where
  "authorize_request base email password rememberMe = \<lparr>hr_url = base @ ''/api/auth/login'', hr_method = ''POST'',
     hr_headers = [(''Content-Type'', ''application/json'')],
     hr_body = Some (JObj [(''email'', JStr email), (''password'', JStr password), (''rememberMe'', JBool (rememberMe = ''true''))])\<rparr>"

text \<open>An answer without a user throws.\<close>

definition authorize_answer :: "http_response \<Rightarrow> string + web_user option" where
  "authorize_answer r = (if 200 \<le> hs_status r \<and> hs_status r < 300
     then (case jfield ''user'' (hs_json r) of
         None \<Rightarrow> Inl ''TypeError''
       | Some JNull \<Rightarrow> Inl ''TypeError''
       | Some u \<Rightarrow> Inr (Some \<lparr>wu_id = jstr ''id'' u, wu_email = jstr ''email'' u,
                wu_name = jstr ''name'' u, wu_accessToken = jstr ''accessToken'' (hs_json r)\<rparr>))
     else Inr None)"

text \<open>The callback on the token: of a user just signed in, and, for other providers, the answer of the API's exchange.\<close>

definition jwt_callback :: "string option \<Rightarrow> web_user option \<Rightarrow> string option \<Rightarrow> bool \<Rightarrow> http_response option \<Rightarrow> string option" where
  "jwt_callback token user provider profile exchanged =
     (let t1 = (case user of Some u \<Rightarrow> Some (wu_accessToken u) | None \<Rightarrow> token)
      in if (case provider of Some p \<Rightarrow> p \<noteq> ''credentials'' | None \<Rightarrow> False) \<and> profile
         then (case exchanged of
             Some r \<Rightarrow> if 200 \<le> hs_status r \<and> hs_status r < 300 then (case jfield ''accessToken'' (hs_json r) of Some (JStr s) \<Rightarrow> Some s | _ \<Rightarrow> None) else t1
           | None \<Rightarrow> t1)
         else t1)"

section \<open>Messages\<close>

definition en :: "(string \<times> string) list" where
  "en = [(''comments'', ''Comments''), (''search'', ''Search''), (''open'', ''Open''), (''resolved'', ''Resolved''),
     (''all'', ''All''), (''loading'', ''Loading'' @ ellipsis), (''close'', ''Close''), (''jumpToPosition'', ''Jump to position''),
     (''resolve'', ''Resolve''), (''delete'', ''Delete''), (''share'', ''Share''), (''reply'', ''Reply''),
     (''typing'', ''typing'' @ ellipsis), (''newCommentForSelection'', ''New comment for current selection''),
     (''typeAComment'', ''Type a comment'' @ ellipsis @ '' Use @email to mention.''), (''post'', ''Post''), (''clear'', ''Clear''),
     (''highContrast'', ''High contrast''), (''status'', ''Status''), (''bold'', ''Bold''), (''italic'', ''Italic''),
     (''underline'', ''Underline''), (''heading1'', ''Heading 1''), (''heading2'', ''Heading 2''), (''bulletList'', ''Bullet list''),
     (''orderedList'', ''Ordered list''), (''codeBlock'', ''Code block''), (''blockquote'', ''Blockquote''), (''undo'', ''Undo''),
     (''redo'', ''Redo''), (''link'', ''Link''), (''syncing'', ''Syncing'' @ ellipsis), (''offline'', ''Offline''),
     (''allSaved'', ''All changes saved''), (''reconnect'', ''Reconnecting in''), (''seconds'', ''seconds''),
     (''toolbar'', ''Editor toolbar''), (''editorLabel'', ''Rich text editor'')]"

definition msg :: "string \<Rightarrow> string" where
  "msg key = (case map_of en key of Some m \<Rightarrow> or_text m key | None \<Rightarrow> key)"

definition isRtlLocale :: "string \<Rightarrow> bool" where
  "isRtlLocale locale \<longleftrightarrow> (let l = to_lower locale in \<exists>p \<in> set [''ar'', ''he'', ''fa'', ''ur'']. l = p \<or> starts_with l (p @ ''-''))"

text \<open>The line of the toolbar on the state of the synchronization.\<close>

definition sync_line :: "bool \<Rightarrow> string \<Rightarrow> int \<Rightarrow> bool \<Rightarrow> int \<Rightarrow> string" where
  "sync_line offline state delayMs readOnly pending =
     (if offline then msg ''offline''
      else if state = ''syncing'' then msg ''syncing''
      else if state = ''backoff'' then msg ''reconnect'' @ '' '' @ show_int (- ((- delayMs) div 1000)) @ '' '' @ msg ''seconds''
      else if readOnly then msg ''readOnly'' else msg ''allSaved'') @ '' '' @ [char_of (183 :: nat)] @ '' Pending: '' @ show_int pending"

section \<open>The sidebar of comments\<close>

record thread =
  th_id :: string
  th_text :: string
  th_status :: string
  th_replies :: "string list"

definition shown_threads :: "string \<Rightarrow> thread list \<Rightarrow> thread list" where
  "shown_threads q ts = (if q = [] then ts else filter (\<lambda>t. like q (th_text t) \<or> (\<exists>r \<in> set (th_replies t). like q r)) ts)"

text \<open>The buttons of the status; \<open>refresh\<close> loads the threads anew (\<open>loaded\<close>).\<close>

definition filterStatus :: "string \<Rightarrow> thread list \<Rightarrow> thread list \<Rightarrow> thread list" where
  "filterStatus s loaded ts = (if s = [] then loaded else filter (\<lambda>t. th_status t = s) ts)"

definition onKeyNav :: "string \<Rightarrow> nat \<Rightarrow> int \<Rightarrow> int" where
  "onKeyNav key n i = (if n = 0 then i else if key = ''ArrowDown'' then min (int n - 1) (i + 1)
     else if key = ''ArrowUp'' then max 0 (i - 1) else i)"

definition postReply_request :: "string \<Rightarrow> string option \<Rightarrow> string \<Rightarrow> string \<Rightarrow> string \<Rightarrow> http_request" where
  "postReply_request base token documentId threadId text = apiPost base token (''/comments/'' @ threadId @ ''/replies'')
     (Some (JObj [(''documentId'', JStr documentId), (''text'', JStr text), (''threadId'', JStr threadId)]))"

definition resolve_request :: "string \<Rightarrow> string option \<Rightarrow> string \<Rightarrow> http_request" where
  "resolve_request base token i = apiPost base token (''/comments/'' @ i @ ''/resolve'') None"

definition remove_request :: "string \<Rightarrow> string option \<Rightarrow> string \<Rightarrow> http_request" where
  "remove_request base token i = apiDelete base token (''/comments/'' @ i)"

definition react_request :: "string \<Rightarrow> string option \<Rightarrow> string \<Rightarrow> string \<Rightarrow> http_request" where
  "react_request base token i emoji = apiPost base token (''/comments/'' @ i @ ''/react'') (Some (JObj [(''emoji'', JStr emoji)]))"

text \<open>A new thread needs a selection that is not empty.\<close>

definition newThread_request :: "string \<Rightarrow> string option \<Rightarrow> string \<Rightarrow> string \<Rightarrow> int \<Rightarrow> int \<Rightarrow> http_request option" where
  "newThread_request base token documentId text selFrom selTo = (if selFrom = selTo then None
     else Some (apiPost base token ''/comments'' (Some (JObj [(''documentId'', JStr documentId), (''text'', JStr text),
       (''anchor'', JObj [(''from'', JNum selFrom), (''to'', JNum selTo)])]))))"

section \<open>Properties\<close>

text \<open>every request that carries a token carries it to the base of the API it was given, in the header and nowhere
  else.\<close>

theorem token_in_header_only:
  assumes "t \<noteq> []"
  shows "\<forall>r \<in> {apiGet base (Some t) path, apiPost base (Some t) path body, apiPatch base (Some t) path body, apiDelete base (Some t) path}.
    map_of (hr_headers r) ''Authorization'' = Some (''Bearer '' @ t) \<and> hr_url r = base @ path \<and> (hr_body r = None \<or> hr_body r = body)"
  using assms by (simp add: apiGet_def apiPost_def apiPatch_def apiDelete_def sending_def bearer_def)

lemma token_in_header_only_witness:
  "map_of (hr_headers (apiGet ''https://a'' (Some ''t'') ''/x'')) ''Authorization'' = Some ''Bearer t''"
  using token_in_header_only [of "''t''" "''https://a''" "''/x''" None] by simp

text \<open>moving through the threads with the arrow keys never leaves the list.\<close>

theorem focus_in_list:
  assumes "0 < n" and "0 \<le> i" and "i < int n"
  shows "0 \<le> fold (\<lambda>k i. onKeyNav k n i) ks i \<and> fold (\<lambda>k i. onKeyNav k n i) ks i < int n"
  using assms(2,3)
proof (induction ks arbitrary: i)
  case (Cons k ks)
  have "0 \<le> onKeyNav k n i \<and> onKeyNav k n i < int n"
    using Cons.prems assms(1) by (auto simp: onKeyNav_def)
  with Cons.IH show ?case by simp
qed simp

lemma focus_in_list_witness:
  "fold (\<lambda>k i. onKeyNav k 2 i) [''ArrowDown'', ''ArrowDown'', ''ArrowUp''] 1 < 2"
  using focus_in_list [of 2 1 "[''ArrowDown'', ''ArrowDown'', ''ArrowUp'']"] by simp

text \<open>The labels for a read-only document, for trying again and for the export have no message: their keys are shown. And
  a status filters what is left of the last filter, so that resolved threads after open ones are none.\<close>

lemma missing_messages: "\<forall>k \<in> {''readOnly'', ''retry'', ''export''}. map_of en k = None"
  by (simp add: en_def)

lemma filters_add_up:
  "s \<noteq> [] \<Longrightarrow> s' \<noteq> [] \<Longrightarrow> s \<noteq> s' \<Longrightarrow> filterStatus s' loaded (filterStatus s loaded ts) = []"
  by (auto simp: filterStatus_def filter_empty_conv)

end
