(* ===== verification/FieldEncryption.thy ===== *)
theory FieldEncryption
  imports Comments Workspaces Base64
begin

text \<open>
  The encryption of fields at rest (\<open>api/src/database/plugins/field-encryption.plugin.ts\<close>), the two
  hooks it installs on a schema, and what the users see of it: the answer of the registration
  (\<open>api/src/users/users.service.ts\<close>) and the search of users (\<open>api/src/database/repositories/user.repo.ts\<close>).
  The other theories keep the text of a name in \<open>us_name\<close>; here the rows are as the database holds them.
  The cipher (AES-256-GCM) and the hash of Node's \<open>crypto\<close> are the argument \<open>A\<close>: \<open>aead_laws\<close> is the
  documented behaviour that the holder of the key opens what it sealed; opening anything else may fail,
  which is \<open>None\<close>. The random bytes of a save are the argument \<open>rnd\<close>, by field.
\<close>

section \<open>The cipher\<close>

record aead =
  ae_hash :: "bytes \<Rightarrow> bytes"
  ae_seal :: "bytes \<Rightarrow> bytes \<Rightarrow> bytes \<Rightarrow> bytes \<times> bytes"
  ae_open :: "bytes \<Rightarrow> bytes \<Rightarrow> bytes \<Rightarrow> bytes \<Rightarrow> bytes option"

definition aead_laws :: "aead \<Rightarrow> bool" where
  "aead_laws A \<longleftrightarrow>
     (\<forall>k iv p. ae_open A k iv (fst (ae_seal A k iv p)) (snd (ae_seal A k iv p)) = Some p)"

text \<open>A cipher that satisfies them: it adds the first byte of the key and keeps the key and the text as the tag.\<close>

definition shift_aead :: aead where
  "shift_aead = \<lparr>ae_hash = (\<lambda>b. b @ [1]), ae_seal = (\<lambda>k iv p. (map (\<lambda>x. x + hd k) p, k @ p)),
     ae_open = (\<lambda>k iv d t. let p = map (\<lambda>x. x - hd k) d in if t = k @ p then Some p else None)\<rparr>"

lemma shift_aead_laws: "aead_laws shift_aead"
  by (simp add: aead_laws_def shift_aead_def Let_def comp_def)

text \<open>\<open>Buffer.from(s, 'utf8')\<close> and \<open>toString('utf8')\<close> on the texts of this library; a byte that is not
  of such a text reads as a question mark.\<close>

definition utf8_char :: "char \<Rightarrow> bytes" where
  "utf8_char c = (let n = of_char c :: nat in
     if n < 128 then [word_of_nat n] else [word_of_nat (192 + n div 64), word_of_nat (128 + n mod 64)])"

definition utf8 :: "string \<Rightarrow> bytes" where
  "utf8 s = concat (map utf8_char s)"

fun utf8_text :: "bytes \<Rightarrow> string" where
  "utf8_text [] = []"
| "utf8_text (b # r) =
     (if b < 128 then char_of (unat b) # utf8_text r
      else case r of
        c # r' \<Rightarrow> if (b = 194 \<or> b = 195) \<and> 128 \<le> c \<and> c < 192
                  then char_of (unat (b - 192) * 64 + unat (c - 128)) # utf8_text r'
                  else CHR ''?'' # utf8_text r
      | [] \<Rightarrow> [CHR ''?''])"

lemma unat_small: "n < 256 \<Longrightarrow> unat (word_of_nat n :: 8 word) = n"
  by (simp add: unsigned_of_nat take_bit_nat_eq_self)

lemma utf8_text_char: "utf8_text (utf8_char c @ r) = c # utf8_text r"
proof -
  define n where "n = (of_char c :: nat)"
  have n: "n < 256" and c: "c = char_of n" by (simp_all add: n_def nat_of_char_less_256)
  show ?thesis
  proof (cases "n < 128")
    case True
    then have u: "unat (word_of_nat n :: 8 word) = n" using unat_small by simp
    moreover have "(word_of_nat n :: 8 word) < 128" using True by (simp add: word_less_nat_alt u)
    ultimately show ?thesis using True by (simp add: utf8_char_def n_def [symmetric] c [symmetric])
  next
    case False
    let ?b = "word_of_nat (192 + n div 64) :: 8 word" and ?d = "word_of_nat (128 + n mod 64) :: 8 word"
    have ub: "unat ?b = 192 + n div 64" using n by (intro unat_small) simp
    have ud: "unat ?d = 128 + n mod 64" using n by (intro unat_small) simp
    have "n div 64 = 2 \<or> n div 64 = 3" using n False by auto
    then have b: "?b = 194 \<or> ?b = 195" by auto
    have "\<not> ?b < 128" "128 \<le> ?d" "?d < 192" "192 \<le> ?b"
      using ub ud by (simp_all add: word_less_nat_alt word_le_nat_alt)
    moreover from this have "unat (?d - 128) = n mod 64" "unat (?b - 192) = n div 64"
      using n unat_small [of "n mod 64"] unat_small [of "n div 64"] by simp_all
    ultimately show ?thesis using False b
      by (simp add: utf8_char_def n_def [symmetric] c [symmetric] Let_def del: of_nat_add)
  qed
qed

lemma utf8_roundtrip [simp]: "utf8_text (utf8 s) = s"
  by (induction s) (simp_all add: utf8_def utf8_text_char)

section \<open>Sealing a text\<close>

definition deriveKey :: "aead \<Rightarrow> string \<Rightarrow> string \<Rightarrow> bytes" where
  "deriveKey A raw env_key = ae_hash A (utf8 (or_text raw env_key))"

definition encrypt :: "aead \<Rightarrow> bytes \<Rightarrow> string \<Rightarrow> bytes \<Rightarrow> string" where
  "encrypt A iv plain key = (case ae_seal A key iv (utf8 plain) of (enc, tag) \<Rightarrow>
     ''enc:'' @ b64_encode iv @ '':'' @ b64_encode enc @ '':'' @ b64_encode tag)"

text \<open>A missing part throws, as a failed opening does; both give back the payload.\<close>

definition decrypt :: "aead \<Rightarrow> string \<Rightarrow> bytes \<Rightarrow> string" where
  "decrypt A payload key =
     (if \<not> starts_with payload ''enc:'' then payload
      else case split_on (CHR '':'') payload of
        _ # ivB64 # dataB64 # tagB64 # _ \<Rightarrow>
          (case ae_open A key (b64_decode ivB64) (b64_decode dataB64) (b64_decode tagB64) of
             Some dec \<Rightarrow> utf8_text dec
           | None \<Rightarrow> payload)
      | _ \<Rightarrow> payload)"

lemma encrypt_enc [simp]: "starts_with (encrypt A iv plain key) ''enc:''"
  by (simp add: encrypt_def split: prod.split)

lemma b64_no_colon: "CHR '':'' \<notin> set (b64_encode bs)"
proof
  assume "CHR '':'' \<in> set (b64_encode bs)"
  from b64_encode_chars [OF this] show False by (simp add: b64_alphabet_def)
qed

lemma split_encrypt:
  "split_on (CHR '':'') (encrypt A iv plain key) =
     [''enc'', b64_encode iv, b64_encode (fst (ae_seal A key iv (utf8 plain))), b64_encode (snd (ae_seal A key iv (utf8 plain)))]"
  by (simp add: encrypt_def split_beta split_on_append b64_no_colon split_on_no_sep)

lemma decrypt_encrypt [simp]: "aead_laws A \<Longrightarrow> decrypt A (encrypt A iv plain key) key = plain"
  by (simp add: decrypt_def split_encrypt aead_laws_def)

section \<open>The hooks of a schema\<close>

text \<open>The fields of a row by their path.\<close>

type_synonym fields = "string \<Rightarrow> json option"

definition shouldEncrypt :: "string \<Rightarrow> bool" where
  "shouldEncrypt val \<longleftrightarrow> val \<noteq> [] \<and> \<not> starts_with val ''enc:''"

definition seal_field :: "aead \<Rightarrow> bytes \<Rightarrow> (string \<Rightarrow> bytes) \<Rightarrow> string \<Rightarrow> fields \<Rightarrow> fields" where
  "seal_field A key rnd path d = (case d path of
     Some (JStr val) \<Rightarrow> if shouldEncrypt val then d(path \<mapsto> JStr (encrypt A (rnd path) val key)) else d
   | _ \<Rightarrow> d)"

definition pre_save :: "aead \<Rightarrow> bytes \<Rightarrow> string list \<Rightarrow> (string \<Rightarrow> bytes) \<Rightarrow> fields \<Rightarrow> fields" where
  "pre_save A key paths rnd d = foldl (\<lambda>d path. seal_field A key rnd path d) d paths"

definition open_field :: "aead \<Rightarrow> bytes \<Rightarrow> string \<Rightarrow> fields \<Rightarrow> fields" where
  "open_field A key path d = (case d path of
     Some (JStr val) \<Rightarrow> if starts_with val ''enc:'' then d(path \<mapsto> JStr (decrypt A val key)) else d
   | _ \<Rightarrow> d)"

definition post_init :: "aead \<Rightarrow> bytes \<Rightarrow> string list \<Rightarrow> fields \<Rightarrow> fields" where
  "post_init A key paths d = foldl (\<lambda>d path. open_field A key path d) d paths"

text \<open>What the hooks do to a value, and that each field is treated on its own.\<close>

definition seal_value :: "aead \<Rightarrow> bytes \<Rightarrow> bytes \<Rightarrow> json \<Rightarrow> json" where
  "seal_value A key iv j = (case j of
     JStr val \<Rightarrow> if shouldEncrypt val then JStr (encrypt A iv val key) else j | _ \<Rightarrow> j)"

definition open_value :: "aead \<Rightarrow> bytes \<Rightarrow> json \<Rightarrow> json" where
  "open_value A key j = (case j of
     JStr val \<Rightarrow> if starts_with val ''enc:'' then JStr (decrypt A val key) else j | _ \<Rightarrow> j)"

lemma seal_value_idem [simp]: "seal_value A key iv' (seal_value A key iv j) = seal_value A key iv j"
  by (cases j) (simp_all add: seal_value_def shouldEncrypt_def)

lemma seal_field_at: "seal_field A key rnd path d =
    (\<lambda>q. if q = path then map_option (seal_value A key (rnd path)) (d path) else d q)"
  by (rule ext) (auto simp: seal_field_def seal_value_def split: option.splits json.splits)

lemma open_field_at: "open_field A key path d = (\<lambda>q. if q = path then map_option (open_value A key) (d path) else d q)"
  by (rule ext) (auto simp: open_field_def open_value_def split: option.splits json.splits)

lemma pre_save_at:
  "pre_save A key paths rnd d q = (if q \<in> set paths then map_option (seal_value A key (rnd q)) (d q) else d q)"
  unfolding pre_save_def
  by (induction paths arbitrary: d) (auto simp: seal_field_at option.map_comp comp_def)

lemma post_init_at:
  assumes "distinct paths"
  shows "post_init A key paths d q = (if q \<in> set paths then map_option (open_value A key) (d q) else d q)"
  using assms unfolding post_init_def
  by (induction paths arbitrary: d) (auto simp: open_field_at)

lemma open_seal_value: "aead_laws A \<Longrightarrow> \<forall>s. j = JStr s \<longrightarrow> \<not> starts_with s ''enc:'' \<Longrightarrow>
  open_value A key (seal_value A key iv j) = j"
  by (cases j) (auto simp: open_value_def seal_value_def shouldEncrypt_def)

text \<open>a row that is saved and read again has the fields it had, whatever the random bytes of the save,
  when no text of an encrypted field starts like a sealed one.\<close>

theorem saved_row_reads_back:
  assumes "aead_laws A" and "distinct paths"
    and "\<forall>q \<in> set paths. \<forall>s. d q = Some (JStr s) \<longrightarrow> \<not> starts_with s ''enc:''"
  shows "post_init A key paths (pre_save A key paths rnd d) = d"
proof (rule ext)
  fix q
  show "post_init A key paths (pre_save A key paths rnd d) q = d q"
  proof (cases "d q")
    case (Some j)
    then have "open_value A key (seal_value A key (rnd q) j) = j" if "q \<in> set paths"
      using assms(3) that by (intro open_seal_value [OF assms(1)]) auto
    with Some show ?thesis by (simp add: post_init_at [OF assms(2)] pre_save_at)
  qed (simp add: post_init_at [OF assms(2)] pre_save_at)
qed

lemma saved_row_reads_back_witness:
  "post_init shift_aead [7] [''name'', ''note''] (pre_save shift_aead [7] [''name'', ''note''] (\<lambda>q. [1, 2])
     [''name'' \<mapsto> JStr ''Mia'', ''age'' \<mapsto> JNum 4]) = [''name'' \<mapsto> JStr ''Mia'', ''age'' \<mapsto> JNum 4]"
  by (rule saved_row_reads_back [OF shift_aead_laws]) auto

text \<open>after a save every text of an encrypted field that is not empty is sealed, and no other field has changed.\<close>

theorem saved_fields_sealed:
  "pre_save A key paths rnd d |` (- set paths) = d |` (- set paths)
   \<and> list_all (\<lambda>q. case pre_save A key paths rnd d q of
        Some (JStr s) \<Rightarrow> s = [] \<or> starts_with s ''enc:'' | _ \<Rightarrow> True) paths"
proof
  show "pre_save A key paths rnd d |` (- set paths) = d |` (- set paths)"
    by (rule ext) (simp add: restrict_map_def pre_save_at)
qed (auto simp: list_all_iff pre_save_at seal_value_def shouldEncrypt_def split: option.splits json.splits)

text \<open>a row that is saved twice is not sealed twice: the second save changes nothing.\<close>

theorem saved_again_unchanged:
  "pre_save A key paths rnd' (pre_save A key paths rnd d) = pre_save A key paths rnd d"
  by (rule ext) (simp add: pre_save_at option.map_comp comp_def)

text \<open>A text that starts like a sealed one is stored as it is, and what cannot be opened is shown as it is stored.\<close>

lemma prefixed_text_stored_plain:
  "d path = Some (JStr (''enc:'' @ s)) \<Longrightarrow> pre_save A key paths rnd d path = Some (JStr (''enc:'' @ s))"
  by (simp add: pre_save_at seal_value_def shouldEncrypt_def)

lemma wrong_key_shows_ciphertext:
  "decrypt shift_aead (encrypt shift_aead [1, 2] ''Mia'' [7]) [8] = encrypt shift_aead [1, 2] ''Mia'' [7]"
  by (simp add: decrypt_def split_encrypt shift_aead_def Let_def)

section \<open>Users\<close>

text \<open>The name of a user is the encrypted field. \<open>Model.create\<close> returns the document the hook has changed.\<close>

definition name_fields :: "string option \<Rightarrow> fields" where
  "name_fields n = (case n of Some s \<Rightarrow> [''name'' \<mapsto> JStr s] | None \<Rightarrow> Map.empty)"

definition fields_name :: "fields \<Rightarrow> string option" where
  "fields_name d = (case d ''name'' of Some (JStr s) \<Rightarrow> Some s | _ \<Rightarrow> None)"

definition saved_name :: "aead \<Rightarrow> bytes \<Rightarrow> (string \<Rightarrow> bytes) \<Rightarrow> string option \<Rightarrow> string option" where
  "saved_name A key rnd n = fields_name (pre_save A key [''name''] rnd (name_fields n))"

definition read_name :: "aead \<Rightarrow> bytes \<Rightarrow> string option \<Rightarrow> string option" where
  "read_name A key n = fields_name (post_init A key [''name''] (name_fields n))"

definition users_register ::
  "aead \<Rightarrow> bytes \<Rightarrow> (string \<Rightarrow> bytes) \<Rightarrow> string \<Rightarrow> string \<Rightarrow> string option \<Rightarrow> db \<Rightarrow> (api_error + json) \<times> db" where
  "users_register A key rnd passwordHash email name d =
     (case user_findByEmail (to_lower (js_trim email)) d of
        Some _ \<Rightarrow> (Inl (Conflict ''Email already in use''), d)
      | None \<Rightarrow> (case user_create email passwordHash (saved_name A key rnd name) d of
          None \<Rightarrow> (Inl (Crash ''E11000''), d)
        | Some (u, d') \<Rightarrow> (Inr (JObj ([(''id'', JStr (us_id u)), (''email'', JStr (us_email u))]
            @ (case us_name u of Some n \<Rightarrow> [(''name'', JStr n)] | None \<Rightarrow> []))), d')))"

text \<open>The search of users: a case-insensitive search for the text in the address and in the stored name, as
  the rows are stored (\<open>lean\<close> runs no hook).\<close>

definition name_text :: "user \<Rightarrow> string" where
  "name_text u = (case us_name u of Some n \<Rightarrow> n | None \<Rightarrow> [])"

definition users_search :: "string \<Rightarrow> nat \<Rightarrow> db \<Rightarrow> user list" where
  "users_search q limit d = take limit (filter (\<lambda>u. q = [] \<or> has_sub (to_lower (us_email u)) (to_lower q)
     \<or> has_sub (to_lower (name_text u)) (to_lower q)) (users d))"

definition mentions_search :: "string \<Rightarrow> string \<Rightarrow> db \<Rightarrow> user list" where
  "mentions_search q documentId d = mentionSearch (users_search q 10 d) documentId d"

definition sealed_name :: "aead \<Rightarrow> bytes \<Rightarrow> string \<Rightarrow> bool" where
  "sealed_name A key n \<longleftrightarrow> n = [] \<or> (\<exists>iv p. n = encrypt A iv p key)"

definition names_sealed :: "aead \<Rightarrow> bytes \<Rightarrow> db \<Rightarrow> bool" where
  "names_sealed A key d \<longleftrightarrow> (\<forall>u \<in> set (users d). sealed_name A key (name_text u))"

lemma saved_name_eq:
  "saved_name A key rnd n = map_option (\<lambda>s. if shouldEncrypt s then encrypt A (rnd ''name'') s key else s) n"
  by (cases n) (simp_all add: saved_name_def fields_name_def name_fields_def pre_save_at seal_value_def)

text \<open>registering keeps the names of the users sealed, when the name given does not pretend to be.\<close>

theorem register_keeps_names_sealed:
  assumes "names_sealed A key d" and "name \<noteq> None \<longrightarrow> \<not> starts_with (the name) ''enc:''"
  shows "names_sealed A key (snd (users_register A key rnd passwordHash email name d))"
proof -
  have "sealed_name A key (case saved_name A key rnd name of Some n \<Rightarrow> n | None \<Rightarrow> [])"
    using assms(2) by (cases name) (auto simp: saved_name_eq shouldEncrypt_def sealed_name_def)
  then show ?thesis
    using assms(1)
    by (auto simp: users_register_def user_create_def Let_def names_sealed_def name_text_def split: option.split)
qed

lemma register_keeps_names_sealed_witness:
  "names_sealed shift_aead [7] (snd (users_register shift_aead [7] (\<lambda>q. [1]) ''h'' ''M@x.org'' (Some ''Mia'')
     (empty_db\<lparr>users := []\<rparr>)))"
  by (rule register_keeps_names_sealed) (simp_all add: names_sealed_def)

text \<open>The registration answers with the sealed name, not with the name given.\<close>

lemma register_answers_sealed_name:
  assumes "users_register A key rnd passwordHash email (Some n) d = (Inr j, d')" and "n \<noteq> []"
  shows "starts_with (jstr ''name'' j) ''enc:''"
  using assms
  by (auto simp: users_register_def user_create_def Let_def saved_name_eq shouldEncrypt_def jstr_def split: option.splits if_splits)

text \<open>The users offered for a mention are shown with their sealed names.\<close>

lemma mentions_show_sealed_names:
  assumes "names_sealed A key d" and "u \<in> set (mentions_search q documentId d)"
  shows "sealed_name A key (name_text u)"
proof -
  have "u \<in> set (users d)"
    using assms(2) by (auto simp: mentions_search_def mentionSearch_def users_search_def split: if_splits dest!: in_set_takeD)
  with assms(1) show ?thesis by (simp add: names_sealed_def)
qed

lemma has_sub_chars: "has_sub t w \<Longrightarrow> set w \<subseteq> set t"
proof -
  assume "has_sub t w"
  then obtain i where "index_of t w = Some i" by (auto simp: has_sub_def)
  from index_of_SomeD [OF this] have "set w = set (take (length w) (drop i t))" by simp
  then show ?thesis by (metis set_drop_subset set_take_subset subset_trans)
qed

lemma lower_space: "CHR '' '' = lower_char c \<longleftrightarrow> c = CHR '' ''"
proof (cases "CHR ''A'' \<le> c \<and> c \<le> CHR ''Z''")
  case True
  then have n: "65 \<le> (of_char c :: nat)" "(of_char c :: nat) \<le> 90" by (simp_all add: less_eq_char_def)
  then have "(of_char (lower_char c) :: nat) = of_char c + 32"
    using True by (simp add: lower_char_def of_char_of)
  with n have "(of_char (lower_char c) :: nat) \<noteq> of_char (CHR '' '')" "(of_char c :: nat) \<noteq> of_char (CHR '' '')"
    by simp_all
  then show ?thesis by metis
qed (auto simp: lower_char_def)

lemma space_in_lower: "CHR '' '' \<in> set (to_lower s) \<longleftrightarrow> CHR '' '' \<in> set s"
proof -
  have "x \<in> set (to_lower s) \<longleftrightarrow> (\<exists>c \<in> set s. x = lower_char c)" for x
    unfolding to_lower_def set_map image_iff ..
  then show ?thesis using lower_space by metis
qed

lemma sealed_no_space: "sealed_name A key n \<Longrightarrow> CHR '' '' \<notin> set n"
  using b64_encode_chars [of "CHR '' ''"]
  by (auto simp: sealed_name_def encrypt_def b64_alphabet_def split_beta)

text \<open>while the names are sealed, a full name, with its space, finds users by their address only: no name is ever matched.\<close>

theorem full_name_never_matches:
  assumes "names_sealed A key d" and "CHR '' '' \<in> set q"
  shows "users_search q limit d = take limit (filter (\<lambda>u. has_sub (to_lower (us_email u)) (to_lower q)) (users d))"
proof -
  have "\<not> has_sub (to_lower (name_text u)) (to_lower q)" if "u \<in> set (users d)" for u
  proof
    assume "has_sub (to_lower (name_text u)) (to_lower q)"
    then have "CHR '' '' \<in> set (name_text u)"
      using assms(2) has_sub_chars space_in_lower by blast
    then show False using assms(1) that sealed_no_space by (auto simp: names_sealed_def)
  qed
  moreover have "q \<noteq> []" using assms(2) by auto
  ultimately show ?thesis by (auto simp: users_search_def intro!: arg_cong [where f = "take limit"] filter_cong)
qed

text \<open>A user named \<open>Mia Lee\<close>, saved as the plugin saves.\<close>

definition demo_sealed_db :: db where
  "demo_sealed_db = empty_db\<lparr>users := [\<lparr>us_id = ''u'', us_email = ''m@x.org'', us_passwordHash = ''h'',
     us_name = saved_name shift_aead [7] (\<lambda>q. [1]) (Some ''Mia Lee''), us_emailVerifiedAt = None\<rparr>]\<rparr>"

lemma full_name_never_matches_witness: "users_search ''Mia Lee'' 10 demo_sealed_db = []"
proof -
  have "names_sealed shift_aead [7] demo_sealed_db"
    by (auto simp: demo_sealed_db_def names_sealed_def name_text_def saved_name_eq sealed_name_def shouldEncrypt_def)
  from full_name_never_matches [OF this, of "''Mia Lee''" 10] show ?thesis
    by (simp add: demo_sealed_db_def has_sub_def to_lower_def lower_char_def)
qed

text \<open>The description of a workspace is set by an update of the row, which runs no hook: it is stored as it was sent.\<close>

lemma description_stored_plain:
  "w_description (set_ws_field (''settings'', JObj [(''description'', JStr s)]) w) = Some s"
  by (simp add: settings_of_def)

end
