(* ===== verification/Metrics.thy ===== *)
theory Metrics
  imports RateLimit Complex_Main
begin

text \<open>
  What the API measures and what it lets an operator disturb: the counters of requests
  (\<open>api/src/common/http-metrics.middleware.ts\<close>) and their export (\<open>api/src/metrics/prometheus.controller.ts\<close>),
  the web vitals (\<open>api/src/ux/ux.controller.ts\<close>), the health routes (\<open>api/src/health.controller.ts\<close>), and the
  chaos experiment (\<open>api/src/chaos\<close>, \<open>api/src/common/chaos.middleware.ts\<close>). Durations are whole
  milliseconds; the numbers of the chaos configuration and the dice are rational numbers.
\<close>

section \<open>Counters\<close>

lemma num_incrby [key_simps]:
  "r_num k (snd (r_incrby k' d s)) = r_num k s + (if k = k' then d else 0)"
proof (cases "k = k'")
  case True
  then show ?thesis
    by (auto simp: r_incrby_def r_num_def r_get_def entry_put dest: entry_live split: option.splits rval.splits rtext.splits)
next
  case False
  then show ?thesis using read_other(4) [of "snd (r_incrby k' d s)" k s] by (simp add: key_simps)
qed

lemma num_incr [key_simps]: "r_num k (snd (r_incr k' s)) = r_num k s + (if k = k' then 1 else 0)"
  by (simp add: r_incr_def num_incrby)

definition incr :: "string \<Rightarrow> redis \<Rightarrow> redis" where
  "incr k s = snd (r_incr k s)"

lemma num_after_incr [key_simps]: "r_num k (incr k' s) = r_num k s + (if k = k' then 1 else 0)"
  by (simp add: incr_def num_incr)

lemma num_after_incrs:
  "r_num k (foldl (\<lambda>s b. if P b then incr (f b) s else s) s bs)
     = r_num k s + int (length (filter (\<lambda>b. P b \<and> f b = k) bs))"
  by (induction bs arbitrary: s) (auto simp: num_after_incr)

lemma entry_after_incrs:
  "k \<notin> f ` set bs \<Longrightarrow> entry (foldl (\<lambda>s b. if P b then incr (f b) s else s) s bs) k = entry s k"
  by (induction bs arbitrary: s) (auto simp: incr_def key_simps)

section \<open>Requests\<close>

definition http_buckets :: "int list" where
  "http_buckets = [50, 100, 200, 300, 500, 1000, 2000, 5000]"

definition le_key :: "int \<Rightarrow> string" where
  "le_key b = tmpl ''metrics:http:latency_le:'' (show_int b)"

definition status_key :: "int \<Rightarrow> string" where
  "status_key s = tmpl ''metrics:http:status:'' (show_int s)"

definition http_done :: "int \<Rightarrow> int \<Rightarrow> redis \<Rightarrow> redis" where
  "http_done status dur s =
     (let s1 = incr ''metrics:http:requests'' s;
          s2 = incr (status_key status) s1;
          s3 = snd (r_incrby ''metrics:http:latency_ms_sum'' dur s2);
          s4 = incr ''metrics:http:latency_ms_count'' s3
      in foldl (\<lambda>s b. if dur \<le> b then incr (le_key b) s else s) s4 http_buckets)"

text \<open>The response emits \<open>finish\<close>, \<open>close\<close>, or both; the first takes the listeners away. The state is
  whether they are there.\<close>

datatype res_event = Finish | Close

fun on_event :: "int \<Rightarrow> int \<Rightarrow> res_event \<Rightarrow> bool \<times> redis \<Rightarrow> bool \<times> redis" where
  "on_event status dur e (listening, s) = (if listening then (False, http_done status dur s) else (False, s))"

text \<open>a response is counted once, however often and in which order it finishes and closes.\<close>

theorem response_counted_once:
  "fold (on_event status dur) (e # es) (True, s) = (False, http_done status dur s)"
  by (induction es) simp_all

lemma http_done_num:
  "r_num ''metrics:http:requests'' (http_done status dur s) = r_num ''metrics:http:requests'' s + 1"
  "r_num ''metrics:http:latency_ms_count'' (http_done status dur s) = r_num ''metrics:http:latency_ms_count'' s + 1"
  "r_num ''metrics:http:latency_ms_sum'' (http_done status dur s) = r_num ''metrics:http:latency_ms_sum'' s + dur"
  by (simp_all add: http_done_def Let_def num_after_incrs num_after_incr num_incrby status_key_def le_key_def)

lemma http_done_status:
  "0 \<le> c \<Longrightarrow> 0 \<le> status \<Longrightarrow> r_num (status_key c) (http_done status dur s) = r_num (status_key c) s + (if c = status then 1 else 0)"
  by (auto simp: http_done_def Let_def num_after_incrs num_after_incr num_incrby status_key_def le_key_def show_int_inj)

lemma http_done_le:
  assumes "b \<in> set http_buckets"
  shows "r_num (le_key b) (http_done status dur s) = r_num (le_key b) s + (if dur \<le> b then 1 else 0)"
proof -
  have b0: "0 \<le> c" if "c \<in> set http_buckets" for c using that by (auto simp: http_buckets_def)
  have "filter (\<lambda>c. dur \<le> c \<and> le_key c = le_key b) http_buckets = (if dur \<le> b then [b] else [])"
  proof -
    have "filter (\<lambda>c. dur \<le> c \<and> le_key c = le_key b) http_buckets = filter (\<lambda>c. dur \<le> c \<and> c = b) http_buckets"
      using assms b0 by (intro filter_cong) (auto simp: le_key_def show_int_inj)
    then show ?thesis using assms by (auto simp: http_buckets_def)
  qed
  then show ?thesis
    by (simp add: http_done_def Let_def num_after_incrs num_after_incr num_incrby) (simp add: status_key_def le_key_def)
qed

text \<open>A day of requests: each a status and a duration.\<close>

definition http_run :: "(int \<times> int) list \<Rightarrow> redis \<Rightarrow> redis" where
  "http_run rs s = fold (\<lambda>(status, dur) s. http_done status dur s) rs s"

text \<open>from the start of the counters, the buckets are the exact cumulative histogram of the requests: a bucket
  counts those that took no longer than its bound, and the counts and the sum are those of all.\<close>

theorem histogram_exact:
  "map (\<lambda>b. r_num (le_key b) (http_run rs (empty_redis t))) http_buckets
     = map (\<lambda>b. int (length (filter (\<lambda>r. snd r \<le> b) rs))) http_buckets
   \<and> r_num ''metrics:http:requests'' (http_run rs (empty_redis t)) = int (length rs)
   \<and> r_num ''metrics:http:latency_ms_count'' (http_run rs (empty_redis t)) = int (length rs)
   \<and> r_num ''metrics:http:latency_ms_sum'' (http_run rs (empty_redis t)) = sum_list (map snd rs)"
proof -
  have n0: "r_num k (empty_redis t) = 0" for k
    by (simp add: r_num_def r_get_def entry_def empty_redis_def)
  have le: "r_num (le_key b) (http_run rs s) = r_num (le_key b) s + int (length (filter (\<lambda>r. snd r \<le> b) rs))"
    if "b \<in> set http_buckets" for b s
    by (induction rs arbitrary: s) (auto simp: http_run_def http_done_le [OF that])
  have "r_num ''metrics:http:requests'' (http_run rs s) = r_num ''metrics:http:requests'' s + int (length rs)"
    and "r_num ''metrics:http:latency_ms_count'' (http_run rs s) = r_num ''metrics:http:latency_ms_count'' s + int (length rs)"
    and "r_num ''metrics:http:latency_ms_sum'' (http_run rs s) = r_num ''metrics:http:latency_ms_sum'' s + sum_list (map snd rs)" for s
    by (induction rs arbitrary: s) (auto simp: http_run_def http_done_num)
  then show ?thesis using le by (simp add: n0)
qed

section \<open>The export\<close>

definition exported_statuses :: "int list" where
  "exported_statuses = [200, 201, 204, 400, 401, 403, 404, 429, 500, 502, 503]"

definition app_keys :: "string list" where
  "app_keys = [''ws:connections:total'', ''metrics:presence:sent'', ''metrics:presence:dropped'',
     ''metrics:comments:created'', ''metrics:comments:replied'', ''metrics:comments:resolved'',
     ''metrics:comments:deleted'', ''metrics:search:queries'', ''metrics:search:clicks'', ''jobs:processed'', ''jobs:failed'']"

definition quoted :: "string \<Rightarrow> string" where
  "quoted s = CHR 0x22 # s @ [CHR 0x22]"

definition prom_line :: "string \<Rightarrow> int \<Rightarrow> string" where
  "prom_line name v = name @ '' '' @ show_int v"

definition prom_lines :: "redis \<Rightarrow> string list" where
  "prom_lines s =
     [''# HELP http_requests_total Total number of HTTP requests'', ''# TYPE http_requests_total counter'',
      prom_line ''http_requests_total'' (r_num ''metrics:http:requests'' s),
      ''# HELP http_requests_status_total HTTP requests by status code'', ''# TYPE http_requests_status_total counter'']
     @ map (\<lambda>c. prom_line (''http_requests_status_total{code='' @ quoted (show_int c) @ ''}'') (r_num (status_key c) s)) exported_statuses
     @ [''# HELP http_request_duration_ms HTTP request duration histogram (ms)'', ''# TYPE http_request_duration_ms histogram'']
     @ map (\<lambda>b. prom_line (''http_request_duration_ms_bucket{le='' @ quoted (show_int b) @ ''}'') (r_num (le_key b) s)) http_buckets
     @ [prom_line (''http_request_duration_ms_bucket{le='' @ quoted ''+Inf'' @ ''}'') (r_num ''metrics:http:latency_ms_count'' s),
        prom_line ''http_request_duration_ms_sum'' (r_num ''metrics:http:latency_ms_sum'' s),
        prom_line ''http_request_duration_ms_count'' (r_num ''metrics:http:latency_ms_count'' s),
        ''# TYPE app_counters_total counter'']
     @ map (\<lambda>k. prom_line (''app_counters_total{name='' @ quoted k @ ''}'') (r_num k s)) app_keys"

definition prometheus :: "redis \<Rightarrow> string" where
  "prometheus s = join_with [CHR 0x0A] (prom_lines s) @ [CHR 0x0A]"

text \<open>A request answered with a status that is not on the list is in the total and in no exported line by status.\<close>

lemma other_statuses_not_exported:
  "map (\<lambda>c. r_num (status_key c) (http_done 409 dur s)) exported_statuses = map (\<lambda>c. r_num (status_key c) s) exported_statuses
   \<and> r_num ''metrics:http:requests'' (http_done 409 dur s) = r_num ''metrics:http:requests'' s + 1"
  by (simp add: exported_statuses_def http_done_status http_done_num)

section \<open>Web vitals\<close>

definition upper_char :: "char \<Rightarrow> char" where
  "upper_char c = (if CHR ''a'' \<le> c \<and> c \<le> CHR ''z'' then char_of (of_char c - 32 :: nat) else c)"

definition ux_buckets :: "string \<Rightarrow> int list" where
  "ux_buckets name = (if name = ''LCP'' then [1000, 2500, 4000, 6000] else if name = ''FID'' then [100, 300, 1000] else [10, 25, 100, 250])"

definition ux_key :: "string \<Rightarrow> string \<Rightarrow> string" where
  "ux_key name rest = tmpl ''metrics:ux:'' (name @ rest)"

text \<open>\<open>add\<close> is \<open>INCRBYFLOAT\<close> on the text at a key, \<open>None\<close> the error it answers with; a value that is not a number is \<open>None\<close>.
  The result is the \<open>ok\<close> of the answer.\<close>

definition vital_scaled :: "string \<Rightarrow> rat \<Rightarrow> int" where
  "vital_scaled name value = \<lfloor>(if name = ''CLS'' then value * 1000 else value) + 1 / 2\<rfloor>"

definition vitals :: "(rtext option \<Rightarrow> rat option \<Rightarrow> rtext option) \<Rightarrow> string \<Rightarrow> rat option \<Rightarrow> redis \<Rightarrow> bool \<times> redis" where
  "vitals add name0 value s =
     (let name = map upper_char name0 in
      if name \<notin> {''LCP'', ''FID'', ''CLS''} then (False, s)
      else let s1 = incr (ux_key name '':count'') s in
        case add (r_get (ux_key name '':sum'') s1) value of
          None \<Rightarrow> (True, s1)
        | Some t \<Rightarrow> (True, foldl (\<lambda>s b. if (case value of Some v \<Rightarrow> vital_scaled name v \<le> b | None \<Rightarrow> False)
              then incr (ux_key name ('':le:'' @ show_int b)) s else s) (r_set (ux_key name '':sum'') t s1) (ux_buckets name)))"

text \<open>A value that is not a number is acknowledged and counted, but is in no sum and no bucket.\<close>

lemma bad_vital_counted:
  assumes "add (r_get (ux_key ''LCP'' '':sum'') (incr (ux_key ''LCP'' '':count'') s)) None = None"
  shows "vitals add ''lcp'' None s = (True, incr (ux_key ''LCP'' '':count'') s)"
proof -
  have "map upper_char ''lcp'' = ''LCP''" by code_simp
  then show ?thesis using assms by (simp add: vitals_def)
qed

section \<open>Health\<close>

definition health_route :: "bool \<Rightarrow> json" where
  "health_route mongoReady = JObj [(''status'', JStr ''ok''), (''mongo'', JStr (if mongoReady then ''up'' else ''down''))]"

text \<open>\<open>pong\<close> is the answer of Redis, \<open>None\<close> when the call throws.\<close>

definition ready_route :: "bool \<Rightarrow> string option \<Rightarrow> json" where
  "ready_route mongoReady pong =
     (let redisOk = (pong = Some ''PONG'')
      in JObj [(''status'', JStr (if mongoReady \<and> redisOk then ''ready'' else ''not-ready'')),
               (''mongo'', JBool mongoReady), (''redis'', JBool redisOk)])"

section \<open>The chaos experiment\<close>

record chaos_http =
  ch_failureRate :: "rat option"
  ch_minLatencyMs :: "rat option"
  ch_maxLatencyMs :: "rat option"
  ch_includePaths :: "string list option"
  ch_excludePaths :: "string list option"

record chaos_cfg =
  ch_enabled :: bool
  ch_http :: "chaos_http option"

definition no_chaos :: chaos_cfg where
  "no_chaos = \<lparr>ch_enabled = False, ch_http = None\<rparr>"

text \<open>The key \<open>chaos:config\<close>, with its expiry time, is shared by the instances of the API; each has a cache with the time it was
  filled. \<open>down\<close> says that the read throws.\<close>

record chaos_state =
  cs_now :: int
  cs_key :: "(chaos_cfg \<times> int) option"
  cs_cache :: "(chaos_cfg \<times> int) option"

definition chaos_stored :: "chaos_state \<Rightarrow> chaos_cfg" where
  "chaos_stored st = (case cs_key st of Some (c, e) \<Rightarrow> if cs_now st < e then c else no_chaos | None \<Rightarrow> no_chaos)"

definition chaos_getConfig :: "bool \<Rightarrow> chaos_state \<Rightarrow> chaos_cfg \<times> chaos_state" where
  "chaos_getConfig down st =
     (case cs_cache st of
        Some (c, ts) \<Rightarrow> if cs_now st - ts < 3000 then (c, st)
          else if down then (no_chaos, st) else (chaos_stored st, st\<lparr>cs_cache := Some (chaos_stored st, cs_now st)\<rparr>)
      | None \<Rightarrow> if down then (no_chaos, st) else (chaos_stored st, st\<lparr>cs_cache := Some (chaos_stored st, cs_now st)\<rparr>))"

definition chaos_setConfig :: "chaos_cfg \<Rightarrow> chaos_state \<Rightarrow> chaos_state" where
  "chaos_setConfig c st = st\<lparr>cs_key := Some (c, cs_now st + 3600000), cs_cache := Some (c, cs_now st)\<rparr>"

text \<open>\<open>rx\<close> compiles and tests an expression, \<open>None\<close> when it does not compile.\<close>

definition some_match :: "(string \<Rightarrow> string \<Rightarrow> bool option) \<Rightarrow> string \<Rightarrow> string list option \<Rightarrow> bool" where
  "some_match rx path arr = (case arr of None \<Rightarrow> False | Some ps \<Rightarrow> list_ex (\<lambda>p. rx p path = Some True) ps)"

definition matchPath :: "(string \<Rightarrow> string \<Rightarrow> bool option) \<Rightarrow> string \<Rightarrow> string list option \<Rightarrow> string list option \<Rightarrow> bool" where
  "matchPath rx path incl excl =
     (if some_match rx path excl then False
      else if incl = None \<or> incl = Some [] then True
      else some_match rx path incl)"

definition or0 :: "rat option \<Rightarrow> rat" where
  "or0 x = (case x of Some q \<Rightarrow> q | None \<Rightarrow> 0)"

text \<open>The delay and whether the request fails, \<open>None\<close> when it is left alone; \<open>d1\<close> and \<open>d2\<close> are the dice.\<close>

definition chaos_plan :: "(string \<Rightarrow> string \<Rightarrow> bool option) \<Rightarrow> chaos_cfg \<Rightarrow> string \<Rightarrow> rat \<Rightarrow> rat \<Rightarrow> (int \<times> bool) option" where
  "chaos_plan rx cfg path d1 d2 =
     (case ch_http cfg of
        None \<Rightarrow> None
      | Some h \<Rightarrow>
          if \<not> ch_enabled cfg then None
          else if \<not> matchPath rx path (ch_includePaths h) (ch_excludePaths h) then None
          else
            let mn = max 0 (or0 (ch_minLatencyMs h));
                mx = max mn (or0 (ch_maxLatencyMs h));
                p = max 0 (min 1 (or0 (ch_failureRate h)))
            in Some (if mx > 0 then \<lfloor>mn + d1 * (mx - mn)\<rfloor> else 0, d2 < p))"

text \<open>whatever numbers the configuration holds, the delay is between the bounds it sets (the lower one wins), never
  negative, and dice of a rate of nought never fail a request while those of one or more always do.\<close>

theorem chaos_within_bounds:
  assumes "chaos_plan rx cfg path d1 d2 = Some (delay, fail)" and "ch_http cfg = Some h"
    and "0 \<le> d1" and "d1 < 1" and "0 \<le> d2" and "d2 < 1"
  shows "0 \<le> delay \<and> \<lfloor>or0 (ch_minLatencyMs h)\<rfloor> \<le> delay
    \<and> of_int delay \<le> max (max 0 (or0 (ch_minLatencyMs h))) (or0 (ch_maxLatencyMs h))
    \<and> (or0 (ch_failureRate h) \<le> 0 \<longrightarrow> \<not> fail) \<and> (1 \<le> or0 (ch_failureRate h) \<longrightarrow> fail)"
proof -
  define mn mx where "mn = max 0 (or0 (ch_minLatencyMs h))" and "mx = max mn (or0 (ch_maxLatencyMs h))"
  have d: "delay = (if mx > 0 then \<lfloor>mn + d1 * (mx - mn)\<rfloor> else 0)"
    and f: "fail = (d2 < max 0 (min 1 (or0 (ch_failureRate h))))"
    using assms(1,2) by (auto simp: chaos_plan_def Let_def mn_def mx_def split: if_splits)
  have mm: "0 \<le> mn" "mn \<le> mx" "or0 (ch_minLatencyMs h) \<le> mn" by (simp_all add: mn_def mx_def)
  have lo: "mn \<le> mn + d1 * (mx - mn)" using assms(3) mm by simp
  have "d1 * (mx - mn) \<le> 1 * (mx - mn)" using assms(4) mm by (intro mult_right_mono) auto
  then have hi: "mn + d1 * (mx - mn) \<le> mx" by simp
  have "\<lfloor>mn\<rfloor> \<le> delay \<and> of_int delay \<le> mx"
  proof (cases "mx > 0")
    case True
    then show ?thesis using lo hi floor_mono [OF lo] by (simp add: d) (meson of_int_floor_le order_trans)
  next
    case False
    then show ?thesis using mm by (simp add: d)
  qed
  moreover have "0 \<le> \<lfloor>mn\<rfloor>" "\<lfloor>or0 (ch_minLatencyMs h)\<rfloor> \<le> \<lfloor>mn\<rfloor>" using mm by (simp_all add: floor_mono)
  ultimately have "0 \<le> delay" "\<lfloor>or0 (ch_minLatencyMs h)\<rfloor> \<le> delay" "of_int delay \<le> mx"
    by linarith+
  then show ?thesis
    using f assms(5,6) by (simp add: mn_def mx_def)
qed

definition demo_chaos :: chaos_cfg where
  "demo_chaos = \<lparr>ch_enabled = True, ch_http = Some \<lparr>ch_failureRate = Some 1, ch_minLatencyMs = Some 100, ch_maxLatencyMs = Some 50,
     ch_includePaths = None, ch_excludePaths = None\<rparr>\<rparr>"

lemma chaos_within_bounds_witness:
  "chaos_plan (\<lambda>p s. None) demo_chaos ''/x'' (1 / 2) 0 = Some (100, True) \<and> (0 :: int) \<le> 100"
proof -
  have "chaos_plan (\<lambda>p s. None) demo_chaos ''/x'' (1 / 2) 0 = Some (100, True)"
    by (simp add: chaos_plan_def demo_chaos_def matchPath_def some_match_def or0_def)
  moreover from chaos_within_bounds [OF this, of "the (ch_http demo_chaos)"] have "(0 :: int) \<le> 100"
    by (simp add: demo_chaos_def)
  ultimately show ?thesis by simp
qed

text \<open>A configuration set on one instance is what every other one uses three seconds later at the latest, for an hour.\<close>

lemma chaos_reaches_others:
  assumes "cs_key st = Some (c, e)" and "cs_now st < e"
    and "\<forall>old ts. cs_cache st = Some (old, ts) \<longrightarrow> ts + 3000 \<le> cs_now st"
  shows "fst (chaos_getConfig False st) = c"
  using assms by (auto simp: chaos_getConfig_def chaos_stored_def split: option.split)

end
