(* ===== verification/HttpServer.thy ===== *)
theory HttpServer
  imports Metrics Sanitize Access
begin

text \<open>
  The way of a request through the API as \<open>bootstrap\<close> (\<open>api/src/main.ts\<close>) and \<open>AppModule\<close>
  (\<open>api/src/app.module.ts\<close>) put it together: the cleaning of the request, the rate limits, the request
  logger, the counters, the chaos experiment, then the guard and the handler of the route between the
  interceptors (\<open>api/src/common/interceptors\<close>, \<open>api/src/common/audit.interceptor.ts\<close>), and the exception filter
  (\<open>api/src/common/filters/http-exception.filter.ts\<close>). A route is an argument: its guard, its handler and the
  status of its success. \<open>console.log\<close> has no effect on the state.
\<close>

section \<open>Exceptions\<close>

text \<open>An exception of the framework has a status and a response, any other has not.\<close>

datatype thrown = HttpException int json | OtherError string

definition http_exception :: "int \<Rightarrow> string \<Rightarrow> string \<Rightarrow> thrown" where
  "http_exception status kind m =
     HttpException status (JObj [(''message'', JStr m), (''error'', JStr kind), (''statusCode'', JNum status)])"

fun thrown_of :: "api_error \<Rightarrow> thrown" where
  "thrown_of (BadRequest m) = http_exception 400 ''Bad Request'' m"
| "thrown_of (Unauthorized m) = http_exception 401 ''Unauthorized'' m"
| "thrown_of (Forbidden m) = http_exception 403 ''Forbidden'' m"
| "thrown_of (NotFound m) = http_exception 404 ''Not Found'' m"
| "thrown_of (Conflict m) = http_exception 409 ''Conflict'' m"
| "thrown_of (Crash m) = OtherError m"

fun thrown_status :: "thrown \<Rightarrow> int" where
  "thrown_status (HttpException status _) = status"
| "thrown_status (OtherError _) = 500"

fun thrown_message :: "thrown \<Rightarrow> json" where
  "thrown_message (HttpException _ response) = response"
| "thrown_message (OtherError _) = JStr ''Internal server error''"

record reply =
  rp_status :: int
  rp_body :: json

definition error_text :: "json \<Rightarrow> json" where
  "error_text message = (case message of
     JStr s \<Rightarrow> JStr s
   | _ \<Rightarrow> if truthy (jfield ''message'' message) then the (jfield ''message'' message) else message)"

definition exception_filter :: "int \<Rightarrow> thrown \<Rightarrow> reply" where
  "exception_filter now e = \<lparr>rp_status = thrown_status e,
     rp_body = JObj [(''statusCode'', JNum (thrown_status e)), (''error'', error_text (thrown_message e)), (''timestamp'', JNum now)]\<rparr>"

section \<open>The request logger\<close>

definition is_hex :: "char \<Rightarrow> bool" where
  "is_hex c \<longleftrightarrow> (CHR ''0'' \<le> c \<and> c \<le> CHR ''9'') \<or> (CHR ''a'' \<le> c \<and> c \<le> CHR ''f'') \<or> (CHR ''A'' \<le> c \<and> c \<le> CHR ''F'')"

definition all_hex :: "nat \<Rightarrow> string \<Rightarrow> bool" where
  "all_hex n s \<longleftrightarrow> length s = n \<and> list_all is_hex s"

definition m_oid :: matcher where
  "m_oid s = (if all_hex 24 (take 24 s) then Some (24, '':id'') else None)"

definition m_uuid :: matcher where
  "m_uuid s = (let u = take 36 s; p = split_on (CHR ''-'') u in
     if length u = 36 \<and> map length p = [8, 4, 4, 4, 12] \<and> list_all (list_all is_hex) p
        \<and> hd (p ! 2) \<in> set ''12345'' \<and> hd (p ! 3) \<in> set ''89abAB''
     then Some (36, '':id'') else None)"

definition canonicalizePath :: "string \<Rightarrow> string" where
  "canonicalizePath path = replace_all m_uuid (replace_all m_oid path)"

text \<open>The record of the log: the request's trace identifier, or a new one, and what was asked.\<close>

definition trace_id :: "string option \<Rightarrow> string \<Rightarrow> string" where
  "trace_id header fresh = (case header of Some h \<Rightarrow> if h \<noteq> [] then h else fresh | None \<Rightarrow> fresh)"

definition log_record :: "string \<Rightarrow> string \<Rightarrow> request \<Rightarrow> int \<Rightarrow> int \<Rightarrow> int \<Rightarrow> json" where
  "log_record traceId ua req status now dur = JObj ([(''ts'', JNum now), (''level'', JStr ''info''), (''traceId'', JStr traceId),
     (''method'', JStr (rq_method req)), (''path'', JStr (canonicalizePath (rq_path req))), (''status'', JNum status),
     (''durationMs'', JNum dur), (''ip'', JStr (case xff req of
        Some h \<Rightarrow> or_text (hd (split_on (CHR '','') h)) (case remote_addr req of Some a \<Rightarrow> a | None \<Rightarrow> [])
      | None \<Rightarrow> (case remote_addr req of Some a \<Rightarrow> a | None \<Rightarrow> []))), (''ua'', JStr ua)]
     @ opt_field ''userId'' (user_of req))"

lemma canonical_oid: "all_hex 24 i \<Longrightarrow> replace_all m_oid i = '':id''"
proof -
  assume i: "all_hex 24 i"
  then obtain c t where ct: "i = c # t" by (cases i) (simp_all add: all_hex_def)
  have "m_oid (c # t) = Some (24, '':id'')" "drop 23 t = []"
    using i ct by (simp_all add: m_oid_def all_hex_def)
  then show ?thesis by (simp add: ct)
qed

section \<open>The interceptors\<close>

definition opFromMethod :: "string \<Rightarrow> string" where
  "opFromMethod m = (if m = ''GET'' then ''read'' else ''write'')"

definition audit_resource :: "string \<Rightarrow> string" where
  "audit_resource path = join_with ''/'' (take 3 (split_on (CHR ''/'') (hd (split_on (CHR ''?'') path))))"

definition audit_ip :: "request \<Rightarrow> string option" where
  "audit_ip req = (case xff req of Some h \<Rightarrow> if h \<noteq> [] then Some h else remote_addr req | None \<Rightarrow> remote_addr req)"

definition audit_fields :: "request \<Rightarrow> (string \<times> json) list" where
  "audit_fields req = opt_field ''userId'' (rq_user_id req) @ opt_field ''ip'' (audit_ip req)
     @ [(''path'', JStr (rq_path req)), (''resource'', JStr (audit_resource (rq_path req))),
        (''method'', JStr (rq_method req)), (''op'', JStr (opFromMethod (rq_method req)))]"

definition audit_intercept :: "env \<Rightarrow> request \<Rightarrow> int \<Rightarrow> (thrown + json) \<Rightarrow> redis \<Rightarrow> redis" where
  "audit_intercept E req dur out s = (case out of
     Inr _ \<Rightarrow> sec_log E ''audit.access'' (audit_fields req @ [(''dur'', JNum dur)]) s
   | Inl e \<Rightarrow> sec_log E ''audit.error'' (audit_fields req @ [(''status'', JNum (thrown_status e)), (''dur'', JNum dur)]) s)"

definition transform_intercept :: "(thrown + json) \<Rightarrow> (thrown + json)" where
  "transform_intercept out = (case out of Inr j \<Rightarrow> Inr (JObj [(''data'', j)]) | Inl e \<Rightarrow> Inl e)"

section \<open>The routes of the chaos experiment\<close>

text \<open>\<open>secret\<close> is the variable \<open>CHAOS_KEY\<close>, \<open>key\<close> the header, absent ones \<open>''''\<close>.\<close>

definition chaos_assertKey :: "string \<Rightarrow> string \<Rightarrow> bool" where
  "chaos_assertKey secret key \<longleftrightarrow> secret \<noteq> [] \<and> key = secret"

definition chaos_get :: "string \<Rightarrow> string \<Rightarrow> bool \<Rightarrow> chaos_state \<Rightarrow> (api_error + chaos_cfg) \<times> chaos_state" where
  "chaos_get secret key down st =
     (if chaos_assertKey secret key then (case chaos_getConfig down st of (c, st1) \<Rightarrow> (Inr c, st1))
      else (Inl (Crash ''Forbidden''), st))"

definition chaos_set :: "string \<Rightarrow> string \<Rightarrow> chaos_cfg option \<Rightarrow> chaos_state \<Rightarrow> (api_error + unit) \<times> chaos_state" where
  "chaos_set secret key body st =
     (if chaos_assertKey secret key
      then (Inr (), chaos_setConfig (case body of Some c \<Rightarrow> c | None \<Rightarrow> no_chaos) st)
      else (Inl (Crash ''Forbidden''), st))"

section \<open>The whole way\<close>

text \<open>A guard refuses, or lets the request pass as that of a user.\<close>

record route =
  rt_guard :: "request \<Rightarrow> redis \<Rightarrow> (thrown + (string \<times> string) option) \<times> redis"
  rt_handler :: "request \<Rightarrow> redis \<Rightarrow> (thrown + json) \<times> redis"
  rt_status :: int

definition as_user :: "(string \<times> string) option \<Rightarrow> request \<Rightarrow> request" where
  "as_user u req = (case u of None \<Rightarrow> req | Some (i, e) \<Rightarrow> req\<lparr>rq_user_id := Some i, rq_user_email := Some e\<rparr>)"

definition run_route :: "env \<Rightarrow> route \<Rightarrow> int \<Rightarrow> request \<Rightarrow> redis \<Rightarrow> reply \<times> redis" where
  "run_route E rt dur req s = (case rt_guard rt req s of
     (Inl e, s1) \<Rightarrow> (exception_filter (clock s1) e, s1)
   | (Inr u, s1) \<Rightarrow> (case rt_handler rt (as_user u req) s1 of
        (out, s2) \<Rightarrow>
          let s3 = audit_intercept E (as_user u req) dur out s2
          in (case transform_intercept out of
                Inr j \<Rightarrow> (\<lparr>rp_status = rt_status rt, rp_body = j\<rparr>, s3)
              | Inl e \<Rightarrow> (exception_filter (clock s3) e, s3))))"

text \<open>What the middleware sees: the body is cleaned, and no guard has run, so there is no user yet.\<close>

definition arrive :: "request \<Rightarrow> request" where
  "arrive req = req\<lparr>rq_user_id := None, rq_user_email := None, rq_body := cleanObject (rq_body req) 0\<rparr>"

definition rejected_reply :: "response \<Rightarrow> reply" where
  "rejected_reply r = \<lparr>rp_status = rsp_status r, rp_body = JObj [(''error'', JStr (rsp_error r))]\<rparr>"

text \<open>The middleware of \<open>main.ts\<close> comes before that of the module, so the counters see what the limits let through.
  \<open>chaos\<close> says that the experiment fails the request.\<close>

definition serve :: "env \<Rightarrow> route \<Rightarrow> bool \<Rightarrow> int \<Rightarrow> request \<Rightarrow> rl_state \<Rightarrow> reply \<times> rl_state" where
  "serve E rt chaos dur req st =
     (let q = arrive req in
      case rateLimit E q st of
        (st1, tracked, Some r) \<Rightarrow> (rejected_reply r, if tracked then rl_finish (getIp q) st1 else st1)
      | (st1, tracked, None) \<Rightarrow>
          let (rep, s2) = (if chaos then (\<lparr>rp_status = 500, rp_body = JObj [(''error'', JStr ''chaos: injected failure'')]\<rparr>, rl_redis st1)
                           else run_route E rt dur q (rl_redis st1))
          in (rep, rl_finish (getIp q) (st1\<lparr>rl_redis := http_done (rp_status rep) dur s2\<rparr>)))"

section \<open>What a request leaves behind\<close>

text \<open>A key that is none of those the limits and the audit write.\<close>

definition own_metric :: "string \<Rightarrow> bool" where
  "own_metric k \<longleftrightarrow> starts_with k ''metrics:http:''"

lemma own_metric_differs:
  assumes "own_metric k"
  shows "\<not> log_key k" "k \<noteq> tmpl ''abuse:ip:'' x" "k \<noteq> block_key x"
    "k \<noteq> tmpl ''paths:'' x" "k \<noteq> tmpl ''rate:any:user:'' x" "k \<noteq> tmpl ''rate:any:ip:'' x"
    "k \<noteq> tmpl ''rate:docs:user:'' x" "k \<noteq> tmpl ''rate:docs:ip:'' x"
    "k \<noteq> tmpl ''rate:comment:user:'' x" "k \<noteq> tmpl ''rate:comment:ip:'' x" "k \<noteq> tmpl ''rate:ip:'' x"
proof -
  from assms obtain r where k: "k = ''metrics:http:'' @ r" by (auto simp: own_metric_def starts_with_iff)
  show "\<not> log_key k" "k \<noteq> tmpl ''abuse:ip:'' x" "k \<noteq> block_key x"
    "k \<noteq> tmpl ''paths:'' x" "k \<noteq> tmpl ''rate:any:user:'' x" "k \<noteq> tmpl ''rate:any:ip:'' x"
    "k \<noteq> tmpl ''rate:docs:user:'' x" "k \<noteq> tmpl ''rate:docs:ip:'' x"
    "k \<noteq> tmpl ''rate:comment:user:'' x" "k \<noteq> tmpl ''rate:comment:ip:'' x" "k \<noteq> tmpl ''rate:ip:'' x"
    by (simp_all add: k log_key_def block_key_def)
qed

lemma keeps_own_metric:
  assumes "own_metric k"
  shows "keeps k (rl_blocked req)" "keeps k (rl_emergency E req)" "keeps k (rl_limits E req)" "keeps k (rl_bot E req)"
proof -
  note d = own_metric_differs [OF assms]
  show "keeps k (rl_blocked req)" by (simp add: keeps_def rl_blocked_def)
  show "keeps k (rl_emergency E req)" by (rule keepsI) (simp_all add: rl_emergency_def stage_frame d)
  have "keeps k (rl_baseline_ip E req)" by (rule keepsI) (simp_all add: rl_baseline_ip_def stage_frame d)
  moreover have "keeps k (rl_baseline_user E req)"
    by (rule keepsI) (simp_all add: rl_baseline_user_def stage_frame d split: option.split)
  moreover have "keeps k (rl_docs E req)"
    by (rule keepsI) (simp_all add: rl_docs_def stage_frame d split: option.split)
  moreover have "keeps k (rl_comments E req)"
  proof -
    have "keeps k (rl_comment_text E req)" by (rule keepsI) (simp_all add: rl_comment_text_def stage_frame d)
    then show ?thesis unfolding keeps_def by (simp add: rl_comments_def stage_frame d split: option.split)
  qed
  moreover have "keeps k (\<lambda>s. (None, s))" by (simp add: keeps_def)
  ultimately show "keeps k (rl_limits E req)" unfolding rl_limits_def by (simp add: keeps_then)
  show "keeps k (rl_bot E req)" by (rule keepsI) (simp_all add: rl_bot_def tooManyDistinctPaths_def stage_frame d)
qed

lemma rateLimit_own_metric:
  assumes "own_metric k"
  shows "entry (rl_redis (fst (rateLimit E req st))) k = entry (rl_redis st) k"
proof -
  note ks = keeps_own_metric [OF assms]
  have 1: "keeps k (then_stage (rl_blocked req) (rl_emergency E req))"
    and 2: "keeps k (then_stage (rl_limits E req) (rl_bot E req))"
    by (intro keeps_then ks)+
  show ?thesis
    using keepsD [OF 1] keepsD [OF 2]
    by (auto simp: rateLimit_def Let_def split: prod.split option.split)
qed

definition quiet_route :: "route \<Rightarrow> bool" where
  "quiet_route rt \<longleftrightarrow> (\<forall>q s k. own_metric k \<longrightarrow>
     entry (snd (rt_guard rt q s)) k = entry s k \<and> entry (snd (rt_handler rt q s)) k = entry s k)"

lemma run_route_own_metric:
  assumes "own_metric k" and "quiet_route rt"
  shows "entry (snd (run_route E rt dur req s)) k = entry s k"
proof -
  have g: "entry s1 k = entry s k" if "rt_guard rt q s = (x, s1)" for q x s s1
    using assms that unfolding quiet_route_def by (metis snd_conv)
  have h: "entry s1 k = entry s k" if "rt_handler rt q s = (x, s1)" for q x s s1
    using assms that unfolding quiet_route_def by (metis snd_conv)
  have a: "entry (audit_intercept E q dur out s) k = entry s k" for q out s
    using own_metric_differs(1) [OF assms(1)] by (simp add: audit_intercept_def entry_sec_log split: sum.split)
  show ?thesis
    by (auto simp: run_route_def transform_intercept_def Let_def a split: prod.split sum.split dest!: g h)
qed

lemma own_metric_keys [simp]:
  "own_metric ''metrics:http:requests''" "own_metric (status_key c)" "own_metric (le_key b)"
  by (simp_all add: own_metric_def status_key_def le_key_def)

lemma num_cong: "entry s k = entry s' k \<Longrightarrow> r_num k s = r_num k s'"
  by (rule read_other(4))


definition hello_route :: route where
  "hello_route = \<lparr>rt_guard = (\<lambda>q s. (Inr None, s)), rt_handler = (\<lambda>q s. (Inr (JStr ''hi''), s)), rt_status = 200\<rparr>"


lemma every_reply_shape:
  "(\<exists>j. fst (run_route E rt dur req s) = \<lparr>rp_status = rt_status rt, rp_body = JObj [(''data'', j)]\<rparr>)
   \<or> (\<exists>status text now. fst (run_route E rt dur req s) = \<lparr>rp_status = status,
        rp_body = JObj [(''statusCode'', JNum status), (''error'', text), (''timestamp'', JNum now)]\<rparr>)"
  by (auto simp: run_route_def exception_filter_def transform_intercept_def Let_def split: prod.split sum.split)

text \<open>whatever the guard and the handler do, the client gets the handler's value as \<open>data\<close> with the status of the
  route, or an error with its status, text and time: no exception goes further.\<close>

theorem every_reply_wrapped:
  "(\<exists>j. fst (run_route E rt dur req s) = \<lparr>rp_status = rt_status rt, rp_body = JObj [(''data'', j)]\<rparr>)
   \<or> (\<exists>status text now. fst (run_route E rt dur req s) = \<lparr>rp_status = status,
        rp_body = JObj [(''statusCode'', JNum status), (''error'', text), (''timestamp'', JNum now)]\<rparr>)"
  by (rule every_reply_shape)

text \<open>requests served one after the other leave no slot of their address taken, refused or answered.\<close>

theorem slots_given_back:
  assumes "\<forall>ip. 0 \<le> inflight st ip"
  shows "inflight (snd (serve E rt chaos dur req st)) = inflight st"
proof -
  obtain st1 tr r where rl: "rateLimit E (arrive req) st = (st1, tr, r)" by (cases "rateLimit E (arrive req) st")
  have i: "inflight st1 = (if tr then (inflight st)(getIp (arrive req) := inflight st (getIp (arrive req)) + 1) else inflight st)"
    using rateLimit_inflight [OF rl] by simp
  have t: "r = None \<Longrightarrow> tr"
    using rl by (auto simp: rateLimit_def Let_def split: prod.splits option.splits if_splits)
  have "0 \<le> inflight st ip" for ip using assms by simp
  then have f: "inflight (rl_finish (getIp (arrive req)) (st1\<lparr>rl_redis := s\<rparr>)) = inflight st"
    "inflight (rl_finish (getIp (arrive req)) st1) = inflight st" if tr for s
    using that i by (auto simp: rl_finish_def fun_eq_iff)
      (metis add.commute add_cancel_right_right add_nonneg_eq_0_iff one_neq_zero zero_le_one)+
  show ?thesis
    using rl i t f by (auto simp: serve_def Let_def split: prod.splits option.splits)
qed

lemma slots_given_back_witness:
  "inflight (snd (serve default_env hello_route False 5 (demo_request ''GET'' ''/a'' JNull) empty_rl)) = inflight empty_rl"
  by (rule slots_given_back) (simp add: empty_rl_def)

text \<open>A connection that breaks off closes without finishing: the limits registered for the end only, so the slot stays taken;
  and an address with all its slots taken is refused, at whatever time it comes.\<close>

fun limit_on_event :: "res_event \<Rightarrow> string \<Rightarrow> rl_state \<Rightarrow> rl_state" where
  "limit_on_event Finish ip st = rl_finish ip st"
| "limit_on_event Close ip st = st"

lemma broken_connections_keep_slots:
  assumes "rateLimit E req st = (st', True, r)"
  shows "inflight (limit_on_event Close (getIp req) st') (getIp req) = inflight st (getIp req) + 1"
    and "max_concurrent_per_ip E \<le> inflight st2 (getIp req2) \<Longrightarrow> snd (snd (rateLimit E req2 st2)) \<noteq> None"
  using rateLimit_inflight [OF assms]
  by (auto simp: rateLimit_def Let_def split: prod.split option.split)

text \<open>No user is known when the limits are applied: the limit by user and the exemption of administrators never apply.\<close>

lemma limits_know_no_user:
  "rl_baseline_user E (arrive req) s = (None, s) \<and> \<not> is_admin E (arrive req)
   \<and> serve E rt chaos dur (req\<lparr>rq_user_id := u, rq_user_email := e\<rparr>) st = serve E rt chaos dur req st"
  by (simp add: rl_baseline_user_def user_of_def is_admin_def arrive_def serve_def)

text \<open>What a guard refuses, no interceptor sees: it is not in the audit log of accesses.\<close>

lemma refusals_not_audited: "rt_guard rt req s = (Inl e, s1) \<Longrightarrow> snd (run_route E rt dur req s) = s1"
  by (simp add: run_route_def)

text \<open>The key checks of the experiment and of the feature flags throw a plain error with a \<open>status\<close>, which the filter does not read:
  the client is told of an internal error instead of a refusal.\<close>

lemma plain_error_is_500: "rp_status (exception_filter now (thrown_of (Crash ''Forbidden''))) = 500"
  by (simp add: exception_filter_def)

end
