(* ===== verification/Overlays.thy ===== *)
theory Overlays
  imports EditorClient Complex_Main "HOL-Library.List_Lexorder"
begin

text \<open>
  What is drawn over the editor and how its keys work: the carets of the others
  (\<open>web/src/components/RemotePresenceOverlay.tsx\<close>), the rectangles of claims, comments and the focus mode
  (\<open>web/src/components/EditorCollab.tsx\<close>, \<open>CommentsOverlay.tsx\<close>), the menu of blocks (\<open>SlashMenu.tsx\<close>), the toolbar and
  the shortcuts (\<open>Editor.tsx\<close>). Coordinates are rational numbers; where a position is on the screen is the argument
  \<open>coords\<close> (\<open>None\<close> when the editor throws), the rectangles of a range the argument \<open>client\<close>. Objects keyed by users
  are lists in the order the keys were set.
\<close>

section \<open>Rectangles\<close>

record coord =
  cd_left :: rat
  cd_top :: rat
  cd_bottom :: rat

record rect =
  rc_left :: rat
  rc_top :: rat
  rc_width :: rat
  rc_height :: rat

text \<open>The rectangle from one position to another, within the editor's box at \<open>(bl, bt)\<close>, with a margin and a least size.\<close>

definition span_rect :: "rat \<Rightarrow> rat \<Rightarrow> rat \<Rightarrow> rat \<times> rat \<Rightarrow> coord \<Rightarrow> coord \<Rightarrow> rect" where
  "span_rect pad minw minh box c1 c2 = \<lparr>
     rc_left = min (cd_left c1) (cd_left c2) - fst box - pad,
     rc_top = min (cd_top c1) (cd_top c2) - snd box - pad,
     rc_width = max minw (\<bar>cd_left c2 - cd_left c1\<bar> + 2 * pad),
     rc_height = max minh (max (cd_bottom c1) (cd_bottom c2) - min (cd_top c1) (cd_top c2) + 2 * pad)\<rparr>"

definition both :: "(int \<Rightarrow> coord option) \<Rightarrow> int \<Rightarrow> int \<Rightarrow> (coord \<times> coord) option" where
  "both coords a b = (case coords a of None \<Rightarrow> None | Some c1 \<Rightarrow> map_option (Pair c1) (coords b))"

text \<open>The rectangles shown stay those of the last time nothing was thrown.\<close>

definition focus_rect :: "(int \<Rightarrow> coord option) \<Rightarrow> rat \<times> rat \<Rightarrow> int \<Rightarrow> int \<Rightarrow> rect option \<Rightarrow> rect option" where
  "focus_rect coords box from to drawn =
     (case both coords from to of None \<Rightarrow> drawn | Some (c1, c2) \<Rightarrow> Some (span_rect 6 12 22 box c1 c2))"

definition claim_rects ::
  "(int \<Rightarrow> coord option) \<Rightarrow> rat \<times> rat \<Rightarrow> sec_claim list \<Rightarrow> (string \<times> rect \<times> string) list \<Rightarrow> (string \<times> rect \<times> string) list" where
  "claim_rects coords box ks drawn =
     (case those (map (\<lambda>k. map_option (\<lambda>(c1, c2). (sc_id k, span_rect 0 6 18 box c1 c2,
          ''Claimed by '' @ drop (length (sc_user k) - 4) (sc_user k))) (both coords (max 1 (sc_from k)) (max 1 (sc_to k)))) ks) of
        None \<Rightarrow> drawn | Some rs \<Rightarrow> rs)"

record cthread =
  ct_id :: string
  ct_anchor :: "(int \<times> int) option"
  ct_author :: string

text \<open>\<open>anchors\<close> are the ranges the editor has moved with the text, where it knows one.\<close>

definition comment_range :: "(string \<rightharpoonup> int \<times> int) \<Rightarrow> string \<Rightarrow> int \<times> int \<Rightarrow> int \<times> int" where
  "comment_range anchors i a = (let (from, to) = (case anchors i of Some r \<Rightarrow> r | None \<Rightarrow> a)
     in (max 1 (toInt32 from), max 1 (toInt32 to)))"

definition comment_rects ::
  "(int \<Rightarrow> coord option) \<Rightarrow> rat \<times> rat \<Rightarrow> (string \<rightharpoonup> int \<times> int) \<Rightarrow> cthread list
    \<Rightarrow> (string \<times> rect \<times> string) list \<Rightarrow> (string \<times> rect \<times> string) list" where
  "comment_rects coords box anchors ts drawn =
     (case those (map (\<lambda>t. case ct_anchor t of
          None \<Rightarrow> Some []
        | Some a \<Rightarrow> (case comment_range anchors (ct_id t) a of (f, g) \<Rightarrow>
            map_option (\<lambda>(c1, c2). [(ct_id t, span_rect 0 6 18 box c1 c2, colorForUser (ct_author t))]) (both coords f g))) ts) of
        None \<Rightarrow> drawn | Some rss \<Rightarrow> concat rss)"

section \<open>The carets of the others\<close>

record caret =
  mk_left :: rat
  mk_top :: rat
  mk_idle :: bool
  mk_typing :: bool
  mk_sels :: "rect list"

record overlay =
  ov_targets :: "(string \<times> rat \<times> rat) list"
  ov_smooth :: "(string \<times> rat \<times> rat) list"
  ov_trails :: "(string \<times> (rat \<times> rat \<times> int) list) list"
  ov_shown :: "(string \<times> caret) list"

definition no_overlay :: overlay where
  "no_overlay = \<lparr>ov_targets = [], ov_smooth = [], ov_trails = [], ov_shown = []\<rparr>"

definition safeCoords :: "(int \<Rightarrow> coord option) \<Rightarrow> int \<Rightarrow> int \<Rightarrow> coord option" where
  "safeCoords coords docsize pos = coords (max 1 (min pos docsize))"

definition selectionRects ::
  "(int \<Rightarrow> coord option) \<Rightarrow> (int \<Rightarrow> int \<Rightarrow> rect list option) \<Rightarrow> rat \<times> rat \<Rightarrow> int \<Rightarrow> int \<Rightarrow> rect list" where
  "selectionRects coords client box a h =
     (let from = min (toInt32 a) (toInt32 h); to = max (toInt32 a) (toInt32 h) in
      if from = to then []
      else case client from to of
        Some rs \<Rightarrow> take 20 (map (\<lambda>r. r\<lparr>rc_left := rc_left r - fst box, rc_top := rc_top r - snd box\<rparr>) rs)
      | None \<Rightarrow> (case both coords from to of
          Some (c1, c2) \<Rightarrow> [span_rect 0 2 12 box c1 c2]
        | None \<Rightarrow> []))"

text \<open>One user of the calculation.\<close>

definition place ::
  "int \<Rightarrow> rat \<times> rat \<Rightarrow> int \<Rightarrow> (int \<Rightarrow> coord option) \<Rightarrow> (int \<Rightarrow> int \<Rightarrow> rect list option)
    \<Rightarrow> string \<times> cursor \<Rightarrow> overlay \<times> (string \<times> caret) list \<Rightarrow> overlay \<times> (string \<times> caret) list" where
  "place now box docsize coords client up acc =
     (case up of (uid, p) \<Rightarrow> case acc of (ov, drawn) \<Rightarrow>
        (case safeCoords coords docsize (cu_head p) of
           None \<Rightarrow> (ov, drawn)
         | Some c \<Rightarrow>
             let t = (cd_left c - fst box, cd_top c - snd box);
                 sm = (if map_of (ov_smooth ov) uid = None then map_put uid t (ov_smooth ov) else ov_smooth ov);
                 s = (case map_of sm uid of Some q \<Rightarrow> q | None \<Rightarrow> t)
             in (ov\<lparr>ov_targets := map_put uid t (ov_targets ov), ov_smooth := sm\<rparr>,
                 map_put uid \<lparr>mk_left = fst s, mk_top = snd s, mk_idle = now - cu_ts p > 10000, mk_typing = cu_typing p,
                    mk_sels = selectionRects coords client box (cu_anchor p) (cu_head p)\<rparr> drawn)))"

text \<open>Carets in the same place are moved apart, in the order of their users.\<close>

definition caret_key :: "caret \<Rightarrow> int \<times> int" where
  "caret_key m = (\<lfloor>mk_left m + 1 / 2\<rfloor>, \<lfloor>mk_top m + 1 / 2\<rfloor>)"

definition place_index :: "(string \<times> caret) list \<Rightarrow> string \<Rightarrow> caret \<Rightarrow> nat" where
  "place_index drawn uid m =
     length (takeWhile (\<lambda>u. u \<noteq> uid) (sort (map fst (filter (\<lambda>q. caret_key (snd q) = caret_key m) drawn))))"

definition move_apart :: "(string \<times> caret) list \<Rightarrow> (string \<times> caret) list" where
  "move_apart drawn = map (\<lambda>(uid, m). (uid, m\<lparr>mk_left := mk_left m + 8 * of_nat (place_index drawn uid m),
      mk_top := mk_top m + 2 * of_nat (place_index drawn uid m)\<rparr>)) drawn"

definition overlay_calc ::
  "int \<Rightarrow> rat \<times> rat \<Rightarrow> int \<Rightarrow> (int \<Rightarrow> coord option) \<Rightarrow> (int \<Rightarrow> int \<Rightarrow> rect list option)
    \<Rightarrow> (string \<times> cursor) list \<Rightarrow> overlay \<Rightarrow> overlay" where
  "overlay_calc now box docsize coords client presences ov =
     (case fold (place now box docsize coords client) presences (ov, []) of
        (ov1, drawn) \<Rightarrow> ov1\<lparr>ov_shown := move_apart drawn\<rparr>)"

text \<open>One frame of the animation. \<open>presences\<close> and \<open>positions\<close> are those of the rendering that started it.\<close>

definition smooth_step :: "rat \<Rightarrow> rat \<Rightarrow> rat" where
  "smooth_step s tgt = s + (tgt - s) * (1 / 4)"

definition animate_one ::
  "int \<Rightarrow> (string \<times> cursor) list \<Rightarrow> (string \<times> caret) list \<Rightarrow> string \<times> rat \<times> rat
    \<Rightarrow> overlay \<times> (string \<times> caret) list \<Rightarrow> overlay \<times> (string \<times> caret) list" where
  "animate_one now presences positions ut acc =
     (case ut of (uid, tx, ty) \<Rightarrow> case acc of (ov, drawn) \<Rightarrow>
        let s = (case map_of (ov_smooth ov) uid of Some q \<Rightarrow> q | None \<Rightarrow> (tx, ty));
            n = (smooth_step (fst s) tx, smooth_step (snd s) ty);
            arr = (case map_of (ov_trails ov) uid of Some a \<Rightarrow> a | None \<Rightarrow> []) @ [(fst n, snd n, now)]
        in (ov\<lparr>ov_smooth := map_put uid n (ov_smooth ov), ov_trails := map_put uid (drop (length arr - 12) arr) (ov_trails ov)\<rparr>,
            map_put uid \<lparr>mk_left = fst n, mk_top = snd n, mk_idle = False,
               mk_typing = (case map_of presences uid of Some p \<Rightarrow> cu_typing p | None \<Rightarrow> False),
               mk_sels = (case map_of positions uid of Some m \<Rightarrow> mk_sels m | None \<Rightarrow> [])\<rparr> drawn))"

definition animate :: "int \<Rightarrow> (string \<times> cursor) list \<Rightarrow> (string \<times> caret) list \<Rightarrow> overlay \<Rightarrow> overlay" where
  "animate now presences positions ov =
     (case fold (animate_one now presences positions) (ov_targets ov) (ov, []) of
        (ov1, drawn) \<Rightarrow> ov1\<lparr>ov_shown := fold (\<lambda>(k, m). map_put k m) drawn (ov_shown ov)\<rparr>)"

section \<open>Carets stay apart, and arrive\<close>

lemma index_nth: "x \<in> set xs \<Longrightarrow> length (takeWhile (\<lambda>u. u \<noteq> x) xs) < length xs \<and> xs ! length (takeWhile (\<lambda>u. u \<noteq> x) xs) = x"
  by (induction xs) auto

lemma index_inj:
  "x \<in> set xs \<Longrightarrow> length (takeWhile (\<lambda>u. u \<noteq> x) xs) = length (takeWhile (\<lambda>u. u \<noteq> y) xs) \<Longrightarrow> y \<in> set xs \<Longrightarrow> x = y"
  by (metis index_nth)

text \<open>two carets that round to the same place are drawn more than seven units apart.\<close>

theorem carets_moved_apart:
  assumes "(u, m) \<in> set drawn" and "(v, n) \<in> set drawn" and "u \<noteq> v" and "caret_key m = caret_key n"
  shows "\<exists>m' n'. (u, m') \<in> set (move_apart drawn) \<and> (v, n') \<in> set (move_apart drawn) \<and> 7 < \<bar>mk_left m' - mk_left n'\<bar>"
proof -
  let ?g = "sort (map fst (filter (\<lambda>q. caret_key (snd q) = caret_key m) drawn))"
  let ?i = "place_index drawn u m" and ?j = "place_index drawn v n"
  have "u \<in> set ?g" "v \<in> set ?g" using assms by (force simp: image_iff)+
  then have ij: "?i \<noteq> ?j"
    using index_inj [of u ?g v] assms(3,4) by (auto simp: place_index_def)
  have "\<lfloor>mk_left m + 1 / 2\<rfloor> = \<lfloor>mk_left n + 1 / 2\<rfloor>" using assms(4) by (simp add: caret_key_def)
  then have c: "\<bar>mk_left m - mk_left n\<bar> < 1" by linarith
  have "1 \<le> \<bar>int ?i - int ?j\<bar>" using ij by linarith
  then have "1 \<le> \<bar>rat_of_int (int ?i - int ?j)\<bar>" by (metis of_int_1_le_iff of_int_abs)
  then have "1 \<le> \<bar>(of_nat ?i :: rat) - of_nat ?j\<bar>" by simp
  with c have "7 < \<bar>(mk_left m + 8 * of_nat ?i) - (mk_left n + 8 * of_nat ?j)\<bar>" by linarith
  moreover have "(u, m\<lparr>mk_left := mk_left m + 8 * of_nat ?i, mk_top := mk_top m + 2 * of_nat ?i\<rparr>) \<in> set (move_apart drawn)"
    "(v, n\<lparr>mk_left := mk_left n + 8 * of_nat ?j, mk_top := mk_top n + 2 * of_nat ?j\<rparr>) \<in> set (move_apart drawn)"
    using assms(1,2) by (force simp: move_apart_def image_iff)+
  ultimately show ?thesis
    by (intro exI [of _ "m\<lparr>mk_left := mk_left m + 8 * of_nat ?i, mk_top := mk_top m + 2 * of_nat ?i\<rparr>"]
        exI [of _ "n\<lparr>mk_left := mk_left n + 8 * of_nat ?j, mk_top := mk_top n + 2 * of_nat ?j\<rparr>"]) simp
qed

definition demo_caret :: "rat \<Rightarrow> caret" where
  "demo_caret x = \<lparr>mk_left = x, mk_top = 0, mk_idle = False, mk_typing = False, mk_sels = []\<rparr>"

lemma carets_moved_apart_witness:
  "\<exists>m' n'. (''a'', m') \<in> set (move_apart [(''b'', demo_caret 3), (''a'', demo_caret 3)])
     \<and> (''b'', n') \<in> set (move_apart [(''b'', demo_caret 3), (''a'', demo_caret 3)]) \<and> 7 < \<bar>mk_left m' - mk_left n'\<bar>"
  by (rule carets_moved_apart [of _ "demo_caret 3" _ _ "demo_caret 3"]) simp_all

text \<open>with every frame a caret is a quarter nearer to its place: what is missing after a number of frames is that
  power of three quarters of what was missing at first.\<close>

theorem caret_arrives:
  "tgt - ((\<lambda>s. smooth_step s tgt) ^^ n) s = (3 / 4) ^ n * (tgt - s)"
proof (induction n)
  case (Suc n)
  have "tgt - smooth_step x tgt = 3 / 4 * (tgt - x)" for x by (simp add: smooth_step_def field_simps)
  then show ?case by (simp only: funpow.simps comp_apply Suc power_Suc mult.assoc)
qed simp

text \<open>The state of the drawing: trails of at most twelve points, and everything smoothed has a target.\<close>

definition overlay_ok :: "overlay \<Rightarrow> bool" where
  "overlay_ok ov \<longleftrightarrow> (\<forall>uid tr. map_of (ov_trails ov) uid = Some tr \<longrightarrow> length tr \<le> 12 \<and> tr \<noteq> [])
     \<and> dom (map_of (ov_trails ov)) \<subseteq> dom (map_of (ov_targets ov))
     \<and> dom (map_of (ov_smooth ov)) = dom (map_of (ov_targets ov))"

lemma place_ok: "overlay_ok (fst acc) \<Longrightarrow> overlay_ok (fst (place now box docsize coords client up acc))"
  by (cases up; cases acc) (auto simp: place_def overlay_ok_def Let_def split: option.split)

lemma animate_one_ok:
  assumes "overlay_ok (fst acc)" and "fst ut \<in> dom (map_of (ov_targets (fst acc)))"
  shows "overlay_ok (fst (animate_one now ps qs ut acc)) \<and> ov_targets (fst (animate_one now ps qs ut acc)) = ov_targets (fst acc)"
proof (cases ut)
  case (fields uid tx ty)
  obtain ov d where acc: "acc = (ov, d)" by (cases acc)
  let ?old = "case map_of (ov_trails ov) uid of Some a \<Rightarrow> a | None \<Rightarrow> []"
  have "dom ((map_of (ov_smooth ov))(uid \<mapsto> n)) = dom (map_of (ov_targets ov))" for n
    using assms fields acc by (auto simp: overlay_ok_def)
  then show ?thesis
    using assms fields acc by (auto simp: animate_one_def overlay_ok_def Let_def)
qed

datatype overlay_event =
    Calc int "rat \<times> rat" int "int \<Rightarrow> coord option" "int \<Rightarrow> int \<Rightarrow> rect list option" "(string \<times> cursor) list"
  | Frame int "(string \<times> cursor) list" "(string \<times> caret) list"

fun overlay_step :: "overlay_event \<Rightarrow> overlay \<Rightarrow> overlay" where
  "overlay_step (Calc now box docsize coords client ps) ov = overlay_calc now box docsize coords client ps ov"
| "overlay_step (Frame now ps qs) ov = animate now ps qs ov"

text \<open>whatever is calculated and however many frames are drawn, a trail has at most twelve points, and what is drawn
  smoothly has a place to go to.\<close>

theorem overlay_stays_ok: "overlay_ok (fold overlay_step evs no_overlay)"
proof -
  have places: "overlay_ok (fst acc) \<Longrightarrow> overlay_ok (fst (fold (place now box docsize coords client) ps acc))"
    for now box docsize coords client ps acc
    by (induction ps arbitrary: acc) (simp_all add: place_ok)
  have frames: "overlay_ok (fst (fold (animate_one now ps qs) uts acc))"
    if "overlay_ok (fst acc)" "fst ` set uts \<subseteq> dom (map_of (ov_targets (fst acc)))" for now ps qs uts acc
    using that
  proof (induction uts arbitrary: acc)
    case (Cons ut uts)
    have "overlay_ok (fst (animate_one now ps qs ut acc)) \<and> ov_targets (fst (animate_one now ps qs ut acc)) = ov_targets (fst acc)"
      using Cons.prems by (intro animate_one_ok) auto
    with Cons show ?case by simp
  qed simp
  have fr: "overlay_ok ov \<Longrightarrow> overlay_ok (ov\<lparr>ov_shown := d\<rparr>)" for ov d
    by (simp add: overlay_ok_def)
  have step: "overlay_ok (overlay_step e ov)" if "overlay_ok ov" for e ov
  proof (cases e)
    case (Calc now box docsize coords client ps)
    with that places [of "(ov, [])" now box docsize coords client ps] show ?thesis
      by (auto simp: overlay_calc_def split: prod.split intro: fr)
  next
    case (Frame now ps qs)
    with that frames [of "(ov, [])" "ov_targets ov" now ps qs] show ?thesis
      by (auto simp: animate_def dom_map_of_conv_image_fst split: prod.split intro: fr)
  qed
  have "overlay_ok ov \<Longrightarrow> overlay_ok (fold overlay_step evs ov)" for ov
    by (induction evs arbitrary: ov) (simp_all add: step)
  moreover have "overlay_ok no_overlay" by (simp add: overlay_ok_def no_overlay_def)
  ultimately show ?thesis by simp
qed

text \<open>Nothing takes a target away: a frame draws whoever had one, also who has left the document, and as not idle.\<close>

lemma map_of_puts: "map_of (fold (\<lambda>(k, m). map_put k m) xs ys) = (\<lambda>k. case map_of (rev xs) k of Some m \<Rightarrow> Some m | None \<Rightarrow> map_of ys k)"
  by (induction xs arbitrary: ys) (auto simp: fun_eq_iff map_add_def split: option.split)

lemma frame_draws_targets:
  assumes "fold (animate_one now ps qs) uts (ov, []) = (ov1, d)"
  shows "distinct (map fst d) \<and> (uid \<in> fst ` set uts \<longrightarrow> (\<exists>m. map_of d uid = Some m \<and> \<not> mk_idle m))"
  using assms
proof (induction uts arbitrary: ov1 d rule: rev_induct)
  case (snoc ut uts)
  obtain u tx ty where ut: "ut = (u, tx, ty)" by (cases ut)
  obtain ov2 d2 where f: "fold (animate_one now ps qs) uts (ov, []) = (ov2, d2)"
    by (cases "fold (animate_one now ps qs) uts (ov, [])")
  have "animate_one now ps qs ut (ov2, d2) = (ov1, d)" using snoc.prems by (simp add: f)
  then obtain m where "d = map_put u m d2" "\<not> mk_idle m"
    by (auto simp: animate_one_def ut Let_def)
  with snoc.IH [OF f] show ?case by (auto simp: ut distinct_put)
qed simp

lemma who_left_is_drawn:
  assumes "map_of (ov_targets ov) uid = Some t"
  shows "\<exists>m. map_of (ov_shown (animate now [] qs ov)) uid = Some m \<and> \<not> mk_idle m"
proof -
  obtain ov1 d where f: "fold (animate_one now [] qs) (ov_targets ov) (ov, []) = (ov1, d)"
    by (cases "fold (animate_one now [] qs) (ov_targets ov) (ov, [])")
  have "uid \<in> fst ` set (ov_targets ov)" using assms by (force dest: map_of_SomeD)
  then obtain m where "map_of d uid = Some m" "\<not> mk_idle m" "distinct (map fst d)"
    using frame_draws_targets [OF f, of uid] by auto
  moreover from this have "map_of (rev d) uid = Some m"
    by (intro map_of_is_SomeI) (auto simp: rev_map [symmetric] dest: map_of_SomeD)
  ultimately show ?thesis by (simp add: animate_def f map_of_puts)
qed

section \<open>Keys\<close>

text \<open>The menu of blocks: the entry in focus of \<open>n\<close>, and what a key does: the new entry, or the entry chosen and that
  the menu closes.\<close>

datatype menu_result = Focus nat | Choose nat | Dismiss | Ignored

definition slash_key :: "nat \<Rightarrow> nat \<Rightarrow> string \<Rightarrow> menu_result" where
  "slash_key n idx key =
     (if key = ''Escape'' then Dismiss
      else if key = ''ArrowDown'' then Focus ((idx + 1) mod n)
      else if key = ''ArrowUp'' then Focus ((idx + n - 1) mod n)
      else if key = ''Enter'' then Choose idx
      else Ignored)"

datatype block = Paragraph | Heading int | BulletList | OrderedList | CodeBlock | Blockquote

definition slash_items :: "(string \<times> string \<times> block) list" where
  "slash_items = [(''p'', ''Paragraph'', Paragraph), (''h1'', ''Heading 1'', Heading 1), (''h2'', ''Heading 2'', Heading 2),
     (''ul'', ''Bullet list'', BulletList), (''ol'', ''Ordered list'', OrderedList), (''code'', ''Code block'', CodeBlock),
     (''quote'', ''Blockquote'', Blockquote)]"

text \<open>The menu over a sequence of keys: the entry in focus, and what was chosen if it has closed.\<close>

fun menu_step :: "string \<Rightarrow> nat + block option \<Rightarrow> nat + block option" where
  "menu_step key (Inl idx) = (case slash_key (length slash_items) idx key of
     Focus i \<Rightarrow> Inl i
   | Choose i \<Rightarrow> Inr (if i < length slash_items then Some (snd (snd (slash_items ! i))) else None)
   | Dismiss \<Rightarrow> Inr None
   | Ignored \<Rightarrow> Inl idx)"
| "menu_step key (Inr r) = Inr r"

text \<open>The toolbar: the button in focus of \<open>n\<close>.\<close>

definition toolbar_key :: "nat \<Rightarrow> string \<Rightarrow> nat option \<Rightarrow> nat option" where
  "toolbar_key n key focus = (case focus of None \<Rightarrow> None | Some idx \<Rightarrow>
     if key = ''ArrowRight'' then Some ((idx + 1) mod n)
     else if key = ''ArrowLeft'' then Some ((idx + n - 1) mod n)
     else Some idx)"

text \<open>whatever keys are pressed in the menu of blocks, the entry in focus is one of them, and Enter chooses the one
  in focus.\<close>

theorem menu_focus_in_range:
  "case fold menu_step ks (Inl 0) of
     Inl idx \<Rightarrow> idx < length slash_items \<and> menu_step ''Enter'' (Inl idx) = Inr (Some (snd (snd (slash_items ! idx))))
   | Inr r \<Rightarrow> True"
proof -
  let ?ok = "\<lambda>s. case s of Inl idx \<Rightarrow> idx < length slash_items | Inr r \<Rightarrow> True"
  have pos: "0 < length slash_items" by (simp add: slash_items_def)
  have "?ok s \<Longrightarrow> ?ok (menu_step key s)" for key s
    using pos by (cases s) (auto simp: slash_key_def)
  then have "?ok s \<Longrightarrow> ?ok (fold menu_step ks s)" for s
    by (induction ks arbitrary: s) simp_all
  from this [of "Inl 0"] pos show ?thesis
    by (auto simp: slash_key_def split: sum.splits)
qed

text \<open>in the toolbar the left arrow takes back what the right arrow does, from every button.\<close>

theorem toolbar_left_undoes_right:
  assumes "idx < n"
  shows "toolbar_key n ''ArrowLeft'' (toolbar_key n ''ArrowRight'' (Some idx)) = Some idx"
proof (cases "idx + 1 = n")
  case False
  with assms have "(idx + 1) mod n = idx + 1" "(idx + 1 + n - 1) mod n = idx" by simp_all
  then show ?thesis by (simp add: toolbar_key_def)
qed (use assms in \<open>auto simp: toolbar_key_def\<close>)

lemma toolbar_left_undoes_right_witness:
  "toolbar_key 12 ''ArrowLeft'' (toolbar_key 12 ''ArrowRight'' (Some 11)) = Some 11"
  by (rule toolbar_left_undoes_right) simp

text \<open>The shortcuts of the editor. \<open>parseInt\<close> of a key that does not begin with a digit is not a number: \<open>None\<close>.\<close>

datatype shortcut = ToggleUnderline | ToggleHeading "int option" | ToggleMenu | OtherKey

definition key_digit :: "string \<Rightarrow> int option" where
  "key_digit key = (case takeWhile is_digit key of [] \<Rightarrow> None | ds \<Rightarrow> Some (int (read_nat ds)))"

definition shortcut_of :: "bool \<Rightarrow> bool \<Rightarrow> string \<Rightarrow> shortcut" where
  "shortcut_of ctrl alt key =
     (if ctrl \<and> to_lower key = ''u'' then ToggleUnderline
      else if alt \<and> list_ex (\<lambda>c. c \<in> set ''123456'') key then ToggleHeading (key_digit key)
      else if ctrl \<and> key = ''/'' then ToggleMenu
      else OtherKey)"

text \<open>The expression is not anchored: with Alt a function key is taken for a heading, of no level.\<close>

lemma function_keys_are_headings: "shortcut_of False True ''F4'' = ToggleHeading None"
  by code_simp

section \<open>Typing\<close>

text \<open>Each key that is no shortcut announces typing, and takes it back 1.2 seconds later: what is sent for keys at
  the given times, in the order of time.\<close>

definition typing_sends :: "int list \<Rightarrow> (int \<times> bool) list" where
  "typing_sends ts = sort_key fst (map (\<lambda>t. (t, True)) ts @ map (\<lambda>t. (t + 1200, False)) ts)"

text \<open>The timers of earlier keys are not cleared: who goes on typing is announced as not typing.\<close>

lemma typing_taken_back_while_typing:
  "typing_sends [0, 400, 800, 1100] = [(0, True), (400, True), (800, True), (1100, True),
     (1200, False), (1600, False), (2000, False), (2300, False)]"
  by (simp add: typing_sends_def insort_key_def)

lemma sorted_to_last: "sorted (map fst xs) \<Longrightarrow> x \<in> set xs \<Longrightarrow> fst x \<le> fst (last xs)"
  by (induction xs) auto

text \<open>after the last key every editor is told, 1.2 seconds later, that nobody types any more: the last message
  is a no.\<close>

theorem typing_ends:
  assumes "ts \<noteq> []"
  shows "last (typing_sends ts) = (Max (set ts) + 1200, False)"
proof -
  let ?xs = "map (\<lambda>t. (t, True)) ts @ map (\<lambda>t. (t + 1200, False)) ts"
  have ne: "typing_sends ts \<noteq> []" using assms by (simp add: typing_sends_def flip: set_empty)
  have "last (typing_sends ts) \<in> set ?xs" using last_in_set [OF ne] by (simp add: typing_sends_def)
  have top: "fst x \<le> fst (last (typing_sends ts))" if "x \<in> set ?xs" for x
    using sorted_to_last [of "typing_sends ts" x] that by (simp add: typing_sends_def)
  have mx: "Max (set ts) \<in> set ts" using assms by simp
  then have "Max (set ts) + 1200 \<le> fst (last (typing_sends ts))" using top [of "(Max (set ts) + 1200, False)"] by simp
  moreover from \<open>last (typing_sends ts) \<in> set ?xs\<close> obtain t where t: "t \<in> set ts"
    "last (typing_sends ts) = (t, True) \<or> last (typing_sends ts) = (t + 1200, False)" by auto
  moreover obtain M where M: "M = Max (set ts)" by simp
  moreover have "t \<le> M" using t(1) M by simp
  ultimately show ?thesis unfolding M [symmetric] by auto
qed

lemma typing_ends_witness: "last (typing_sends [5, 7]) = (1207, False)"
  using typing_ends [of "[5, 7]"] by simp

section \<open>Claiming by a long press\<close>

text \<open>A touch sets a timer of 700 ms, its end or another touch clears it; \<open>touch_run\<close> gives the times at which a claim
  of the selection is sent, for events in the order of time.\<close>

datatype touch = TouchStart | TouchEnd

fun touch_run :: "(int \<times> touch) list \<Rightarrow> int option \<Rightarrow> int list" where
  "touch_run [] timer = (case timer of None \<Rightarrow> [] | Some due \<Rightarrow> [due])"
| "touch_run ((t, e) # es) timer =
     (case timer of None \<Rightarrow> [] | Some due \<Rightarrow> if due \<le> t then [due] else [])
     @ touch_run es (if e = TouchStart then Some (t + 700) else None)"

lemma touch_run_held:
  "sorted (map fst es) \<Longrightarrow> due \<in> set (touch_run es timer) \<Longrightarrow>
     (timer = Some due \<and> list_all (\<lambda>p. due \<le> fst p) (take 1 es))
     \<or> (\<exists>i < length es. es ! i = (due - 700, TouchStart) \<and> list_all (\<lambda>p. due \<le> fst p) (drop (i + 1) es))"
proof (induction es arbitrary: timer)
  case (Cons p es)
  obtain t e where p: "p = (t, e)" by (cases p)
  have s: "sorted (map fst es)" and nx: "list_all (\<lambda>q. due \<le> fst q) (take 1 es) \<Longrightarrow> list_all (\<lambda>q. due \<le> fst q) es"
    using Cons.prems(1) by (cases es; auto simp: list_all_iff)+
  show ?case
  proof (cases "due \<in> set (touch_run es (if e = TouchStart then Some (t + 700) else None))")
    case True
    from Cons.IH [OF s this] show ?thesis
    proof
      assume a: "(if e = TouchStart then Some (t + 700) else None) = Some due \<and> list_all (\<lambda>p. due \<le> fst p) (take 1 es)"
      then have "(p # es) ! 0 = (due - 700, TouchStart)" by (auto simp: p split: if_splits)
      with a nx show ?thesis by (intro disjI2 exI [of _ 0]) simp
    next
      assume "\<exists>i < length es. es ! i = (due - 700, TouchStart) \<and> list_all (\<lambda>p. due \<le> fst p) (drop (i + 1) es)"
      then obtain i where "i < length es" "es ! i = (due - 700, TouchStart)" "list_all (\<lambda>p. due \<le> fst p) (drop (i + 1) es)" by blast
      then show ?thesis by (intro disjI2 exI [of _ "Suc i"]) simp
    qed
  next
    case False
    with Cons.prems(2) show ?thesis by (auto simp: p split: option.splits if_splits)
  qed
qed (simp split: option.splits)

text \<open>a claim is sent only for a touch that was held: 700 ms before it a touch began, and nothing happened in between.\<close>

theorem claim_needs_long_press:
  assumes "sorted (map fst es)" and "due \<in> set (touch_run es None)"
  shows "\<exists>i < length es. es ! i = (due - 700, TouchStart) \<and> list_all (\<lambda>p. due \<le> fst p) (drop (i + 1) es)"
  using touch_run_held [OF assms] by simp

definition demo_touches :: "(int \<times> touch) list" where
  "demo_touches = [(0, TouchStart), (300, TouchEnd), (1000, TouchStart), (2000, TouchEnd)]"

lemma claim_needs_long_press_witness:
  "touch_run demo_touches None = [1700]
   \<and> (\<exists>i < length demo_touches. demo_touches ! i = (1700 - 700, TouchStart) \<and> list_all (\<lambda>p. 1700 \<le> fst p) (drop (i + 1) demo_touches))"
proof
  show r: "touch_run demo_touches None = [1700]" by (simp add: demo_touches_def)
  show "\<exists>i < length demo_touches. demo_touches ! i = (1700 - 700, TouchStart) \<and> list_all (\<lambda>p. 1700 \<le> fst p) (drop (i + 1) demo_touches)"
  proof (rule claim_needs_long_press)
    show "1700 \<in> set (touch_run demo_touches None)" by (simp add: r)
  qed (simp add: demo_touches_def)
qed

section \<open>What is said, and preferences\<close>

definition userLabel :: "string \<Rightarrow> string" where
  "userLabel uid = ''User '' @ drop (length uid - 4) uid"

definition announcement :: "pres_msg \<Rightarrow> string option" where
  "announcement p = (if pm_userId p = [] then None
     else Some (userLabel (pm_userId p) @ (if pm_typing p then '' typing'' else '' moved cursor'')))"

definition toast_text :: "string \<Rightarrow> string \<Rightarrow> string" where
  "toast_text kind text = (if kind = ''mention'' then ''You were mentioned'' else if kind = ''reply'' then ''New reply'' else ''Notification'')
     @ (if text \<noteq> [] then '': '' @ text else [])"

record collab_prefs =
  cp_voice :: bool
  cp_notify :: bool
  cp_compact :: bool

definition first_prefs :: collab_prefs where
  "first_prefs = \<lparr>cp_voice = False, cp_notify = False, cp_compact = True\<rparr>"

definition prefs_json :: "collab_prefs \<Rightarrow> json" where
  "prefs_json p = JObj [(''voice'', JBool (cp_voice p)), (''notify'', JBool (cp_notify p)), (''compact'', JBool (cp_compact p))]"

text \<open>\<open>store\<close> is the browser's storage, holding what \<open>JSON.stringify\<close> made; the preferences are read for their truth.\<close>

definition load_prefs :: "(string \<rightharpoonup> json) \<Rightarrow> collab_prefs" where
  "load_prefs store = (case store ''collab-prefs'' of
     None \<Rightarrow> first_prefs
   | Some j \<Rightarrow> \<lparr>cp_voice = truthy (jfield ''voice'' j), cp_notify = truthy (jfield ''notify'' j), cp_compact = truthy (jfield ''compact'' j)\<rparr>)"

definition update_prefs :: "(collab_prefs \<Rightarrow> collab_prefs) \<Rightarrow> collab_prefs \<times> (string \<rightharpoonup> json) \<Rightarrow> collab_prefs \<times> (string \<rightharpoonup> json)" where
  "update_prefs partial ps = (case ps of (prev, store) \<Rightarrow>
     (partial prev, store(''collab-prefs'' \<mapsto> prefs_json (partial prev))))"

text \<open>after any changes the editor opens again with the preferences it was left with.\<close>

theorem prefs_survive_reload:
  assumes "ps = fold update_prefs (f # fs) (load_prefs store, store)"
  shows "load_prefs (snd ps) = fst ps"
proof -
  have one: "load_prefs (snd (update_prefs f qs)) = fst (update_prefs f qs)" for f qs
    by (cases qs) (simp add: update_prefs_def load_prefs_def prefs_json_def)
  have "load_prefs (snd qs) = fst qs \<Longrightarrow> load_prefs (snd (fold update_prefs fs qs)) = fst (fold update_prefs fs qs)" for qs fs
    by (induction fs arbitrary: qs) (simp_all add: one)
  from this [OF one] show ?thesis by (simp add: assms)
qed

lemma prefs_survive_reload_witness:
  "cp_voice (load_prefs (snd (update_prefs (\<lambda>p. p\<lparr>cp_voice := True\<rparr>) (load_prefs Map.empty, Map.empty))))"
  using prefs_survive_reload [of "update_prefs (\<lambda>p. p\<lparr>cp_voice := True\<rparr>) (load_prefs Map.empty, Map.empty)"
      "\<lambda>p. p\<lparr>cp_voice := True\<rparr>" "[]" Map.empty]
  by (simp add: update_prefs_def)

end
