(* ===== verification/Pages.thy ===== *)
theory Pages
  imports HttpServer WebShell Provider
begin

text \<open>
  The pages of the browser (\<open>web/src/app\<close>) and the bodies the API accepts. The first part is the validation pipe with
  the classes it checks (the \<open>dto\<close> files), the second the requests of the pages and what they make of the answers, the
  third what comes of the two together: the server wraps every answer in an object, and the pages do not unwrap it.
\<close>

section \<open>Validation\<close>

text \<open>The rules of \<open>class-validator\<close> the classes use. What counts as an address is the argument \<open>email\<close>.\<close>

datatype rule = IsString | MinLen nat | LenBetween nat nat | IsMongoId | IsEmail | SlugChars | OneOf "string list" | IsArray

definition slug_char :: "char \<Rightarrow> bool" where
  "slug_char c \<longleftrightarrow> (CHR ''a'' \<le> c \<and> c \<le> CHR ''z'') \<or> (CHR ''0'' \<le> c \<and> c \<le> CHR ''9'') \<or> c = CHR ''-''"

fun rule_ok :: "(string \<Rightarrow> bool) \<Rightarrow> json \<Rightarrow> rule \<Rightarrow> bool" where
  "rule_ok email (JStr s) r = (case r of
       IsString \<Rightarrow> True
     | MinLen n \<Rightarrow> n \<le> length s
     | LenBetween a b \<Rightarrow> a \<le> length s \<and> length s \<le> b
     | IsMongoId \<Rightarrow> all_hex 24 s
     | IsEmail \<Rightarrow> email s
     | SlugChars \<Rightarrow> s \<noteq> [] \<and> list_all slug_char s
     | OneOf ws \<Rightarrow> s \<in> set ws
     | IsArray \<Rightarrow> False)"
| "rule_ok email (JArr xs) r = (r = IsArray)"
| "rule_ok email _ r = False"

text \<open>A class: its properties, which may be left out, and their rules.\<close>

type_synonym dto = "(string \<times> bool \<times> rule list) list"

definition field_ok :: "(string \<Rightarrow> bool) \<Rightarrow> (string \<times> json) list \<Rightarrow> string \<times> bool \<times> rule list \<Rightarrow> bool" where
  "field_ok email kvs p = (case p of (f, optional, rules) \<Rightarrow>
     (case map_of kvs f of
        None \<Rightarrow> optional
      | Some j \<Rightarrow> (optional \<and> j = JNull) \<or> list_all (rule_ok email j) rules))"

text \<open>Only known properties (\<open>forbidNonWhitelisted\<close>), each by its rules.\<close>

definition valid_body :: "(string \<Rightarrow> bool) \<Rightarrow> dto \<Rightarrow> json \<Rightarrow> bool" where
  "valid_body email cls body = (case body of
     JObj kvs \<Rightarrow> list_all (\<lambda>(k, _). k \<in> set (map fst cls)) kvs \<and> list_all (field_ok email kvs) cls
   | _ \<Rightarrow> False)"

definition register_dto :: dto where
  "register_dto = [(''email'', False, [IsEmail]), (''password'', False, [IsString, MinLen 8]), (''name'', True, [IsString])]"

definition login_dto :: dto where
  "login_dto = [(''email'', False, [IsEmail]), (''password'', False, [IsString, MinLen 8]), (''otp'', True, [IsString]),
     (''rememberMe'', True, [])]"

definition verify_email_dto :: dto where
  "verify_email_dto = [(''token'', False, [IsString, LenBetween 16 200])]"

definition request_reset_dto :: dto where
  "request_reset_dto = [(''email'', False, [IsEmail])]"

definition reset_password_dto :: dto where
  "reset_password_dto = [(''token'', False, [IsString, LenBetween 16 200]), (''newPassword'', False, [IsString, MinLen 8])]"

definition create_workspace_dto :: dto where
  "create_workspace_dto = [(''name'', False, [IsString, MinLen 2]), (''slug'', False, [IsString, SlugChars]), (''ownerId'', False, [IsMongoId])]"

definition update_workspace_dto :: dto where
  "update_workspace_dto = [(''name'', True, [IsString, MinLen 2]), (''slug'', True, [IsString, SlugChars])]"

definition create_document_dto :: dto where
  "create_document_dto = [(''workspaceId'', False, [IsMongoId]), (''title'', False, [IsString, MinLen 1]), (''ownerId'', False, [IsMongoId])]"

definition update_document_dto :: dto where
  "update_document_dto = [(''title'', True, [IsString, MinLen 1]), (''status'', True, [OneOf [''active'', ''archived'']]), (''tags'', True, [IsArray])]"

section \<open>The requests of the pages\<close>

text \<open>The pages print the token into the header whether there is one or not.\<close>

definition page_auth :: "string option \<Rightarrow> (string \<times> string) list" where
  "page_auth token = [(''Authorization'', ''Bearer '' @ js_text (map_option JStr token))]"

definition json_type :: "(string \<times> string) list" where
  "json_type = [(''Content-Type'', ''application/json'')]"

definition page_request :: "string \<Rightarrow> string \<Rightarrow> (string \<times> string) list \<Rightarrow> string \<Rightarrow> json option \<Rightarrow> http_request" where
  "page_request verb base headers path body = \<lparr>hr_url = base @ path, hr_method = verb, hr_headers = headers, hr_body = body\<rparr>"

text \<open>\<open>encode\<close> is what \<open>URLSearchParams\<close> makes of a value.\<close>

definition docs_load :: "(string \<Rightarrow> string) \<Rightarrow> string \<Rightarrow> string option \<Rightarrow> string \<Rightarrow> string \<Rightarrow> string \<Rightarrow> http_request" where
  "docs_load encode base token ws q tag = page_request ''GET'' base (page_auth token @ json_type)
     (''/api/docs?workspaceId='' @ encode ws @ (if q \<noteq> [] then ''&q='' @ encode q else []) @ (if tag \<noteq> [] then ''&tag='' @ encode tag else [])) None"

definition docs_create_body :: "string \<Rightarrow> string \<Rightarrow> json" where
  "docs_create_body ws title = JObj [(''workspaceId'', JStr ws), (''title'', JStr title)]"

definition docs_create :: "string \<Rightarrow> string option \<Rightarrow> string \<Rightarrow> string \<Rightarrow> http_request" where
  "docs_create base token ws title = page_request ''POST'' base (page_auth token @ json_type) ''/api/docs'' (Some (docs_create_body ws title))"

definition archive_toggle :: "string \<Rightarrow> json" where
  "archive_toggle old = JObj [(''status'', JStr (if old = ''archived'' then ''active'' else ''archived''))]"

definition docs_update :: "string \<Rightarrow> string option \<Rightarrow> string \<Rightarrow> json \<Rightarrow> http_request" where
  "docs_update base token i patch = page_request ''PATCH'' base (page_auth token @ json_type) (''/api/docs/'' @ i) (Some patch)"

definition docs_remove :: "string \<Rightarrow> string option \<Rightarrow> string \<Rightarrow> http_request" where
  "docs_remove base token i = page_request ''DELETE'' base (page_auth token @ json_type) (''/api/docs/'' @ i) None"

definition members_load :: "string \<Rightarrow> string option \<Rightarrow> string \<Rightarrow> http_request" where
  "members_load base token ws = page_request ''GET'' base (page_auth token) (''/api/workspaces/'' @ ws @ ''/members'') None"

definition members_add :: "string \<Rightarrow> string option \<Rightarrow> string \<Rightarrow> string \<Rightarrow> string \<Rightarrow> http_request" where
  "members_add base token ws email role = page_request ''POST'' base (json_type @ page_auth token) (''/api/workspaces/'' @ ws @ ''/members'')
     (Some (JObj [(''email'', JStr email), (''role'', JStr role)]))"

definition members_remove :: "string \<Rightarrow> string option \<Rightarrow> string \<Rightarrow> string \<Rightarrow> http_request" where
  "members_remove base token ws userId =
     page_request ''DELETE'' base (page_auth token) (''/api/workspaces/'' @ ws @ ''/members/'' @ userId) None"

definition perms_load :: "string \<Rightarrow> string option \<Rightarrow> string \<Rightarrow> http_request" where
  "perms_load base token i = page_request ''GET'' base (page_auth token @ json_type) (''/api/docs/'' @ i @ ''/permissions'') None"

definition perms_add :: "string \<Rightarrow> string option \<Rightarrow> string \<Rightarrow> string \<Rightarrow> string \<Rightarrow> http_request" where
  "perms_add base token i email role = page_request ''POST'' base (page_auth token @ json_type) (''/api/docs/'' @ i @ ''/permissions'')
     (Some (JObj [(''email'', JStr email), (''role'', JStr role)]))"

definition perms_remove :: "string \<Rightarrow> string option \<Rightarrow> string \<Rightarrow> string \<Rightarrow> http_request" where
  "perms_remove base token i userId =
     page_request ''DELETE'' base (page_auth token @ json_type) (''/api/docs/'' @ i @ ''/permissions/'' @ userId) None"

definition workspaces_load :: "string \<Rightarrow> string option \<Rightarrow> http_request" where
  "workspaces_load base token = page_request ''GET'' base (page_auth token) ''/api/workspaces'' None"

definition ws_create_body :: "string \<Rightarrow> string \<Rightarrow> json" where
  "ws_create_body name slug = JObj [(''name'', JStr name), (''slug'', JStr slug)]"

definition workspaces_create :: "string \<Rightarrow> string option \<Rightarrow> string \<Rightarrow> string \<Rightarrow> http_request" where
  "workspaces_create base token name slug =
     page_request ''POST'' base (json_type @ page_auth token) ''/api/workspaces'' (Some (ws_create_body name slug))"

definition settings_save :: "string \<Rightarrow> string option \<Rightarrow> string \<Rightarrow> int option \<Rightarrow> http_request" where
  "settings_save base token ws maxDocuments = page_request ''PATCH'' base (json_type @ page_auth token) (''/api/workspaces/'' @ ws @ ''/settings'')
     (Some (JObj [(''settings'', JObj [(''resourceLimits'', JObj [(''maxDocuments'',
        case maxDocuments of Some n \<Rightarrow> if n \<noteq> 0 then JNum n else JNull | None \<Rightarrow> JNull)])])]))"

definition sessions_load :: "string \<Rightarrow> string option \<Rightarrow> http_request" where
  "sessions_load base token = page_request ''GET'' base (page_auth token) ''/api/auth/sessions'' None"

definition sessions_revoke :: "string \<Rightarrow> string option \<Rightarrow> string \<Rightarrow> http_request" where
  "sessions_revoke base token jti = page_request ''POST'' base (json_type @ page_auth token) ''/api/auth/sessions/revoke''
     (Some (JObj [(''refreshId'', JStr jti)]))"

definition register_body :: "string \<Rightarrow> string \<Rightarrow> string \<Rightarrow> json" where
  "register_body email password name = JObj [(''email'', JStr email), (''password'', JStr password), (''name'', JStr name)]"

definition register_request :: "string \<Rightarrow> string \<Rightarrow> string \<Rightarrow> string \<Rightarrow> http_request" where
  "register_request base email password name =
     page_request ''POST'' base json_type ''/api/users/register'' (Some (register_body email password name))"

section \<open>What the pages make of an answer\<close>

text \<open>\<open>Array.isArray(j) ? j : []\<close>.\<close>

definition list_of :: "json \<Rightarrow> json list" where
  "list_of j = (case j of JArr xs \<Rightarrow> xs | _ \<Rightarrow> [])"

definition sessions_of :: "json \<Rightarrow> json" where
  "sessions_of j = (if truthy (jfield ''sessions'' j) then the (jfield ''sessions'' j) else JArr [])"

text \<open>The switcher and the sidebar map what they got: rendering throws (\<open>None\<close>) when it is no list.\<close>

definition rendered_list :: "json \<Rightarrow> json list option" where
  "rendered_list j = (case j of JArr xs \<Rightarrow> Some xs | _ \<Rightarrow> None)"

text \<open>The current workspace in the browser's storage, and the one an open editor leaves there until it is closed.\<close>

definition switcher_select :: "string \<Rightarrow> (string \<rightharpoonup> string) \<Rightarrow> (string \<rightharpoonup> string)" where
  "switcher_select i kept = kept(''currentWorkspace'' \<mapsto> i)"

definition form_result :: "int \<Rightarrow> string \<Rightarrow> string option" where
  "form_result code failure = (if 200 \<le> code \<and> code < 300 then None else Some failure)"

section \<open>The edit page\<close>

text \<open>The title and the tags, saved half a second after the last change. \<open>ed_due\<close> is the timer, \<open>ed_sent\<close> the bodies
  sent with their times, the last one first.\<close>

record edit_page =
  ed_token :: bool
  ed_title :: string
  ed_tags :: string
  ed_due :: "int option"
  ed_sent :: "(int \<times> json) list"

definition new_edit :: edit_page where
  "new_edit = \<lparr>ed_token = False, ed_title = [], ed_tags = [], ed_due = None, ed_sent = []\<rparr>"

definition edit_body :: "edit_page \<Rightarrow> json" where
  "edit_body ed = JObj [(''title'', JStr (ed_title ed)), (''tags'', JArr (map JStr (csv_fields (ed_tags ed))))]"

definition edit_fire :: "int \<Rightarrow> edit_page \<Rightarrow> edit_page" where
  "edit_fire now ed = (case ed_due ed of
     Some due \<Rightarrow> if due \<le> now then ed\<lparr>ed_due := None, ed_sent := (due, edit_body ed) # ed_sent ed\<rparr> else ed
   | None \<Rightarrow> ed)"

text \<open>The effect runs again when the token, the title or the tags are others than at its last run.\<close>

definition edit_set :: "int \<Rightarrow> bool \<Rightarrow> string \<Rightarrow> string \<Rightarrow> edit_page \<Rightarrow> edit_page" where
  "edit_set now token title tags ed =
     (if token = ed_token ed \<and> title = ed_title ed \<and> tags = ed_tags ed then ed
      else ed\<lparr>ed_token := token, ed_title := title, ed_tags := tags, ed_due := (if token then Some (now + 500) else None)\<rparr>)"

definition doc_title :: "json \<Rightarrow> string" where
  "doc_title d = jstr ''title'' d"

definition doc_tags :: "json \<Rightarrow> string" where
  "doc_tags d = (case jfield ''tags'' d of Some (JArr ts) \<Rightarrow> join_with '','' (map (\<lambda>t. js_text (Some t)) ts) | _ \<Rightarrow> [])"

datatype edit_event = SessionReady | ListLoaded json | TypeTitle string | TypeTags string | MetaMessage string string | Nothing

fun edit_step :: "string \<Rightarrow> int \<times> edit_event \<Rightarrow> edit_page \<Rightarrow> edit_page" where
  "edit_step docId (now, e) ed0 = (let ed = edit_fire now ed0 in (case e of
     SessionReady \<Rightarrow> edit_set now True (ed_title ed) (ed_tags ed) ed
   | ListLoaded j \<Rightarrow> (case find (\<lambda>d. jfield ''_id'' d = Some (JStr docId)) (list_of j) of
       Some d \<Rightarrow> edit_set now (ed_token ed) (doc_title d) (doc_tags d) ed
     | None \<Rightarrow> ed)
   | TypeTitle t \<Rightarrow> edit_set now (ed_token ed) t (ed_tags ed) ed
   | TypeTags t \<Rightarrow> edit_set now (ed_token ed) (ed_title ed) t ed
   | MetaMessage t u \<Rightarrow> edit_set now (ed_token ed) t u ed
   | Nothing \<Rightarrow> ed))"

text \<open>What the page promises of its saves: they are half a second apart, and none comes before half a second after
  the last.\<close>

definition edit_ok :: "int \<Rightarrow> edit_page \<Rightarrow> bool" where
  "edit_ok now ed \<longleftrightarrow> successively (\<lambda>a b. fst b + 500 \<le> fst a) (ed_sent ed)
     \<and> (case ed_sent ed of [] \<Rightarrow> True | (t, _) # _ \<Rightarrow> t \<le> now \<and> (case ed_due ed of Some d \<Rightarrow> t + 500 \<le> d | None \<Rightarrow> True))"

lemma edit_fire_ok:
  assumes "edit_ok past ed" and "past \<le> now"
  shows "edit_ok now (edit_fire now ed)"
  using assms by (auto simp: edit_ok_def edit_fire_def successively_Cons split: option.splits list.splits)

lemma edit_set_ok: "edit_ok now ed \<Longrightarrow> edit_ok now (edit_set now token title tags ed)"
  by (auto simp: edit_ok_def edit_set_def split: option.splits list.splits)

lemma edit_step_ok:
  assumes "edit_ok past ed" and "past \<le> now"
  shows "edit_ok now (edit_step docId (now, e) ed)"
  using edit_fire_ok [OF assms] by (cases e) (auto simp: Let_def edit_set_ok split: option.split)

text \<open>however fast one types, and whatever other tabs say, two saves of the page are at least half a second
  apart.\<close>

theorem saves_debounced:
  assumes "sorted (map fst evs)"
  shows "successively (\<lambda>a b. fst b + 500 \<le> fst a) (ed_sent (fold (edit_step docId) evs new_edit))"
proof -
  have "\<exists>t. edit_ok t (fold (edit_step docId) evs ed)" if "edit_ok past ed" "sorted (past # map fst evs)" for past ed
    using that
  proof (induction evs arbitrary: past ed)
    case (Cons ev evs)
    obtain now e where ev: "ev = (now, e)" by (cases ev)
    have "edit_ok now (edit_step docId ev ed)"
      using Cons.prems unfolding ev by (intro edit_step_ok) auto
    with Cons show ?case by (simp add: ev)
  qed auto
  moreover have "edit_ok (case evs of [] \<Rightarrow> 0 | (t, _) # _ \<Rightarrow> t) new_edit"
    by (simp add: edit_ok_def new_edit_def)
  moreover have "sorted ((case evs of [] \<Rightarrow> 0 | (t, _) # _ \<Rightarrow> t) # map fst evs)"
    using assms by (cases evs) auto
  ultimately obtain t where "edit_ok t (fold (edit_step docId) evs new_edit)" by blast
  then show ?thesis by (simp add: edit_ok_def)
qed

lemma saves_debounced_witness:
  "successively (\<lambda>a b. fst b + 500 \<le> fst a)
     (ed_sent (fold (edit_step ''d'') [(0, SessionReady), (100, TypeTitle ''a''), (700, TypeTitle ''ab''), (2000, Nothing)] new_edit))"
  by (rule saves_debounced) simp

section \<open>The browser against the server\<close>

text \<open>The answer to a request as the browser gets it; \<open>printed\<close> is its text.\<close>

definition as_response :: "string \<Rightarrow> reply \<Rightarrow> http_response" where
  "as_response printed r = \<lparr>hs_status = rp_status r, hs_statusText = [], hs_text = printed, hs_json = rp_body r\<rparr>"

text \<open>Every answer is an object, and only \<open>data\<close> or the fields of an error are in it.\<close>

lemma reply_fields:
  "\<exists>kvs. rp_body (fst (run_route E rt dur req s)) = JObj kvs
     \<and> fst ` set kvs \<subseteq> {''data'', ''statusCode'', ''error'', ''timestamp''}"
  using every_reply_shape [of E rt dur req s] by auto

lemma reply_no_field:
  assumes "f \<notin> {''data'', ''statusCode'', ''error'', ''timestamp''}"
  shows "jfield f (rp_body (fst (run_route E rt dur req s))) = None"
proof -
  obtain kvs where k: "rp_body (fst (run_route E rt dur req s)) = JObj kvs"
    "fst ` set kvs \<subseteq> {''data'', ''statusCode'', ''error'', ''timestamp''}"
    using reply_fields [of E rt dur req s] by blast
  with assms have "f \<notin> fst ` set kvs" by blast
  then show ?thesis by (simp add: k(1) map_of_eq_None_iff)
qed

text \<open>whatever a route answers, the pages of documents, members, permissions and workspaces show an empty list and the
  page of sessions none, and the switcher of workspaces and the sidebar of comments fail to render.\<close>

theorem pages_show_nothing:
  "let j = rp_body (fst (run_route E rt dur req s))
   in list_of j = [] \<and> sessions_of j = JArr [] \<and> rendered_list j = None"
proof -
  have "jfield ''sessions'' (rp_body (fst (run_route E rt dur req s))) = None" by (rule reply_no_field) simp
  moreover obtain kvs where "rp_body (fst (run_route E rt dur req s)) = JObj kvs"
    using reply_fields [of E rt dur req s] by blast
  ultimately show ?thesis by (simp add: Let_def list_of_def sessions_of_def rendered_list_def)
qed

text \<open>the state of the document that the server sends is never applied by the provider's load and resynchronisation:
  over HTTP the browser learns nothing of the document.\<close>

theorem loaded_state_ignored:
  "state_response C L chg rid (Some (rp_body (fst (run_route E rt dur req s)))) p = p"
proof -
  have "jfield ''update'' (rp_body (fst (run_route E rt dur req s))) = None" by (rule reply_no_field) simp
  then show ?thesis by (simp add: state_response_def atob_undefined)
qed

text \<open>nobody can sign in on the site: whatever the API answers to a sign-in, the session gets no user from it.\<close>

theorem signing_in_fails:
  "authorize_answer (as_response printed (fst (run_route E rt dur req s))) \<in> {Inl ''TypeError'', Inr None}"
proof -
  have "jfield ''user'' (rp_body (fst (run_route E rt dur req s))) = None" by (rule reply_no_field) simp
  then show ?thesis by (simp add: authorize_answer_def as_response_def)
qed

text \<open>The monitor of the connection never finds the API ready.\<close>

lemma never_ready: "check_health (Some (as_response printed (fst (run_route E rt dur req s)))) \<noteq> Ok"
proof -
  have "jfield ''status'' (rp_body (fst (run_route E rt dur req s))) = None" by (rule reply_no_field) simp
  then show ?thesis by (simp add: check_health_def as_response_def)
qed

text \<open>The export of the metrics is wrapped too: what is scraped is no text of the exposition format.\<close>

lemma metrics_wrapped:
  "rt_guard rt req s = (Inr u, s1) \<Longrightarrow> rt_handler rt (as_user u req) s1 = (Inr (JStr (prometheus s1)), s2) \<Longrightarrow>
   rp_body (fst (run_route E rt dur req s)) = JObj [(''data'', JStr (prometheus s1))]"
  by (simp add: run_route_def transform_intercept_def Let_def)

text \<open>the forms that create a workspace or a document send no owner, which the classes require: both are refused,
  whatever is filled in.\<close>

theorem creation_forms_refused:
  "\<not> valid_body email create_document_dto (docs_create_body ws title)
   \<and> \<not> valid_body email create_workspace_dto (ws_create_body name slug)"
  by (simp add: valid_body_def field_ok_def create_document_dto_def create_workspace_dto_def docs_create_body_def ws_create_body_def)

text \<open>the forms of registration and sign-in pass exactly with an address and a password of eight characters, and a save of
  the edit page exactly when there is a title.\<close>

theorem forms_accepted:
  "(valid_body email register_dto (register_body e p n) \<longleftrightarrow> email e \<and> 8 \<le> length p)
   \<and> (valid_body email login_dto (the (hr_body (authorize_request base e p r))) \<longleftrightarrow> email e \<and> 8 \<le> length p)
   \<and> (valid_body email update_document_dto (edit_body ed) \<longleftrightarrow> ed_title ed \<noteq> [])
   \<and> valid_body email update_document_dto (archive_toggle old)"
proof -
  have "Suc 0 \<le> length t \<longleftrightarrow> t \<noteq> []" for t :: string by (cases t) simp_all
  then show ?thesis
    by (auto simp: valid_body_def field_ok_def register_dto_def register_body_def login_dto_def authorize_request_def
        update_document_dto_def edit_body_def archive_toggle_def)
qed

text \<open>The settings of a workspace cannot be sent to the route that cleans them: its class does not know them.\<close>

lemma settings_patch_refused: "\<not> valid_body email update_workspace_dto (JObj [(''settings'', j)])"
  by (simp add: valid_body_def update_workspace_dto_def)

text \<open>The edit page never finds its document in the answer, so its fields stay empty; who then types a title saves it with no
  tags, and those the document had are lost.\<close>

lemma tags_lost:
  "ed_sent (fold (edit_step docId) [(0, SessionReady), (100, ListLoaded (rp_body (fst (run_route E rt dur req s)))),
      (2000, TypeTitle ''New''), (9000, Nothing)] new_edit)
   = [(2500, JObj [(''title'', JStr ''New''), (''tags'', JArr [])]), (500, JObj [(''title'', JStr []), (''tags'', JArr [])])]"
proof -
  have l: "list_of (rp_body (fst (run_route E rt dur req s))) = []"
    using reply_fields [of E rt dur req s] by (auto simp: list_of_def)
  have c: "csv_fields [] = []" by (simp add: csv_fields_def js_trim_def)
  show ?thesis by (simp add: l c Let_def edit_fire_def edit_set_def edit_body_def new_edit_def)
qed

section \<open>Drafts of comments\<close>

text \<open>The sidebar keeps the drafts of replies by thread, in its state and in the browser's storage under the document. When it
  is shown for a document it reads what is stored there; then it writes its own state, and once more after what it read
  has become its state.\<close>

definition drafts_key :: "string \<Rightarrow> string" where
  "drafts_key docId = tmpl ''comment-drafts:'' docId"

definition drafts_json :: "(string \<times> string) list \<Rightarrow> json" where
  "drafts_json ds = JObj (map (\<lambda>(k, v). (k, JStr v)) ds)"

definition drafts_parse :: "json \<Rightarrow> (string \<times> string) list" where
  "drafts_parse j = (case j of JObj kvs \<Rightarrow> map (\<lambda>(k, v). (k, js_text (Some v))) kvs | _ \<Rightarrow> [])"

type_synonym drafts_state = "(string \<times> string) list \<times> (string \<rightharpoonup> json)"

definition drafts_open :: "string \<Rightarrow> drafts_state \<Rightarrow> drafts_state" where
  "drafts_open docId st = (case st of (ds, kept) \<Rightarrow>
     (case kept (drafts_key docId) of
        Some j \<Rightarrow> (drafts_parse j, kept(drafts_key docId \<mapsto> drafts_json (drafts_parse j)))
      | None \<Rightarrow> (ds, kept(drafts_key docId \<mapsto> drafts_json ds))))"

definition drafts_set :: "string \<Rightarrow> string \<Rightarrow> string \<Rightarrow> drafts_state \<Rightarrow> drafts_state" where
  "drafts_set docId thread v st = (case st of (ds, kept) \<Rightarrow>
     (map_put thread v ds, kept(drafts_key docId \<mapsto> drafts_json (map_put thread v ds))))"

text \<open>Posting a reply empties its draft.\<close>

definition drafts_posted :: "string \<Rightarrow> string \<Rightarrow> drafts_state \<Rightarrow> drafts_state" where
  "drafts_posted docId thread = drafts_set docId thread []"

definition share_link :: "string \<Rightarrow> string \<Rightarrow> string \<Rightarrow> string" where
  "share_link origin path i = origin @ path @ ''#comment-'' @ i"

lemma drafts_parse_json [simp]: "drafts_parse (drafts_json ds) = ds"
  by (simp add: drafts_parse_def drafts_json_def comp_def split_def)

text \<open>whoever closes the page finds the drafts again as they were, whatever was written meanwhile and wherever the state
  comes from.\<close>

theorem drafts_survive:
  "drafts_open docId ([], snd (fold (\<lambda>(t, v). drafts_set docId t v) edits (drafts_open docId st)))
     = fold (\<lambda>(t, v). drafts_set docId t v) edits (drafts_open docId st)"
proof -
  let ?ok = "\<lambda>s :: drafts_state. snd s (drafts_key docId) = Some (drafts_json (fst s))"
  have o: "?ok (drafts_open docId st)" by (cases st) (simp add: drafts_open_def split: option.split)
  have s: "?ok (drafts_set docId t v s)" for t v s by (cases s) (simp add: drafts_set_def)
  have "?ok s \<Longrightarrow> ?ok (fold (\<lambda>(t, v). drafts_set docId t v) edits s)" for s
  proof (induction edits arbitrary: s)
    case (Cons e es)
    then show ?case by (cases e) (simp add: s)
  qed simp
  from this [OF o] show ?thesis
    by (cases "fold (\<lambda>(t, v). drafts_set docId t v) edits (drafts_open docId st)")
      (simp add: drafts_open_def fun_upd_idem)
qed

text \<open>A document without drafts takes over those of the document shown before.\<close>

lemma drafts_follow:
  "kept (drafts_key b) = None \<Longrightarrow> drafts_open b (ds, kept) = (ds, kept(drafts_key b \<mapsto> drafts_json ds))"
  by (simp add: drafts_open_def)

end
