(* ===== verification/Collaboration.thy ===== *)
theory Collaboration
  imports GatewayProps Provider
begin

text \<open>
  The browser and the gateway together: what an edit becomes from the keystroke in one browser
  (\<open>SimpleYProvider\<close>, \<open>web/src/lib/yjsProvider.ts\<close>) over the gateway (\<open>api/src/ws/ws.gateway.ts\<close>) to the stored
  document and the other browsers. The socket carries a message as it is; what a handler reads of it is
  what its parameter names.
\<close>

section \<open>From the browser to the gateway\<close>

text \<open>\<open>@MessageBody() payload\<close> of \<open>y-update\<close>.\<close>

definition receiveYUpdate :: "env \<Rightarrow> 'y ylib \<Rightarrow> string \<Rightarrow> json \<Rightarrow> gateway \<Rightarrow> ws_result \<times> gateway" where
  "receiveYUpdate E L sid payload g =
     onYUpdate E L sid (jstr ''documentId'' payload) (jstr ''updateB64'' payload)
       (case jfield ''msgId'' payload of Some (JStr m) \<Rightarrow> Some m | _ \<Rightarrow> None)
       (case jfield ''seq'' payload of Some (JNum n) \<Rightarrow> Some n | _ \<Rightarrow> None) g"

definition edit_message :: "pcfg \<Rightarrow> string \<Rightarrow> bytes \<Rightarrow> int \<Rightarrow> json" where
  "edit_message C rid u n = JObj [(''documentId'', JStr (pc_docId C)), (''updateB64'', JStr (toBase64 u)),
     (''msgId'', JStr rid), (''seq'', JNum n)]"

lemma edit_sent:
  assumes "pv_socket p" and "pv_wsConnected p"
  shows "pv_sent (onDocUpdate C rid u p) = pv_sent p @ [(''y-update'', edit_message C rid u (pv_wsSeq p + 1))]"
    and "pv_queue (onDocUpdate C rid u p) = pv_queue p" "pv_wsQueue (onDocUpdate C rid u p) = pv_wsQueue p"
  using assms by (simp_all add: onDocUpdate_def sendYUpdate_def tell_def edit_message_def Let_def)

lemma trim_no_ws: "\<forall>c \<in> set s. \<not> is_ws c \<Longrightarrow> js_trim s = s"
proof -
  have d: "\<forall>c \<in> set t. \<not> is_ws c \<Longrightarrow> dropWhile is_ws t = t" for t by (cases t) simp_all
  assume "\<forall>c \<in> set s. \<not> is_ws c"
  then show ?thesis by (simp add: js_trim_def d)
qed

lemma trim_base64 [simp]: "js_trim (b64_encode u) = b64_encode u"
proof (rule trim_no_ws, rule ballI)
  fix c
  assume "c \<in> set (b64_encode u)"
  then show "\<not> is_ws c" using b64_encode_chars [of c u] alphabet_not_ws [of c] by (auto simp: is_ws_def)
qed

text \<open>What lets an update of the user \<open>uid\<close> with identifier \<open>m\<close> and number \<open>n\<close> through.\<close>

definition lets_through :: "env \<Rightarrow> string \<Rightarrow> string \<Rightarrow> string \<Rightarrow> int \<Rightarrow> gateway \<Rightarrow> bool" where
  "lets_through E uid d m n g \<longleftrightarrow>
     fst (allowWsMessage E (''user:'' @ uid) (g_store g))
     \<and> m \<notin> set (r_smembers (dedup_key d) (g_store g)) \<and> r_num (lastseq_key d uid) (g_store g) < n"

lemma dedup_step_entry: "k \<noteq> dedup_key d \<Longrightarrow> entry (snd (dedup_step d m s)) k = entry s k"
  by (auto simp: dedup_step_def Let_def case_prod_beta r_sadd_def r_expire_def key_simps split: option.split)

lemma key_apart [simp]:
  "lastseq_key d u \<noteq> ws_rate_key (CHR ''u'' # k)" "lastseq_key d u \<noteq> dedup_key d'"
  by (simp_all add: lastseq_key_def ws_rate_key_def dedup_key_def tmpl_def)

lemma r_num_cong: "entry s k = entry s' k \<Longrightarrow> r_num k s = r_num k s'"
  by (simp add: r_num_def r_get_def)

lemma smembers_cong: "entry s k = entry s' k \<Longrightarrow> r_smembers k s = r_smembers k s'"
  by (simp add: r_smembers_def)

lemma dedup_fresh: "fst (dedup_step d (Some m) s) \<longleftrightarrow> m \<in> set (r_smembers (dedup_key d) s)"
  by (simp add: dedup_step_def Let_def case_prod_beta r_sadd_def)

lemma last_number_after:
  "r_num (lastseq_key d uid) (snd (dedup_step d m (snd (allowWsMessage E (CHR ''u'' # k) s)))) = r_num (lastseq_key d uid) s"
  by (rule r_num_cong) (simp add: dedup_step_entry allow_entry)

lemma members_after:
  "r_smembers (dedup_key d) (snd (allowWsMessage E (CHR ''u'' # k) s)) = r_smembers (dedup_key d) s"
  by (rule smembers_cong) (simp add: allow_entry)

text \<open>An edit that is let through is put in the batch of its document as it is.\<close>

lemma edit_taken:
  assumes "so_user (sock_of sid g) = Some (uid, em)" and "pc_docId C \<in> set (so_docs (sock_of sid g))"
    and "js_trim (pc_docId C) = pc_docId C" "pc_docId C \<noteq> []" and "rid \<noteq> []" "u \<noteq> []"
    and "lets_through E uid (pc_docId C) rid n g" and "gunzip L u = None"
    and "int (length u) \<le> ws_update_max_bytes E" and "y_apply L (y_empty L) u \<noteq> None"
  shows "pending (pc_docId C) (snd (receiveYUpdate E L sid (edit_message C rid u n) g))
    = pending (pc_docId C) g @ [u]"
proof -
  have "decodeUpdate L (b64_encode u) = u" using assms(8) by (simp add: decodeUpdate_def)
  then show ?thesis
    using assms(1-7,9,10)
    by (auto simp: receiveYUpdate_def edit_message_def jstr_def onYUpdate_def toBase64_def lets_through_def
        truthy_id_def Let_def case_prod_beta dedup_fresh members_after order_step_def last_number_after
        split: option.split)
qed

section \<open>Until the batch is written\<close>

text \<open>Everything but the timers of the batch itself leaves what waits in it: messages, connections, other
  documents' timers, the rest of the system.\<close>

fun spares :: "string \<Rightarrow> gw_event \<Rightarrow> bool" where
  "spares d (Flush token d') \<longleftrightarrow> d' \<noteq> d"
| "spares d Prune \<longleftrightarrow> False"
| "spares d ev \<longleftrightarrow> True"

lemma handle_spared:
  assumes "spares d ev"
  shows "\<exists>us. pending d (handle E L V ev g) = pending d g @ us \<and> (\<forall>u \<in> set us. y_apply L (y_empty L) u \<noteq> None)"
proof (cases ev)
  case (YUpdate sid p b m q)
  then show ?thesis
    using onYUpdate_pending [of d E L sid p b m q g] by (auto simp: admitted_update_def)
next
  case (Flush token d')
  then show ?thesis using assms by (simp add: pending_flush)
next
  case Prune
  then show ?thesis using assms by simp
qed (simp_all add: pending_def)

definition run_events ::
  "env \<Rightarrow> 'y ylib \<Rightarrow> (string \<Rightarrow> (string \<times> string) option) \<Rightarrow> gw_event list \<Rightarrow> gateway \<Rightarrow> gateway" where
  "run_events E L V evs g = fold (handle E L V) evs g"

lemma run_spared:
  assumes "list_all (spares d) evs"
  shows "\<exists>us. pending d (run_events E L V evs g) = pending d g @ us
    \<and> (\<forall>u \<in> set us. y_apply L (y_empty L) u \<noteq> None)"
  using assms
proof (induction evs arbitrary: g)
  case (Cons ev evs)
  obtain us where us: "pending d (handle E L V ev g) = pending d g @ us" "\<forall>u \<in> set us. y_apply L (y_empty L) u \<noteq> None"
    using handle_spared [of d ev E L V g] Cons.prems by fastforce
  obtain vs where "pending d (run_events E L V evs (handle E L V ev g)) = pending d (handle E L V ev g) @ vs"
    "\<forall>u \<in> set vs. y_apply L (y_empty L) u \<noteq> None"
    using Cons.IH [of "handle E L V ev g"] Cons.prems by fastforce
  with us show ?case by (intro exI [of _ "us @ vs"]) (auto simp: run_events_def)
qed (simp add: run_events_def)

section \<open>In the other browsers\<close>

lemma doc_frame_provider [simp]:
  "pv_doc (markSynced C p) = pv_doc p" "pv_doc (onDocUpdate C rid u p) = pv_doc p"
  by (simp_all add: markSynced_def saveMeta_def store_def onDocUpdate_def sendYUpdate_def tell_def enqueue_def
      bumpCounter_def p_emit_def persistQueue_def Let_def split: prod.split)

lemma applyLocal_doc:
  assumes "yjs_laws L join dec" and "dec u = Some v"
  shows "\<exists>p'. applyLocal C L chg rid u p = Some p' \<and> pv_doc p' = join (pv_doc p) v"
  using assms(2) by (simp add: applyLocal_def yjs_apply [OF assms(1)])

lemma onRemote_update_event:
  assumes "yjs_laws L join dec" and "zip_laws L" and "dec merged = Some v"
  shows "pv_doc (onRemote C L chg rid (update_event E L d merged) q) = join (pv_doc q) v"
proof -
  obtain q' where "applyLocal C L chg rid merged q = Some q'" "pv_doc q' = join (pv_doc q) v"
    using applyLocal_doc [OF assms(1,3)] by blast
  then show ?thesis
    using assms(2)
    by (simp add: onRemote_def update_event_def maybeGzip_def fromBase64_toBase64 [unfolded toBase64_def] zip_laws_def)
qed


definition demo_browser :: "8 word set provider" where
  "demo_browser = (fresh_provider byte_lib 0 [])\<lparr>pv_socket := True, pv_wsConnected := True\<rparr>"

definition demo_taken :: gateway where
  "demo_taken = run_events default_env byte_lib (\<lambda>_. None) [Ping ''s1'']
     (snd (receiveYUpdate default_env byte_lib ''s1''
        (snd (last (pv_sent (onDocUpdate demo_pcfg ''m1'' [1, 2] demo_browser)))) demo_member))"

lemma demo_taken_facts:
  "pending ''d'' demo_taken = [[1, 2]]" "lets_through default_env ''m'' ''d'' ''m1'' 1 demo_member"
  "entry (g_store demo_taken) (lock_key ''d'') = None" "pc_docId demo_pcfg = ''d''"
  by code_simp+

lemma demo_member_facts:
  "so_user (sock_of ''s1'' demo_member) = Some (''m'', ''m@x'')" "so_docs (sock_of ''s1'' demo_member) = [''d'']"
  "gunzip byte_lib [1, 2] = None" "y_merge byte_lib [[1, 2]] = Some [1, 2]" "js_trim ''d'' = ''d''"
  "ws_update_max_bytes default_env \<ge> 2" "pv_socket demo_browser" "pv_wsConnected demo_browser" "pv_wsSeq demo_browser = 0"
  by (simp_all add: sock_of_def demo_member_def byte_lib_def js_trim_def is_ws_def default_env_def demo_browser_def
      fresh_provider_def)

lemma receive_db [simp]: "g_db (snd (receiveYUpdate E L sid msg g)) = g_db g"
  by (simp add: receiveYUpdate_def onYUpdate_def Let_def case_prod_beta split: option.split)

lemma demo_taken_db: "log_inv ''d'' (g_db demo_taken)"
proof -
  have "g_db (onPing sid g) = g_db g" for sid g
    by (simp add: onPing_def Let_def case_prod_beta split: option.split)
  then show ?thesis
    using demo_api_ok(1) by (simp add: demo_taken_def run_events_def demo_member_def demo_gateway_def) (simp add: g_db_def)
qed


section \<open>Starting to count again\<close>

text \<open>The gateway remembers for five minutes the last number it took from a user of a document, whatever
  connection it came from. A browser that has just been opened counts from one.\<close>


definition demo_counted :: gateway where
  "demo_counted = g_redis (\<lambda>s. r_setex (lastseq_key ''d'' ''m'') (Num 7) 300 s) demo_member"


section \<open>The handshake\<close>

text \<open>The \<open>auth\<close> of the provider's socket, and where the gateway looks for the token: in \<open>auth\<close>, in the query, in the
  header; only the header's value is freed of \<open>Bearer\<close>. Absent values are \<open>None\<close>.\<close>

definition socket_auth :: "string \<Rightarrow> string option" where
  "socket_auth stored = (if stored \<noteq> [] then Some (''Bearer '' @ stored) else None)"

definition handshake_token :: "string option \<Rightarrow> string option \<Rightarrow> string option \<Rightarrow> string" where
  "handshake_token auth query header =
     or_text (case auth of Some t \<Rightarrow> t | None \<Rightarrow> [])
       (or_text (case query of Some t \<Rightarrow> t | None \<Rightarrow> []) (case header of Some h \<Rightarrow> replace_first ''Bearer '' h | None \<Rightarrow> []))"

lemma denied_no_user:
  assumes "\<forall>t who. verify t = Some who \<longrightarrow> CHR '' '' \<notin> set t" and "CHR '' '' \<in> set token \<or> token = []"
  shows "so_user (sock_of sid (handleConnection E verify roll sid token origin address g)) = None"
proof -
  have d: "so_user (sock_of sid (drop_sock sid h)) = None" for h
    by simp (simp add: no_sock_def)
  have "verify token = None" if "token \<noteq> []" using assms that by (cases "verify token") auto
  then show ?thesis using d by (simp add: handleConnection_def Let_def)
qed

text \<open>C12: whatever token a browser has stored, the gateway refuses the connection that its provider opens: no token is
  sent, or one with \<open>Bearer\<close> in front, which no verifier of tokens (they have no spaces) accepts. An update sent over
  the connection all the same is answered \<open>Not authenticated\<close> and changes nothing.\<close>

theorem provider_connection_denied:
  assumes "\<forall>t who. verify t = Some who \<longrightarrow> CHR '' '' \<notin> set t"
    and "h = handleConnection E verify roll sid (handshake_token (socket_auth stored) None None) origin address g"
  shows "so_user (sock_of sid h) = None \<and> receiveYUpdate E L sid msg h = (WsError ''Not authenticated'', h)"
proof -
  let ?t = "handshake_token (socket_auth stored) None None"
  have t: "CHR '' '' \<in> set ?t \<or> ?t = []"
    by (cases "stored = []") (auto simp: handshake_token_def socket_auth_def or_text_def)
  have "so_user (sock_of sid h) = None"
    unfolding assms(2) by (rule denied_no_user [OF assms(1) t])
  then show ?thesis by (simp add: receiveYUpdate_def onYUpdate_def)
qed

lemma provider_connection_denied_witness:
  "so_user (sock_of ''s9'' (handleConnection default_env (\<lambda>t. if t = ''tok'' then Some (''m'', ''m@x'') else None) False ''s9''
     (handshake_token (socket_auth ''tok'') None None) None ''ip'' demo_gateway)) = None"
proof -
  have "\<forall>t who. (if t = ''tok'' then Some (''m'', ''m@x'') else None) = Some who \<longrightarrow> CHR '' '' \<notin> set t"
    by auto
  from provider_connection_denied [where L = byte_lib, OF this refl] show ?thesis by blast
qed

lemma header_token_accepted: "handshake_token None None (Some (''Bearer '' @ t)) = t"
  using replace_first_prefix [of "''Bearer ''" t] by (simp add: handshake_token_def or_text_def)

end
