(* ===== verification/Routes.thy ===== *)
theory Routes
  imports Pages Auth
begin

text \<open>
  Which handler a request reaches: the controllers that the modules of the API register
  (\<open>api/src/app.module.ts\<close> and the \<open>*.module.ts\<close> files), each route with its method, its path and the guards of its
  class and its method, as the decorators of the \<open>*.controller.ts\<close> files say. Express matches a path segment by
  segment, without regard to case, and tolerates one slash at the end. Then: that no two routes match the same
  request, where the requests of the browser go, and which of them carry the token that \<open>AuthGuard\<close> asks for.
\<close>

section \<open>Routes\<close>

datatype segment = Fixed string | Param string

datatype http_guard = NeedsUser | NeedsAdmin | NeedsWorkspace | NeedsDocument

record endpoint =
  ep_method :: string
  ep_path :: "segment list"
  ep_guards :: "http_guard list"
  ep_handler :: string

fun segment_of :: "string \<Rightarrow> segment" where
  "segment_of s = (if take 1 s = '':'' then Param (drop 1 s) else Fixed s)"

definition pattern :: "string \<Rightarrow> segment list" where
  "pattern p = map segment_of (filter (\<lambda>s. s \<noteq> []) (split_on (CHR ''/'') p))"

definition routes_of :: "string \<Rightarrow> http_guard list \<Rightarrow> (string \<times> string \<times> http_guard list \<times> string) list \<Rightarrow> endpoint list" where
  "routes_of base gs rs = map (\<lambda>(m, p, hs, h). \<lparr>ep_method = m, ep_path = pattern (base @ ''/'' @ p),
     ep_guards = gs @ hs, ep_handler = h\<rparr>) rs"

definition auth_routes :: "endpoint list" where
  "auth_routes = routes_of ''api/auth'' []
    [(''POST'', ''login'', [], ''login''), (''POST'', ''refresh'', [], ''refresh''), (''POST'', ''logout'', [], ''logout''),
     (''POST'', ''oauth'', [], ''oauth''), (''GET'', ''sessions'', [NeedsUser], ''sessions''),
     (''POST'', ''sessions/revoke'', [NeedsUser], ''revokeSession''), (''GET'', ''me'', [NeedsUser], ''me''),
     (''POST'', ''request-email-verification'', [NeedsUser], ''requestEmailVerification''),
     (''POST'', ''verify-email'', [], ''verifyEmail''), (''POST'', ''request-password-reset'', [], ''requestPasswordReset''),
     (''POST'', ''reset-password'', [], ''resetPassword'')]"

definition users_routes :: "endpoint list" where
  "users_routes = routes_of ''api/users'' [] [(''POST'', ''register'', [], ''register'')]"

definition workspaces_routes :: "endpoint list" where
  "workspaces_routes = routes_of ''api/workspaces'' [NeedsUser]
    [(''POST'', '''', [], ''createWorkspace''), (''GET'', '''', [], ''listWorkspaces''), (''GET'', '':id'', [], ''getWorkspace''),
     (''PATCH'', '':id'', [], ''updateWorkspace''), (''DELETE'', '':id'', [], ''removeWorkspace''),
     (''GET'', '':workspaceId/members'', [NeedsWorkspace], ''listMembers''),
     (''POST'', '':workspaceId/members'', [NeedsWorkspace], ''addMember''),
     (''DELETE'', '':workspaceId/members/:userId'', [NeedsWorkspace], ''removeMember''),
     (''PATCH'', '':workspaceId/settings'', [NeedsWorkspace], ''updateSettings'')]"

definition documents_routes :: "endpoint list" where
  "documents_routes = routes_of ''api/docs'' [NeedsUser, NeedsWorkspace]
    [(''POST'', '''', [], ''createDoc''), (''GET'', '''', [], ''listDocs''),
     (''PATCH'', '':id'', [NeedsDocument], ''updateDoc''), (''DELETE'', '':id'', [NeedsDocument], ''removeDoc''),
     (''GET'', '':id/snapshots'', [NeedsDocument], ''listSnaps''), (''POST'', '':id/snapshots'', [NeedsDocument], ''createSnap''),
     (''POST'', '':id/rollback'', [NeedsDocument], ''rollback''), (''POST'', '':id/repair'', [NeedsDocument], ''repair''),
     (''GET'', '':id/export'', [NeedsDocument], ''export''), (''GET'', '':id/permissions'', [NeedsDocument], ''listPerms''),
     (''POST'', '':id/permissions'', [NeedsDocument], ''addPerm''),
     (''POST'', '':id/permissions/bulk'', [NeedsDocument], ''addPermBulk''),
     (''DELETE'', '':id/permissions/:userId'', [NeedsDocument], ''delPerm''),
     (''GET'', '':id/y'', [NeedsDocument], ''yGet''), (''POST'', '':id/y'', [NeedsDocument], ''yPost''),
     (''GET'', '':id/snapshots'', [NeedsDocument], ''listSnapshots''),
     (''POST'', '':id/snapshots/manual'', [NeedsDocument], ''createSnapshot''),
     (''GET'', '':id/diff'', [NeedsDocument], ''diff''), (''PATCH'', ''snapshots/:snapshotId'', [], ''updateSnapshot'')]"

definition comments_routes :: "endpoint list" where
  "comments_routes = routes_of ''comments'' [NeedsUser]
    [(''GET'', ''doc/:documentId'', [], ''listComments''), (''POST'', '''', [], ''createComment''),
     (''POST'', '':id/replies'', [], ''reply''), (''POST'', '':id/resolve'', [], ''resolve''),
     (''PATCH'', '':id'', [], ''updateComment''), (''DELETE'', '':id'', [], ''removeComment''),
     (''POST'', '':id/anchor'', [], ''updateAnchor''), (''POST'', '':id/react'', [], ''react''),
     (''POST'', '':id/approve'', [], ''approve''), (''POST'', '':id/reject'', [], ''reject''),
     (''POST'', '':id/assign'', [], ''assign''), (''POST'', '':id/due'', [], ''due''), (''POST'', '':id/escalate'', [], ''escalate''),
     (''GET'', ''analytics/:documentId'', [], ''analytics''), (''GET'', ''search'', [], ''searchInDoc''),
     (''GET'', ''/mentions/search'', [], ''mentionSearch'')]"

definition notifications_routes :: "endpoint list" where
  "notifications_routes = routes_of ''notifications'' [NeedsUser]
    [(''GET'', '''', [], ''listNotifications''), (''POST'', ''read'', [], ''markRead''), (''GET'', ''prefs'', [], ''prefsGet''),
     (''POST'', ''prefs'', [], ''prefsSet'')]"

definition jobs_routes :: "endpoint list" where
  "jobs_routes = routes_of ''api/jobs'' [] [(''GET'', ''health'', [], ''jobsHealth''), (''GET'', ''stats'', [], ''jobsStats'')]"

definition search_routes :: "endpoint list" where
  "search_routes = routes_of ''api/search'' [NeedsUser]
    [(''GET'', ''docs'', [], ''searchDocs''), (''GET'', ''comments'', [], ''searchComments''),
     (''GET'', ''versions'', [], ''searchVersions''), (''GET'', ''suggest'', [], ''suggest''), (''GET'', ''related'', [], ''related''),
     (''POST'', ''click'', [], ''click'')]"

definition sharing_routes :: "endpoint list" where
  "sharing_routes = routes_of ''api/sharing'' []
    [(''POST'', ''links'', [NeedsUser, NeedsDocument], ''createLink''), (''GET'', ''resolve/:token'', [], ''resolveLink'')]"

definition chaos_routes :: "endpoint list" where
  "chaos_routes = routes_of ''api/chaos'' [] [(''GET'', ''config'', [], ''chaosGet''), (''POST'', ''config'', [], ''chaosSet'')]"

definition health_routes :: "endpoint list" where
  "health_routes = routes_of '''' [] [(''GET'', ''/health'', [], ''health''), (''GET'', ''/ready'', [], ''ready'')]"

definition security_routes :: "endpoint list" where
  "security_routes = routes_of ''api/security'' [NeedsUser, NeedsAdmin]
    [(''GET'', ''audit'', [], ''audit''), (''GET'', ''alerts'', [], ''alerts'')]"

definition metrics_routes :: "endpoint list" where
  "metrics_routes = routes_of ''api/metrics'' [] [(''GET'', '''', [], ''listMetrics'')]
     @ routes_of ''api/metrics'' [] [(''GET'', ''prometheus'', [], ''prometheus'')]"

definition ux_routes :: "endpoint list" where
  "ux_routes = routes_of ''api/ux'' [] [(''POST'', ''vitals'', [], ''vitals'')]"

definition features_routes :: "endpoint list" where
  "features_routes = routes_of ''api/features'' []
    [(''GET'', '''', [NeedsUser], ''listFeatures''), (''GET'', ''config'', [], ''getConfig''), (''POST'', ''config'', [], ''setConfig'')]"

text \<open>The modules' controllers. \<open>PrivacyController\<close> is in none of them.\<close>

definition api_routes :: "endpoint list" where
  "api_routes = health_routes @ security_routes @ metrics_routes @ ux_routes @ features_routes
     @ auth_routes @ users_routes @ workspaces_routes @ documents_routes @ comments_routes @ notifications_routes
     @ jobs_routes @ search_routes @ sharing_routes @ chaos_routes"

section \<open>Matching\<close>

definition path_of :: "string \<Rightarrow> string" where
  "path_of url = takeWhile (\<lambda>c. c \<noteq> CHR ''?'') url"

definition request_segments :: "string \<Rightarrow> string list" where
  "request_segments path =
     (let ss = split_on (CHR ''/'') path; rest = (if hd ss = [] then tl ss else ss)
      in if rest \<noteq> [] \<and> last rest = [] then butlast rest else rest)"

fun fits :: "segment list \<Rightarrow> string list \<Rightarrow> bool" where
  "fits [] [] \<longleftrightarrow> True"
| "fits (Fixed s # ps) (t # ts) \<longleftrightarrow> to_lower s = to_lower t \<and> fits ps ts"
| "fits (Param n # ps) (t # ts) \<longleftrightarrow> t \<noteq> [] \<and> fits ps ts"
| "fits [] (t # ts) \<longleftrightarrow> False"
| "fits (p # ps) [] \<longleftrightarrow> False"

definition serves :: "string \<Rightarrow> string \<Rightarrow> endpoint \<Rightarrow> bool" where
  "serves method path r \<longleftrightarrow> ep_method r = method \<and> fits (ep_path r) (request_segments path)"

definition find_route :: "string \<Rightarrow> string \<Rightarrow> endpoint option" where
  "find_route method path = find (serves method path) api_routes"

section \<open>No two routes for a request\<close>

fun lower_case :: "segment list \<Rightarrow> bool" where
  "lower_case [] \<longleftrightarrow> True"
| "lower_case (Fixed s # ps) \<longleftrightarrow> to_lower s = s \<and> lower_case ps"
| "lower_case (Param n # ps) \<longleftrightarrow> lower_case ps"

fun may_clash :: "segment list \<Rightarrow> segment list \<Rightarrow> bool" where
  "may_clash [] [] \<longleftrightarrow> True"
| "may_clash (Fixed s # ps) (Fixed t # ts) \<longleftrightarrow> s = t \<and> may_clash ps ts"
| "may_clash (Fixed s # ps) (Param n # ts) \<longleftrightarrow> may_clash ps ts"
| "may_clash (Param n # ps) (t # ts) \<longleftrightarrow> may_clash ps ts"
| "may_clash [] (t # ts) \<longleftrightarrow> False"
| "may_clash (p # ps) [] \<longleftrightarrow> False"

lemma fits_both: "fits p s \<Longrightarrow> fits q s \<Longrightarrow> lower_case p \<Longrightarrow> lower_case q \<Longrightarrow> may_clash p q"
proof (induction p q arbitrary: s rule: may_clash.induct)
  case (2 a ps t ts)
  then show ?case by (cases s) auto
next
  case (3 a ps n ts)
  then show ?case by (cases s) auto
next
  case (4 n ps t ts)
  then show ?case by (cases s; cases t) auto
next
  case (5 t ts)
  then show ?case by (cases s; cases t) auto
next
  case (6 p ps)
  then show ?case by (cases s; cases p) auto
qed simp

lemma routes_lower_case: "list_all (\<lambda>r. lower_case (ep_path r)) api_routes"
  by code_simp

definition clash :: "endpoint \<Rightarrow> endpoint \<Rightarrow> bool" where
  "clash r q \<longleftrightarrow> ep_method r = ep_method q \<and> may_clash (ep_path r) (ep_path q)"

lemma routes_apart:
  "sorted_wrt (\<lambda>r q. clash r q \<longrightarrow> ep_handler r = ''listSnaps'' \<and> ep_handler q = ''listSnapshots'') api_routes"
  by code_simp

lemma serves_both:
  assumes "r \<in> set api_routes" and "q \<in> set api_routes" and "serves m path r" and "serves m path q"
  shows "clash r q"
  using assms routes_lower_case fits_both by (fastforce simp: clash_def serves_def list_all_iff)

text \<open>no request fits two routes, whatever its method and path, but for the two declarations of
  \<open>GET api/docs/:id/snapshots\<close>: so the order in which the modules register their controllers does not matter.\<close>

theorem routes_unambiguous:
  assumes "i < j" and "j < length api_routes" and "serves m path (api_routes ! i)" and "serves m path (api_routes ! j)"
  shows "ep_handler (api_routes ! i) = ''listSnaps'' \<and> ep_handler (api_routes ! j) = ''listSnapshots''"
proof -
  have "clash (api_routes ! i) (api_routes ! j)"
    using assms by (intro serves_both) simp_all
  then show ?thesis using sorted_wrt_nth_less [OF routes_apart assms(1,2)] by blast
qed

lemma routes_unambiguous_witness:
  "ep_handler (api_routes ! 35) = ''listSnaps'' \<and> ep_handler (api_routes ! 46) = ''listSnapshots''"
proof -
  have "46 < length api_routes" "serves ''GET'' ''/api/docs/1/snapshots'' (api_routes ! 35)"
    "serves ''GET'' ''/api/docs/1/snapshots'' (api_routes ! 46)"
    by code_simp+
  then show ?thesis by (intro routes_unambiguous [of 35 46]) simp_all
qed

lemma route_found:
  assumes "r \<in> set api_routes" and "serves m path r" and "ep_handler r \<notin> {''listSnaps'', ''listSnapshots''}"
  shows "find_route m path = Some r"
proof -
  obtain j where j: "j < length api_routes" "r = api_routes ! j"
    using assms(1) by (auto simp: in_set_conv_nth)
  have "find (serves m path) api_routes \<noteq> None" using assms(1,2) by (auto simp: find_None_iff)
  then obtain i where i: "i < length api_routes" "serves m path (api_routes ! i)"
    and f: "find (serves m path) api_routes = Some (api_routes ! i)"
    by (auto simp: find_Some_iff)
  have unique: "i' = j'" if "i' < length api_routes" "j' < length api_routes" "serves m path (api_routes ! i')"
    "serves m path (api_routes ! j')" "ep_handler (api_routes ! j') \<notin> {''listSnaps'', ''listSnapshots''}" for i' j'
  proof (rule ccontr)
    assume "i' \<noteq> j'"
    moreover have "clash (api_routes ! i') (api_routes ! j')" "clash (api_routes ! j') (api_routes ! i')"
      using that by (auto intro!: serves_both)
    ultimately show False
      using that(1,2,5) sorted_wrt_nth_less [OF routes_apart] by (metis insertCI linorder_neqE_nat)
  qed
  have "i = j" using i j assms(2,3) by (intro unique) simp_all
  then show ?thesis using f j(2) by (simp add: find_route_def)
qed

section \<open>Where the requests of the browser go\<close>

text \<open>A text that can stand in a path as one segment, as the identifiers of the rows can.\<close>

definition one_segment :: "string \<Rightarrow> bool" where
  "one_segment s \<longleftrightarrow> s \<noteq> [] \<and> CHR ''/'' \<notin> set s \<and> CHR ''?'' \<notin> set s"

definition handler_of :: "http_request \<Rightarrow> string option" where
  "handler_of q = map_option ep_handler (find_route (hr_method q) (path_of (hr_url q)))"

definition listed :: "(string \<times> segment list \<times> string) list" where
  "listed = (let api = [Fixed ''api'']; docs = api @ [Fixed ''docs'']; doc = docs @ [Param ''id''];
      ws = api @ [Fixed ''workspaces'']; w = ws @ [Param ''workspaceId'']; c = [Fixed ''comments'']; a = api @ [Fixed ''auth'']
    in [(''GET'', docs, ''listDocs''), (''POST'', docs, ''createDoc''), (''PATCH'', doc, ''updateDoc''), (''DELETE'', doc, ''removeDoc''),
        (''GET'', doc @ [Fixed ''y''], ''yGet''), (''POST'', doc @ [Fixed ''y''], ''yPost''),
        (''GET'', doc @ [Fixed ''permissions''], ''listPerms''), (''POST'', doc @ [Fixed ''permissions''], ''addPerm''),
        (''DELETE'', doc @ [Fixed ''permissions'', Param ''userId''], ''delPerm''),
        (''GET'', ws, ''listWorkspaces''), (''POST'', ws, ''createWorkspace''),
        (''GET'', w @ [Fixed ''members''], ''listMembers''), (''POST'', w @ [Fixed ''members''], ''addMember''),
        (''DELETE'', w @ [Fixed ''members'', Param ''userId''], ''removeMember''),
        (''PATCH'', w @ [Fixed ''settings''], ''updateSettings''),
        (''GET'', a @ [Fixed ''sessions''], ''sessions''), (''POST'', a @ [Fixed ''sessions'', Fixed ''revoke''], ''revokeSession''),
        (''POST'', a @ [Fixed ''login''], ''login''), (''POST'', api @ [Fixed ''users'', Fixed ''register''], ''register''),
        (''POST'', c, ''createComment''), (''POST'', c @ [Param ''id'', Fixed ''replies''], ''reply''),
        (''POST'', c @ [Param ''id'', Fixed ''resolve''], ''resolve''), (''POST'', c @ [Param ''id'', Fixed ''react''], ''react''),
        (''DELETE'', c @ [Param ''id''], ''removeComment''), (''GET'', c @ [Fixed ''doc'', Param ''documentId''], ''listComments'')])"

lemma listed_in:
  "let rs = map (\<lambda>r. (ep_method r, ep_path r, ep_handler r)) api_routes in list_all (\<lambda>x. List.member rs x) listed"
  by code_simp

lemma listed_not_twice: "list_all (\<lambda>(m, p, h). h \<noteq> ''listSnaps'' \<and> h \<noteq> ''listSnapshots'') listed"
  by code_simp

lemma handler_found:
  assumes "(hr_method q, pat, h) \<in> set listed" and "fits pat (request_segments (path_of (hr_url q)))"
  shows "handler_of q = Some h"
proof -
  have "List.member (map (\<lambda>r. (ep_method r, ep_path r, ep_handler r)) api_routes) (hr_method q, pat, h)"
    using listed_in assms(1) by (simp add: Let_def list_all_iff)
  then obtain r where r: "r \<in> set api_routes" "ep_method r = hr_method q" "ep_path r = pat" "ep_handler r = h"
    by (auto simp: List.member_iff)
  have "find_route (hr_method q) (path_of (hr_url q)) = Some r"
    using r assms listed_not_twice by (intro route_found) (auto simp: serves_def list_all_iff)
  then show ?thesis by (simp add: handler_of_def r(4))
qed

lemma path_append: "CHR ''?'' \<notin> set s \<Longrightarrow> path_of (s @ t) = s @ path_of t"
  by (auto simp: path_of_def intro!: takeWhile_append2)

lemma path_simps [simp]:
  "path_of [] = []" "c \<noteq> CHR ''?'' \<Longrightarrow> path_of (c # s) = c # path_of s" "path_of (CHR ''?'' # s) = []"
  by (simp_all add: path_of_def)

lemma one_segmentD [simp]:
  assumes "one_segment s"
  shows "path_of (s @ t) = s @ path_of t" "path_of s = s"
    "split_on (CHR ''/'') (s @ CHR ''/'' # t) = s # split_on (CHR ''/'') t"
    "split_on (CHR ''/'') s = [s]" "s \<noteq> []"
proof -
  show "path_of (s @ t) = s @ path_of t" using assms by (intro path_append) (simp add: one_segment_def)
  show "path_of s = s" using assms path_append [of s "[]"] by (simp add: one_segment_def)
  show "split_on (CHR ''/'') (s @ CHR ''/'' # t) = s # split_on (CHR ''/'') t"
    by (rule split_on_append) (use assms in \<open>simp add: one_segment_def\<close>)
  show "split_on (CHR ''/'') s = [s]" by (rule split_on_no_sep) (use assms in \<open>simp add: one_segment_def\<close>)
  show "s \<noteq> []" using assms by (simp add: one_segment_def)
qed

lemmas request_defs = page_request_def apiGet_def apiPost_def apiDelete_def sending_def listed_def request_segments_def Let_def

text \<open>the requests of the pages for documents, their permissions, workspaces and their members reach the handlers
  that they are meant for.\<close>

theorem page_requests_served:
  assumes "one_segment i" and "one_segment uid"
  shows "handler_of (docs_load enc '''' tok i q tag) = Some ''listDocs''
    \<and> handler_of (docs_update '''' tok i patch) = Some ''updateDoc'' \<and> handler_of (docs_remove '''' tok i) = Some ''removeDoc''
    \<and> handler_of (perms_load '''' tok i) = Some ''listPerms'' \<and> handler_of (perms_add '''' tok i em role) = Some ''addPerm''
    \<and> handler_of (perms_remove '''' tok i uid) = Some ''delPerm''
    \<and> handler_of (members_load '''' tok i) = Some ''listMembers'' \<and> handler_of (members_add '''' tok i em role) = Some ''addMember''
    \<and> handler_of (members_remove '''' tok i uid) = Some ''removeMember''
    \<and> handler_of (settings_save '''' tok i n) = Some ''updateSettings''"
proof (intro conjI)
  show "handler_of (docs_load enc '''' tok i q tag) = Some ''listDocs''"
    by (rule handler_found [where pat = "[Fixed ''api'', Fixed ''docs'']"])
      (simp_all add: docs_load_def request_defs)
  show "handler_of (docs_update '''' tok i patch) = Some ''updateDoc''"
    by (rule handler_found [where pat = "[Fixed ''api'', Fixed ''docs'', Param ''id'']"])
      (simp_all add: docs_update_def request_defs assms)
  show "handler_of (docs_remove '''' tok i) = Some ''removeDoc''"
    by (rule handler_found [where pat = "[Fixed ''api'', Fixed ''docs'', Param ''id'']"])
      (simp_all add: docs_remove_def request_defs assms)
  show "handler_of (perms_load '''' tok i) = Some ''listPerms''"
    by (rule handler_found [where pat = "[Fixed ''api'', Fixed ''docs'', Param ''id'', Fixed ''permissions'']"])
      (simp_all add: perms_load_def request_defs assms)
  show "handler_of (perms_add '''' tok i em role) = Some ''addPerm''"
    by (rule handler_found [where pat = "[Fixed ''api'', Fixed ''docs'', Param ''id'', Fixed ''permissions'']"])
      (simp_all add: perms_add_def request_defs assms)
  show "handler_of (perms_remove '''' tok i uid) = Some ''delPerm''"
    by (rule handler_found [where pat = "[Fixed ''api'', Fixed ''docs'', Param ''id'', Fixed ''permissions'', Param ''userId'']"])
      (simp_all add: perms_remove_def request_defs assms)
  show "handler_of (members_load '''' tok i) = Some ''listMembers''"
    by (rule handler_found [where pat = "[Fixed ''api'', Fixed ''workspaces'', Param ''workspaceId'', Fixed ''members'']"])
      (simp_all add: members_load_def request_defs assms)
  show "handler_of (members_add '''' tok i em role) = Some ''addMember''"
    by (rule handler_found [where pat = "[Fixed ''api'', Fixed ''workspaces'', Param ''workspaceId'', Fixed ''members'']"])
      (simp_all add: members_add_def request_defs assms)
  show "handler_of (members_remove '''' tok i uid) = Some ''removeMember''"
    by (rule handler_found [where pat = "[Fixed ''api'', Fixed ''workspaces'', Param ''workspaceId'', Fixed ''members'', Param ''userId'']"])
      (simp_all add: members_remove_def request_defs assms)
  show "handler_of (settings_save '''' tok i n) = Some ''updateSettings''"
    by (rule handler_found [where pat = "[Fixed ''api'', Fixed ''workspaces'', Param ''workspaceId'', Fixed ''settings'']"])
      (simp_all add: settings_save_def request_defs assms)
qed

lemma page_requests_served_witness:
  "handler_of (perms_remove '''' (Some ''t'') ''d1'' ''u1'') = Some ''delPerm''"
  using page_requests_served [of "''d1''" "''u1''"] by (simp add: one_segment_def)

section \<open>What is not served\<close>

fun may_start :: "segment list \<Rightarrow> string list \<Rightarrow> bool" where
  "may_start (Fixed s # ps) (t # ts) \<longleftrightarrow> to_lower s = to_lower t \<and> may_start ps ts"
| "may_start (Param n # ps) (t # ts) \<longleftrightarrow> may_start ps ts"
| "may_start [] (t # ts) \<longleftrightarrow> False"
| "may_start ps [] \<longleftrightarrow> True"

lemma fits_start: "fits p (xs @ ys) \<Longrightarrow> may_start p xs"
proof (induction p xs rule: may_start.induct)
  case (4 ps)
  then show ?case by (cases ps) simp_all
qed auto

lemma no_privacy_start: "list_all (\<lambda>r. \<not> may_start (ep_path r) [''api'', ''privacy'']) api_routes"
  by code_simp

text \<open>\<open>handleExport\<close> and \<open>handleDelete\<close> of the privacy page (\<open>web/src/app/privacy/page.tsx\<close>), and what it shows
  of the answer.\<close>

definition privacy_export_request :: "string \<Rightarrow> string option \<Rightarrow> http_request" where
  "privacy_export_request base token = apiPost base token ''/api/privacy/export'' None"

definition privacy_delete_request :: "string \<Rightarrow> string option \<Rightarrow> http_request" where
  "privacy_delete_request base token = apiPost base token ''/api/privacy/delete'' None"

definition export_shown :: "http_response \<Rightarrow> string \<times> json option" where
  "export_shown r = (case api_answer r of
     Inr j \<Rightarrow> (''Export complete'', Some j)
   | Inl e \<Rightarrow> (or_text e ''Export failed'', None))"

definition deletion_shown :: "http_response \<Rightarrow> string" where
  "deletion_shown r = (case api_answer r of
     Inr j \<Rightarrow> ''Deletion/anonymization complete'' | Inl e \<Rightarrow> or_text e ''Deletion failed'')"

lemma find_no_privacy: "find_route m (''/api/privacy/'' @ path) = None"
proof -
  have seg: "\<exists>ys. request_segments (''/api/privacy/'' @ path) = [''api'', ''privacy''] @ ys"
    by (simp add: request_segments_def Let_def)
  have "\<not> serves m (''/api/privacy/'' @ path) r" if "r \<in> set api_routes" for r
    using seg no_privacy_start that fits_start [of "ep_path r" "[''api'', ''privacy'']"]
    by (auto simp: serves_def list_all_iff)
  then show ?thesis by (simp add: find_route_def find_None_iff)
qed


lemma privacy_page_gets_nothing:
  "handler_of (privacy_export_request '''' tok) = None" "handler_of (privacy_delete_request '''' tok) = None"
  by (simp_all add: handler_of_def find_no_privacy [simplified] privacy_export_request_def privacy_delete_request_def request_defs)

section \<open>Requests without a token\<close>

definition req_header :: "string \<Rightarrow> http_request \<Rightarrow> string" where
  "req_header n q = (case find (\<lambda>(k, v). to_lower k = n) (hr_headers q) of Some (_, v) \<Rightarrow> v | None \<Rightarrow> [])"

definition bearer_token :: "http_request \<Rightarrow> string option" where
  "bearer_token q = (let h = req_header ''authorization'' q in
     if starts_with h ''Bearer '' \<and> drop 7 h \<noteq> [] then Some (drop 7 h) else None)"

definition url_query :: "string \<Rightarrow> string" where
  "url_query url = drop (Suc (length (path_of url))) url"

text \<open>\<open>AuthGuard\<close> on a request: \<open>tok\<close> reads a token, \<open>qs\<close> a parameter of the query (the package \<open>qs\<close>).\<close>

definition guard_request ::
  "(string \<Rightarrow> string) \<Rightarrow> 'j auth_lib \<Rightarrow> (string \<Rightarrow> 'j) \<Rightarrow> (string \<Rightarrow> string \<Rightarrow> string) \<Rightarrow> http_request \<Rightarrow> api
    \<Rightarrow> api_error + req_user" where
  "guard_request vars A tok qs q st = auth_guard vars A (map_option tok (bearer_token q))
     (or_text (req_header ''x-share-token'' q) (qs (url_query (hr_url q)) ''shareToken''))
     (or_text (req_header ''x-share-pass'' q) (qs (url_query (hr_url q)) ''sharePass'')) st"

text \<open>The requests of \<open>load\<close>, \<open>resync\<close> and \<open>flush\<close> of \<open>SimpleYProvider\<close>.\<close>

definition load_request :: "string \<Rightarrow> string \<Rightarrow> http_request" where
  "load_request apiBase docId = \<lparr>hr_url = apiBase @ ''/api/docs/'' @ docId @ ''/y'', hr_method = ''GET'', hr_headers = [], hr_body = None\<rparr>"

definition flush_request :: "string \<Rightarrow> string \<Rightarrow> bytes \<Rightarrow> http_request" where
  "flush_request apiBase docId merged = \<lparr>hr_url = apiBase @ ''/api/docs/'' @ docId @ ''/y'', hr_method = ''POST'',
     hr_headers = [(''Content-Type'', ''application/json'')], hr_body = Some (JObj [(''update'', JStr (toBase64 merged))])\<rparr>"

lemma no_token_refused:
  assumes "\<forall>n. qs [] n = []" and "url_query (hr_url q) = []"
    and "\<forall>(k, v) \<in> set (hr_headers q). to_lower k \<notin> {''authorization'', ''x-share-token'', ''x-share-pass''}"
  shows "guard_request vars A tok qs q st = Inl (Unauthorized ''Missing bearer token'')"
proof -
  have "req_header n q = []" if "n \<in> {''authorization'', ''x-share-token'', ''x-share-pass''}" for n
    using assms(3) that by (auto simp: req_header_def split: option.split dest!: find_Some_set)
  then show ?thesis
    using assms(1,2) by (simp add: guard_request_def bearer_token_def auth_guard_def guard_share_def or_text_def starts_with_def)
qed

lemma query_of_doc: "one_segment d \<Longrightarrow> url_query (''/api/docs/'' @ d @ ''/y'') = []"
  by (simp add: url_query_def)

lemma sync_requests_served:
  assumes "one_segment d"
  shows "handler_of (load_request '''' d) = Some ''yGet''" "handler_of (flush_request '''' d m) = Some ''yPost''"
proof -
  show "handler_of (load_request '''' d) = Some ''yGet''"
    by (rule handler_found [where pat = "[Fixed ''api'', Fixed ''docs'', Param ''id'', Fixed ''y'']"])
      (simp_all add: load_request_def request_defs assms)
  show "handler_of (flush_request '''' d m) = Some ''yPost''"
    by (rule handler_found [where pat = "[Fixed ''api'', Fixed ''docs'', Param ''id'', Fixed ''y'']"])
      (simp_all add: flush_request_def request_defs assms)
qed

text \<open>C13: the provider's own requests reach the handlers of the document's state but carry no token, so \<open>AuthGuard\<close>
  refuses them; after the answer to a flush the page is read-only and the update waits in its queue again.\<close>

theorem rest_sync_refused:
  assumes "one_segment d" and "\<forall>n. qs [] n = []"
  shows "handler_of (load_request '''' d) = Some ''yGet'' \<and> handler_of (flush_request '''' d merged) = Some ''yPost''
    \<and> guard_request vars A tok qs (load_request '''' d) st = Inl (Unauthorized ''Missing bearer token'')
    \<and> guard_request vars A tok qs (flush_request '''' d merged) st = Inl (Unauthorized ''Missing bearer token'')
    \<and> (let p' = flush_fail C True (Some 401) ra jitter merged p in pv_readOnly p' \<and> pv_queue p' = pv_queue p @ [merged])"
proof (intro conjI)
  have "url_query (hr_url (load_request '''' d)) = []" "url_query (hr_url (flush_request '''' d merged)) = []"
    using query_of_doc [OF assms(1)] by (simp_all add: load_request_def flush_request_def)
  then show "guard_request vars A tok qs (load_request '''' d) st = Inl (Unauthorized ''Missing bearer token'')"
    "guard_request vars A tok qs (flush_request '''' d merged) st = Inl (Unauthorized ''Missing bearer token'')"
    using assms(2) by (intro no_token_refused; simp add: load_request_def flush_request_def to_lower_def lower_char_def)+
  show "let p' = flush_fail C True (Some 401) ra jitter merged p in pv_readOnly p' \<and> pv_queue p' = pv_queue p @ [merged]"
    by (simp add: flush_fail_def flush_error_def Let_def)
       (simp add: bumpCounter_def emitError_def scheduleBackoff_def dispatch_def store_def p_emit_def Let_def)
qed (simp_all add: sync_requests_served [OF assms(1)])

lemma rest_sync_refused_witness:
  "\<forall>A tok st. guard_request (\<lambda>_. []) A tok (\<lambda>_ _. []) (load_request '''' ''d1'') st = Inl (Unauthorized ''Missing bearer token'')"
  by (intro allI rest_sync_refused [THEN conjunct2, THEN conjunct2, THEN conjunct1]) (simp_all add: one_segment_def)

text \<open>So are the requests of the sidebar of comments, which take the token from a place of the browser's storage
  that nothing writes.\<close>

lemma comments_refused:
  assumes "one_segment i" and "\<forall>n. qs [] n = []"
  shows "guard_request vars A tok qs (resolve_request '''' None i) st = Inl (Unauthorized ''Missing bearer token'')"
    "guard_request vars A tok qs (remove_request '''' None i) st = Inl (Unauthorized ''Missing bearer token'')"
  using assms
  by (intro no_token_refused; simp add: resolve_request_def remove_request_def apiPost_def sending_def apiDelete_def
      bearer_def url_query_def to_lower_def lower_char_def)+

section \<open>What needs no user\<close>

definition open_handlers :: "string list" where
  "open_handlers = map ep_handler (filter (\<lambda>r. NeedsUser \<notin> set (ep_guards r)) api_routes)"

lemma open_handlers_eq:
  "open_handlers = [''health'', ''ready'', ''listMetrics'', ''prometheus'', ''vitals'', ''getConfig'', ''setConfig'', ''login'',
     ''refresh'', ''logout'', ''oauth'', ''verifyEmail'', ''requestPasswordReset'', ''resetPassword'', ''register'',
     ''jobsHealth'', ''jobsStats'', ''resolveLink'', ''chaosGet'', ''chaosSet'']"
  by code_simp

text \<open>The guard of a request's route, for those routes that ask for a user.\<close>

definition admitted ::
  "(string \<Rightarrow> string) \<Rightarrow> 'j auth_lib \<Rightarrow> (string \<Rightarrow> 'j) \<Rightarrow> (string \<Rightarrow> string \<Rightarrow> string) \<Rightarrow> http_request \<Rightarrow> api \<Rightarrow> bool" where
  "admitted vars A tok qs q st = (case find_route (hr_method q) (path_of (hr_url q)) of
     None \<Rightarrow> False
   | Some r \<Rightarrow> NeedsUser \<in> set (ep_guards r) \<longrightarrow> (\<exists>u. guard_request vars A tok qs q st = Inr u))"

text \<open>C23: a request that carries neither a token nor a share link reaches, if it reaches a handler at all, one of the
  handlers of this list.\<close>

theorem strangers_reach_open_handlers:
  assumes "admitted vars A tok qs q st" and "\<forall>n. qs [] n = []" and "url_query (hr_url q) = []"
    and "\<forall>(k, v) \<in> set (hr_headers q). to_lower k \<notin> {''authorization'', ''x-share-token'', ''x-share-pass''}"
  shows "\<exists>h. handler_of q = Some h \<and> h \<in> {''health'', ''ready'', ''listMetrics'', ''prometheus'', ''vitals'', ''getConfig'',
     ''setConfig'', ''login'', ''refresh'', ''logout'', ''oauth'', ''verifyEmail'', ''requestPasswordReset'', ''resetPassword'',
     ''register'', ''jobsHealth'', ''jobsStats'', ''resolveLink'', ''chaosGet'', ''chaosSet''}"
proof -
  obtain r where r: "find_route (hr_method q) (path_of (hr_url q)) = Some r" "NeedsUser \<notin> set (ep_guards r)"
    using assms(1) no_token_refused [of qs, OF assms(2) assms(3) assms(4), of vars A tok st] by (auto simp: admitted_def split: option.splits)
  then have "r \<in> set api_routes" by (auto simp: find_route_def dest!: find_Some_set)
  with r(2) have "ep_handler r \<in> set open_handlers" by (auto simp: open_handlers_def)
  then show ?thesis using r(1) by (simp add: handler_of_def open_handlers_eq)
qed

lemma strangers_reach_open_handlers_witness:
  "\<exists>h. handler_of \<lparr>hr_url = ''/health'', hr_method = ''GET'', hr_headers = [], hr_body = None\<rparr> = Some h"
proof -
  have "find_route ''GET'' ''/health'' = Some (api_routes ! 0)" "NeedsUser \<notin> set (ep_guards (api_routes ! 0))"
    by code_simp+
  then have "admitted (\<lambda>_. []) A tok (\<lambda>_ _. []) \<lparr>hr_url = ''/health'', hr_method = ''GET'', hr_headers = [], hr_body = None\<rparr> st"
    for A :: "'j auth_lib" and tok st
    by (simp add: admitted_def)
  then show ?thesis
    using strangers_reach_open_handlers [where qs = "\<lambda>_ _. []"
      and q = "\<lparr>hr_url = ''/health'', hr_method = ''GET'', hr_headers = [], hr_body = None\<rparr>"]
    by (simp add: url_query_def) blast
qed

end
