(* ===== verification/EditorPanel.thy ===== *)
theory EditorPanel
  imports Overlays WebShell Provider
begin

text \<open>
  What surrounds the text in \<open>EditorCollab\<close> (\<open>web/src/components/EditorCollab.tsx\<close>): the toggles of its toolbar and
  what of them is kept, the notifications and their timers, the lists of who is there, the backup; and how
  \<open>RemotePresenceOverlay.tsx\<close> finds a position in the page. A list on the page is the list of what its items show;
  the text with an ellipsis is represented by the number in it, the title with a bullet by what follows the bullet.
\<close>

section \<open>Toggles and notifications\<close>

text \<open>\<open>pl_clears\<close> are the due times of the timers that take the toast away.\<close>

record panel =
  pl_theme :: string
  pl_focus :: bool
  pl_help :: bool
  pl_slash :: bool
  pl_comments :: bool
  pl_toast :: "string option"
  pl_clears :: "int list"
  pl_spoken :: "string list"
  pl_kept :: "string \<rightharpoonup> string"

definition open_panel :: "(string \<rightharpoonup> string) \<Rightarrow> panel" where
  "open_panel kept = \<lparr>pl_theme = (case kept ''editorTheme'' of Some v \<Rightarrow> or_text v ''default'' | None \<Rightarrow> ''default''),
     pl_focus = False, pl_help = (case kept ''collab-help-dismissed'' of Some v \<Rightarrow> v = [] | None \<Rightarrow> True),
     pl_slash = False, pl_comments = False, pl_toast = None, pl_clears = [], pl_spoken = [], pl_kept = kept\<rparr>"

datatype panel_event = ToggleTheme | ToggleFocus | DismissHelp | ToggleSlash | ToggleComments | Notify bool string string | Tick

definition toggle_theme :: "panel \<Rightarrow> panel" where
  "toggle_theme p = (let n = (if pl_theme p = ''default'' then ''contrast'' else ''default'')
     in p\<lparr>pl_theme := n, pl_kept := (pl_kept p)(''editorTheme'' \<mapsto> n)\<rparr>)"

definition onNotify :: "int \<Rightarrow> bool \<Rightarrow> string \<Rightarrow> string \<Rightarrow> panel \<Rightarrow> panel" where
  "onNotify now voice kind text p = p\<lparr>pl_toast := Some (toast_text kind text), pl_clears := pl_clears p @ [now + 4000],
     pl_spoken := (if voice then pl_spoken p @ [toast_text kind []] else pl_spoken p)\<rparr>"

definition fire_clears :: "int \<Rightarrow> panel \<Rightarrow> panel" where
  "fire_clears now p = (if \<exists>t \<in> set (pl_clears p). t \<le> now
     then p\<lparr>pl_toast := None, pl_clears := filter (\<lambda>t. now < t) (pl_clears p)\<rparr> else p)"

fun panel_do :: "int \<Rightarrow> panel_event \<Rightarrow> panel \<Rightarrow> panel" where
  "panel_do now ToggleTheme p = toggle_theme p"
| "panel_do now ToggleFocus p = p\<lparr>pl_focus := \<not> pl_focus p\<rparr>"
| "panel_do now DismissHelp p = p\<lparr>pl_help := False, pl_kept := (pl_kept p)(''collab-help-dismissed'' \<mapsto> ''1'')\<rparr>"
| "panel_do now ToggleSlash p = p\<lparr>pl_slash := \<not> pl_slash p\<rparr>"
| "panel_do now ToggleComments p = p\<lparr>pl_comments := \<not> pl_comments p\<rparr>"
| "panel_do now (Notify voice kind text) p = onNotify now voice kind text p"
| "panel_do now Tick p = p"

text \<open>An event at a time; the timers that are due fire first.\<close>

definition panel_step :: "int \<times> panel_event \<Rightarrow> panel \<Rightarrow> panel" where
  "panel_step e p = panel_do (fst e) (snd e) (fire_clears (fst e) p)"

definition panel_run :: "(int \<times> panel_event) list \<Rightarrow> panel \<Rightarrow> panel" where
  "panel_run es p = fold panel_step es p"

fun notifies :: "panel_event \<Rightarrow> bool" where
  "notifies (Notify voice kind text) = True"
| "notifies ToggleTheme = False" | "notifies ToggleFocus = False" | "notifies DismissHelp = False"
| "notifies ToggleSlash = False" | "notifies ToggleComments = False" | "notifies Tick = False"

definition toast_ok :: "panel \<Rightarrow> bool" where
  "toast_ok p \<longleftrightarrow> (pl_toast p \<noteq> None \<longrightarrow> pl_clears p \<noteq> [])"

lemma fire_clears_ok: "toast_ok p \<Longrightarrow> toast_ok (fire_clears now p)"
  by (simp add: fire_clears_def toast_ok_def)

lemma panel_step_ok: "toast_ok p \<Longrightarrow> toast_ok (panel_step e p)"
  using fire_clears_ok [of p "fst e"]
  by (cases "snd e") (simp_all add: panel_step_def toast_ok_def onNotify_def toggle_theme_def Let_def)

lemma panel_run_ok: "toast_ok p \<Longrightarrow> toast_ok (panel_run es p)"
  by (induction es arbitrary: p) (simp_all add: panel_run_def panel_step_ok)

lemma clears_source:
  "t \<in> set (pl_clears (panel_run es p)) \<Longrightarrow> t \<in> set (pl_clears p) \<or> (\<exists>(now, e) \<in> set es. notifies e \<and> t = now + 4000)"
proof (induction es arbitrary: p)
  case (Cons a es)
  have step: "t \<in> set (pl_clears p) \<or> notifies (snd a) \<and> t = fst a + 4000" if "t \<in> set (pl_clears (panel_step a p))"
    using that by (cases "snd a") (auto simp: panel_step_def fire_clears_def onNotify_def toggle_theme_def Let_def split: if_splits)
  show ?case
    using Cons.IH [of "panel_step a p"] Cons.prems step by (cases a) (auto simp: panel_run_def)
qed (simp add: panel_run_def)

text \<open>a toast goes away: four seconds after the last notification none is shown, whatever was clicked meanwhile.\<close>

theorem toast_goes_away:
  assumes "\<forall>(t, e) \<in> set es. notifies e \<longrightarrow> t + 4000 \<le> now" and "\<not> notifies ev"
  shows "pl_toast (panel_run (es @ [(now, ev)]) (open_panel kept)) = None"
proof -
  let ?p = "panel_run es (open_panel kept)"
  have "toast_ok ?p" by (rule panel_run_ok) (simp add: toast_ok_def open_panel_def)
  moreover have "t \<le> now" if "t \<in> set (pl_clears ?p)" for t
    using clears_source [OF that] assms(1) by (auto simp: open_panel_def)
  ultimately have "pl_toast (fire_clears now ?p) = None"
    by (cases "pl_clears ?p") (auto simp: fire_clears_def toast_ok_def)
  with assms(2) show ?thesis
    by (cases ev) (simp_all add: panel_run_def panel_step_def toggle_theme_def Let_def)
qed

lemma toast_goes_away_witness:
  "pl_toast (panel_run [(0, Notify False ''reply'' []), (10, ToggleFocus), (4000, Tick)] (open_panel Map.empty)) = None"
  using toast_goes_away [of "[(0, Notify False ''reply'' []), (10, ToggleFocus)]" 4000 Tick Map.empty] by simp

text \<open>The timer of an earlier notification is not cancelled: it takes away a later one's toast.\<close>

lemma toast_cut_short:
  "pl_toast (panel_run [(0, Notify False ''reply'' []), (3900, Notify False ''mention'' []), (4000, Tick)] (open_panel Map.empty)) = None"
  by code_simp

text \<open>The theme and the dismissal of the help are found again when the editor is opened again.\<close>

lemma kept_step:
  assumes "pl_kept p ''editorTheme'' = Some (pl_theme p) \<or> pl_theme p = pl_theme (open_panel (pl_kept p))" and "pl_theme p \<noteq> []"
  shows "pl_theme (open_panel (pl_kept (panel_step e p))) = pl_theme (panel_step e p) \<and> pl_theme (panel_step e p) \<noteq> []"
  using assms
  by (cases "snd e")
    (auto simp: panel_step_def fire_clears_def onNotify_def toggle_theme_def Let_def open_panel_def or_text_def
       split: option.splits if_splits)

text \<open>an editor that is opened again has the theme it was left with.\<close>

theorem theme_survives:
  "pl_theme (open_panel (pl_kept (panel_run es (open_panel kept)))) = pl_theme (panel_run es (open_panel kept))"
proof -
  have "pl_theme (open_panel (pl_kept (panel_run es p))) = pl_theme (panel_run es p)"
    if "pl_theme (open_panel (pl_kept p)) = pl_theme p" "pl_theme p \<noteq> []" for p
    using that
  proof (induction es arbitrary: p)
    case (Cons e es)
    then have "pl_theme (open_panel (pl_kept (panel_step e p))) = pl_theme (panel_step e p) \<and> pl_theme (panel_step e p) \<noteq> []"
      using kept_step [of p e] by simp
    with Cons.IH [of "panel_step e p"] show ?case by (simp add: panel_run_def)
  qed (simp add: panel_run_def)
  then show ?thesis by (auto simp: open_panel_def or_text_def split: option.split)
qed

section \<open>Who is there\<close>

record person =
  pn_user :: string
  pn_label :: string
  pn_color :: string
  pn_idle :: bool
  pn_title :: string

definition person_of :: "int \<Rightarrow> string \<times> cursor \<Rightarrow> person" where
  "person_of now e = (case e of (uid, p) \<Rightarrow>
     let idle = (now - cu_ts p > 10000)
     in \<lparr>pn_user = uid, pn_label = userLabel uid, pn_color = colorForUser uid, pn_idle = idle,
         pn_title = (if idle then ''last seen '' @ timeAgo now (cu_ts p) else ''Online'')\<rparr>)"

text \<open>The list with the role \<open>listbox\<close> and the list of active users show the same people; the second has their number
  in front. A heading is shown when there is somebody.\<close>

definition active_users :: "int \<Rightarrow> collab \<Rightarrow> (nat \<times> person list) option" where
  "active_users now c = (if co_presences c = [] then None
     else Some (length (co_presences c), map (person_of now) (co_presences c)))"

definition typing_count :: "collab \<Rightarrow> nat option" where
  "typing_count c = (if co_typing c = [] then None else Some (length (co_typing c)))"

definition heat_bars :: "collab \<Rightarrow> rat list" where
  "heat_bars c = map (\<lambda>v. min 1 (of_int v / 8)) (co_heat c)"

definition conflict_lines :: "int \<Rightarrow> collab \<Rightarrow> (severity \<times> string \<times> string) list" where
  "conflict_lines now c = map (\<lambda>(t, uid, sev). (sev, userLabel uid, timeAgo now t)) (take 5 (co_conflicts c))"

definition contribution_items :: "(string \<times> int) list \<Rightarrow> (string \<times> string \<times> int) list" where
  "contribution_items items = map (\<lambda>(uid, v). (colorForUser uid, userLabel uid, v)) items"

definition health_line :: "health \<Rightarrow> int option \<Rightarrow> string option" where
  "health_line h rtt = (if h = Ok then None
     else Some ((if h = Degraded then ''Service degraded; syncing may be delayed.'' else ''Service down; working offline.'')
       @ (case rtt of Some n \<Rightarrow> if n \<noteq> 0 then '' '' @ [char_of (183 :: nat)] @ '' RTT: '' @ show_int n @ ''ms'' else [] | None \<Rightarrow> [])))"

text \<open>What the live region says: the block at the cursor and the last announcement.\<close>

definition live_region :: "nat option \<Rightarrow> bool \<Rightarrow> bool \<Rightarrow> string \<Rightarrow> string" where
  "live_region heading bullets ordered said =
     (if heading = Some 1 then ''Heading level 1'' else []) @ (if heading = Some 2 then ''Heading level 2'' else [])
     @ (if bullets then ''Bullet list'' else []) @ (if ordered then ''Ordered list'' else []) @ said"

text \<open>The retry button of the toolbar.\<close>

definition retry_shown :: "bool \<Rightarrow> string \<Rightarrow> bool" where
  "retry_shown offline state \<longleftrightarrow> offline \<or> state = ''backoff''"

lemma person_of_simps [simp]:
  "pn_user (person_of now e) = fst e" "pn_idle (person_of now e) = (now - cu_ts (snd e) > 10000)"
  by (simp_all add: person_of_def Let_def case_prod_beta)

text \<open>after any events and a cleaning, the list of people shows everybody who is known exactly once; who is shown as
  idle was heard of in the last minute but not in the last ten seconds.\<close>

theorem everybody_listed_once:
  assumes "c = clean now (fold collab_step evs new_collab)" and "active_users now c = Some (n, ps)"
  shows "n = length ps \<and> distinct (map pn_user ps) \<and> set (map pn_user ps) = fst ` set (co_presences c)
    \<and> (\<forall>p \<in> set ps. pn_idle p \<longrightarrow> (\<exists>cu. (pn_user p, cu) \<in> set (co_presences c) \<and> 10000 < now - cu_ts cu \<and> now - cu_ts cu < 60000))"
proof -
  have "collab_ok c"
    using collab_step_ok [OF collab_stays_ok [of evs], of now EvClean] by (simp add: assms(1))
  then have d: "distinct (map fst (co_presences c))" by (simp add: collab_ok_def)
  have ps: "n = length (co_presences c)" "ps = map (person_of now) (co_presences c)"
    using assms(2) by (auto simp: active_users_def split: if_splits)
  have u: "map pn_user ps = map fst (co_presences c)" by (simp add: ps(2))
  have "now - cu_ts cu < 60000" if "(uid, cu) \<in> set (co_presences c)" for uid cu
    using that by (simp add: assms(1) clean_def)
  then have "\<exists>cu. (pn_user p, cu) \<in> set (co_presences c) \<and> 10000 < now - cu_ts cu \<and> now - cu_ts cu < 60000"
    if "p \<in> set ps" "pn_idle p" for p
    using that by (auto simp: ps(2))
  moreover have "n = length ps" using ps by simp
  moreover have "set (map pn_user ps) = fst ` set (co_presences c)" by (simp add: u)
  ultimately show ?thesis using d u by simp
qed

definition demo_evs :: "(int \<times> collab_event) list" where
  "demo_evs = [(0, EvPresence \<lparr>pm_userId = ''u1'', pm_anchor = 1, pm_head = 1, pm_typing = False, pm_ts = 5\<rparr>),
     (0, EvPresence \<lparr>pm_userId = ''u2'', pm_anchor = 3, pm_head = 3, pm_typing = True, pm_ts = 15000\<rparr>)]"

lemma everybody_listed_once_witness:
  "\<exists>ps. active_users 20000 (clean 20000 (fold collab_step demo_evs new_collab)) = Some (2, ps) \<and> length ps = 2"
proof -
  have "length (co_presences (clean 20000 (fold collab_step demo_evs new_collab))) = 2" by code_simp
  moreover from this have "co_presences (clean 20000 (fold collab_step demo_evs new_collab)) \<noteq> []" by fastforce
  ultimately obtain ps where a: "active_users 20000 (clean 20000 (fold collab_step demo_evs new_collab)) = Some (2, ps)"
    by (simp add: active_users_def)
  with everybody_listed_once [OF refl a] show ?thesis by auto
qed

text \<open>the bars of the heat map are drawn with an opacity between nothing and one, and at most five conflicts are told.\<close>

theorem bars_and_lines_bounded:
  "length (heat_bars (fold collab_step evs new_collab)) = 20 \<and> length (conflict_lines now (fold collab_step evs new_collab)) \<le> 5
   \<and> set (heat_bars (fold collab_step evs new_collab)) \<subseteq> {0..1}"
  using collab_stays_ok [of evs] by (auto simp: collab_ok_def heat_bars_def conflict_lines_def min_def)

section \<open>The keys of the list\<close>

text \<open>\<open>handlePresenceListKeys\<close>, which no element calls: \<open>i\<close> is the focused item, \<open>-1\<close> for none.\<close>

definition people_key :: "nat \<Rightarrow> int \<Rightarrow> string \<Rightarrow> nat option" where
  "people_key n i key =
     (if key = ''ArrowRight'' \<or> key = ''ArrowDown''
      then let k = min (int n - 1) (i + 1) in if 0 \<le> k then Some (nat k) else None
      else if key = ''ArrowLeft'' \<or> key = ''ArrowUp''
      then let k = max 0 (i - 1) in if k < int n then Some (nat k) else if n = 0 then None else Some (n - 1)
      else None)"

text \<open>the key handler of the list would focus an item of the list, or nothing.\<close>

theorem people_key_in_list:
  assumes "-1 \<le> i" and "i < int n" and "people_key n i key = Some k"
  shows "k < n"
proof -
  have "k = nat (min (int n - 1) (i + 1)) \<and> 0 \<le> min (int n - 1) (i + 1) \<or> k = nat (max 0 (i - 1)) \<and> max 0 (i - 1) < int n
    \<or> 0 < n \<and> k = n - 1"
    using assms(3) by (auto simp: people_key_def Let_def split: if_splits)
  then show ?thesis by linarith
qed

lemma people_key_in_list_witness: "\<exists>k. people_key 3 (-1) ''ArrowDown'' = Some k \<and> k < 3"
proof -
  have "people_key 3 (-1) ''ArrowDown'' = Some 0" by (simp add: people_key_def)
  with people_key_in_list [of "-1" 3 "''ArrowDown''" 0] show ?thesis by simp
qed

section \<open>Claims announced, comments added, the backup\<close>

datatype permission = Granted | Denied | Undecided

text \<open>The notification shown, and whether the permission is asked for.\<close>

definition claim_notice :: "bool \<Rightarrow> permission option \<Rightarrow> sec_claim \<Rightarrow> string option \<times> bool" where
  "claim_notice notify perm k = (if sc_id k = [] \<or> \<not> notify then (None, False)
     else case perm of
         None \<Rightarrow> (None, False)
       | Some Granted \<Rightarrow> (Some (''Section claimed by '' @ userLabel (sc_user k)), False)
       | Some Denied \<Rightarrow> (None, False)
       | Some Undecided \<Rightarrow> (None, True))"

text \<open>The button for a comment: \<open>answer\<close> is that of the prompt.\<close>

definition add_comment :: "string \<Rightarrow> string option \<Rightarrow> string \<Rightarrow> int \<Rightarrow> int \<Rightarrow> string option \<Rightarrow> string + http_request option" where
  "add_comment base token docId selFrom selTo answer =
     (if selFrom = selTo then Inl ''Select text to comment''
      else case answer of
          None \<Rightarrow> Inr None
        | Some text \<Rightarrow> if text = [] then Inr None
            else Inr (Some (apiPost base token ''/comments'' (Some (JObj [(''documentId'', JStr docId), (''text'', JStr text),
              (''anchor'', JObj [(''from'', JNum selFrom), (''to'', JNum selTo)])])))))"

text \<open>The events after which the threads are loaded again, and the button that claims the selection for a minute.\<close>

definition reload_threads :: "string \<Rightarrow> json \<Rightarrow> bool" where
  "reload_threads docId detail \<longleftrightarrow> jfield ''docId'' detail = Some (JStr docId)"

definition claim_button :: "pcfg \<Rightarrow> int \<Rightarrow> int \<Rightarrow> 'y provider \<Rightarrow> 'y provider" where
  "claim_button C selFrom selTo p = claimSection C selFrom selTo 60 p"

text \<open>\<open>exportBackup\<close>: the name of the file and what is in it.\<close>

definition exportBackup :: "'y ylib \<Rightarrow> string \<Rightarrow> 'y \<Rightarrow> string \<times> string" where
  "exportBackup L docId y = (''doc-'' @ docId @ ''-backup.txt'', b64_encode (y_encode L y))"

text \<open>a backup holds the document: decoded and applied to an empty document it gives the document back.\<close>

theorem backup_restores:
  assumes "yjs_laws L join dec"
  shows "\<exists>u. fromBase64 (snd (exportBackup L docId y)) = Some u \<and> y_apply L (y_empty L) u = Some y"
  using fromBase64_toBase64 [of "y_encode L y"]
  by (simp add: exportBackup_def toBase64_def yjs_apply [OF assms] yjs_dec_encode [OF assms] yjs_ac [OF assms])

lemma backup_restores_witness:
  "\<exists>u. fromBase64 (snd (exportBackup byte_lib ''d'' {1, 2})) = Some u \<and> y_apply byte_lib (y_empty byte_lib) u = Some {1, 2}"
  using backup_restores [OF byte_lib_laws(1)] by blast

section \<open>A position in the page\<close>

text \<open>\<open>nodeFromDomAtPos\<close>: text nodes with their length, elements with their children.\<close>

datatype dom_node = TextNode nat | Element "dom_node list"

definition nodeFromDomAtPos :: "dom_node \<Rightarrow> nat \<Rightarrow> dom_node \<times> nat" where
  "nodeFromDomAtPos node off = (case node of
     TextNode n \<Rightarrow> (node, off)
   | Element cs \<Rightarrow>
       if cs = [] then (node, min off 0)
       else (case cs ! min off (length cs - 1) of TextNode n \<Rightarrow> (TextNode n, min n 0) | Element ds \<Rightarrow> (node, off)))"

definition dom_valid :: "dom_node \<times> nat \<Rightarrow> bool" where
  "dom_valid p = (case p of (TextNode n, k) \<Rightarrow> k \<le> n | (Element cs, k) \<Rightarrow> k \<le> length cs)"

text \<open>what a range is set to is a valid place of its node when the editor gave one.\<close>

theorem dom_place_valid:
  assumes "dom_valid (node, k)"
  shows "dom_valid (nodeFromDomAtPos node k)"
  using assms by (auto simp: nodeFromDomAtPos_def dom_valid_def split: dom_node.splits)

lemma dom_place_valid_witness: "dom_valid (nodeFromDomAtPos (Element [TextNode 5]) 1)"
  by (rule dom_place_valid) (simp add: dom_valid_def)

text \<open>The end of an element whose last child is a text becomes the beginning of that text.\<close>

lemma end_becomes_start:
  "nodeFromDomAtPos (Element (cs @ [TextNode n])) (length cs + 1) = (TextNode n, 0)"
  by (simp add: nodeFromDomAtPos_def min_def)

end
